(* ===== verification/Prelude.thy ===== *)
theory Prelude
  imports Main "HOL-Library.Word"
begin

text \<open>
  Shared vocabulary of the development: the result type of the modelled Rust functions, the
  machine integers of the source (\<open>U256\<close>, \<open>Address\<close>, \<open>B256\<close>, \<open>u64\<close>, \<open>i64\<close>, \<open>u8\<close> as words,
  \<open>usize\<close> as a natural number with its saturation written out), Rust's slice and \<open>Vec\<close>
  primitives with their panics, big-endian byte conversion, and the lemma collections the
  component theories use.

  Conventions. A Rust function that can panic returns \<open>'a res\<close>: \<open>Ret v\<close> is a normal return,
  \<open>Panic\<close> an \<open>unwrap\<close>, \<open>expect\<close>, \<open>todo!\<close>, slice, capacity or integer overflow panic (plain
  primitive arithmetic is the checked arithmetic of cargo's dev profile), and \<open>OutOfFuel\<close> occurs
  only in the interpreter, whose recursion is bounded by a fuel argument.  A \<open>&mut\<close> argument is
  an argument together with a component of the result.
\<close>

unbundle bit_operations_syntax

section \<open>Results\<close>

datatype 'a res = Ret 'a | Panic | OutOfFuel

primrec bindR :: "'a res \<Rightarrow> ('a \<Rightarrow> 'b res) \<Rightarrow> 'b res" where
  "bindR (Ret x) f = f x"
| "bindR Panic f = Panic"
| "bindR OutOfFuel f = OutOfFuel"

text \<open>\<open>Option::unwrap\<close> and \<open>Option::expect\<close>.\<close>

primrec unwrap :: "'a option \<Rightarrow> 'a res" where
  "unwrap None = Panic"
| "unwrap (Some x) = Ret x"

text \<open>\<open>Option::unwrap_or\<close>.\<close>

primrec unwrap_or :: "'a option \<Rightarrow> 'a \<Rightarrow> 'a" where
  "unwrap_or None d = d"
| "unwrap_or (Some x) d = x"

definition terminates :: "'a res \<Rightarrow> bool" where
  "terminates r \<longleftrightarrow> r \<noteq> OutOfFuel"

named_theorems res_simps \<open>when a primitive returns normally\<close>

lemma bindR_eq_Ret: "bindR m f = Ret y \<longleftrightarrow> (\<exists>x. m = Ret x \<and> f x = Ret y)"
  by (cases m) auto

lemma unwrap_eq_Ret [res_simps]: "unwrap x = Ret y \<longleftrightarrow> x = Some y"
  by (cases x) auto

lemma unwrap_terminates [simp]: "unwrap x \<noteq> OutOfFuel"
  by (cases x) auto

lemma bindR_terminates:
  "m \<noteq> OutOfFuel \<Longrightarrow> (\<And>x. m = Ret x \<Longrightarrow> f x \<noteq> OutOfFuel) \<Longrightarrow> bindR m f \<noteq> OutOfFuel"
  by (cases m) auto

lemma bindR_assoc: "bindR (bindR m f) g = bindR m (\<lambda>x. bindR (f x) g)"
  by (cases m) auto

lemma RetE [elim!]:
  assumes "bindR m f = Ret y"
  obtains x where "m = Ret x" "f x = Ret y"
  using assms by (cases m) auto

section \<open>Integers\<close>

type_synonym byte = "8 word"
type_synonym u64 = "64 word"
type_synonym i64 = "64 word"
type_synonym u256 = "256 word"
type_synonym b256 = "256 word"
type_synonym address = "160 word"
type_synonym usize = nat

definition usize_max :: usize where "usize_max = 2 ^ 64 - 1"
definition isize_max :: usize where "isize_max = 2 ^ 63 - 1"

definition usize_sat_add :: "usize \<Rightarrow> usize \<Rightarrow> usize" where
  "usize_sat_add a b = min (a + b) usize_max"

definition usize_sat_mul :: "usize \<Rightarrow> usize \<Rightarrow> usize" where
  "usize_sat_mul a b = min (a * b) usize_max"

text \<open>\<open>U256::try_into().unwrap_or(usize::MAX)\<close>.\<close>

definition to_usize :: "u256 \<Rightarrow> usize" where
  "to_usize w = (if unat w \<le> usize_max then unat w else usize_max)"

definition sat_add :: "u256 \<Rightarrow> u256 \<Rightarrow> u256" where
  "sat_add a b = (if unat a + unat b < 2 ^ 256 then a + b else -1)"

definition sat_mul :: "u256 \<Rightarrow> u256 \<Rightarrow> u256" where
  "sat_mul a b = (if unat a * unat b < 2 ^ 256 then a * b else -1)"

definition sat_sub :: "u256 \<Rightarrow> u256 \<Rightarrow> u256" where
  "sat_sub a b = (if a < b then 0 else a - b)"

text \<open>Number of significant bits (\<open>Uint::bit_len\<close>) of a value.\<close>

fun bit_len :: "nat \<Rightarrow> nat" where
  "bit_len n = (if n = 0 then 0 else Suc (bit_len (n div 2)))"

declare bit_len.simps [simp del]

text \<open>\<open>Address::from_word\<close> keeps the low 20 bytes, \<open>Address::into_word\<close> pads with zeros.\<close>

definition from_word :: "u256 \<Rightarrow> address" where
  "from_word w = ucast w"

definition into_word :: "address \<Rightarrow> u256" where
  "into_word a = ucast a"

named_theorems nat_word \<open>words read as natural numbers\<close>

lemma unat_sat_add [nat_word]: "unat (sat_add a b) = min (unat a + unat b) (2 ^ 256 - 1)"
proof (cases "unat a + unat b < 2 ^ 256")
  case True
  then show ?thesis by (simp add: sat_add_def unat_word_ariths)
next
  case False
  have "unat (- 1 :: u256) = 2 ^ 256 - 1" by (simp add: unsigned_minus_1_eq_mask mask_eq_exp_minus_1)
  with False show ?thesis by (simp add: sat_add_def)
qed

lemma unat_sat_mul [nat_word]: "unat (sat_mul a b) = min (unat a * unat b) (2 ^ 256 - 1)"
proof (cases "unat a * unat b < 2 ^ 256")
  case True
  then show ?thesis by (simp add: sat_mul_def unat_word_ariths)
next
  case False
  have "unat (- 1 :: u256) = 2 ^ 256 - 1" by (simp add: unsigned_minus_1_eq_mask mask_eq_exp_minus_1)
  with False show ?thesis by (simp add: sat_mul_def)
qed

lemma unat_sub_le: "(b :: 'a :: len word) \<le> a \<Longrightarrow> unat (a - b) = unat a - unat b"
  by (simp add: unat_sub)

lemma unat_sat_sub [nat_word]: "unat (sat_sub a b) = unat a - unat b"
  by (auto simp: sat_sub_def word_less_nat_alt unat_sub_le word_le_nat_alt not_less)

lemma u256_less: "unat (w :: u256) < 2 ^ 256"
  using unsigned_less [of w] by simp

lemma u256_le: "unat (w :: u256) \<le> 2 ^ 256 - 1"
  using u256_less [of w] by simp

lemma unat_add_u256: "unat a + unat b < 2 ^ 256 \<Longrightarrow> unat (a + b :: u256) = unat a + unat b"
  by (simp add: unat_word_ariths)

lemma to_usize_le: "to_usize w \<le> usize_max"
  by (simp add: to_usize_def)

lemma to_usize_0 [simp]: "to_usize 0 = 0"
  by (simp add: to_usize_def)

lemma to_usize_eq_0 [simp]: "to_usize w = 0 \<longleftrightarrow> w = 0"
  by (auto simp: to_usize_def usize_max_def unat_eq_0)

lemma from_into_word [simp]: "from_word (into_word a) = a"
  by (simp add: from_word_def into_word_def ucast_up_ucast_id is_up.rep_eq)

section \<open>Slices and vectors\<close>

text \<open>\<open>&xs[a..b]\<close>.\<close>

definition slice_of :: "'a list \<Rightarrow> usize \<Rightarrow> usize \<Rightarrow> 'a list res" where
  "slice_of xs a b = (if a \<le> b \<and> b \<le> length xs then Ret (take (b - a) (drop a xs)) else Panic)"

text \<open>\<open>dst[a..b].copy_from_slice(src)\<close>.\<close>

definition copy_slice :: "'a list \<Rightarrow> usize \<Rightarrow> usize \<Rightarrow> 'a list \<Rightarrow> 'a list res" where
  "copy_slice dst a b src =
     (if a \<le> b \<and> b \<le> length dst \<and> length src = b - a
      then Ret (take a dst @ src @ drop b dst) else Panic)"

text \<open>\<open>Vec::resize\<close>: a capacity beyond \<open>isize::MAX\<close> bytes panics.\<close>

definition vec_resize :: "byte list \<Rightarrow> usize \<Rightarrow> byte list res" where
  "vec_resize xs n =
     (if n \<le> isize_max then Ret (take n xs @ replicate (n - length xs) 0) else Panic)"

text \<open>\<open>if !v.contains(&x) { v.push(x) }\<close>.\<close>

definition push_new :: "'a \<Rightarrow> 'a list \<Rightarrow> 'a list" where
  "push_new x xs = (if x \<in> set xs then xs else xs @ [x])"

lemma slice_eq_Ret [res_simps]:
  "slice_of xs a b = Ret ys \<longleftrightarrow> a \<le> b \<and> b \<le> length xs \<and> ys = take (b - a) (drop a xs)"
  by (auto simp: slice_of_def)

lemma copy_slice_eq_Ret [res_simps]:
  "copy_slice dst a b src = Ret ys \<longleftrightarrow>
     a \<le> b \<and> b \<le> length dst \<and> length src = b - a \<and> ys = take a dst @ src @ drop b dst"
  by (auto simp: copy_slice_def)

lemma vec_resize_eq_Ret [res_simps]:
  "vec_resize xs n = Ret ys \<longleftrightarrow> n \<le> isize_max \<and> ys = take n xs @ replicate (n - length xs) 0"
  by (auto simp: vec_resize_def)

lemma slice_terminates [simp]: "slice_of xs a b \<noteq> OutOfFuel"
  and copy_slice_terminates [simp]: "copy_slice xs a b ys \<noteq> OutOfFuel"
  and vec_resize_terminates [simp]: "vec_resize bs n \<noteq> OutOfFuel"
  by (simp_all add: slice_of_def copy_slice_def vec_resize_def)

lemma length_copy_slice: "copy_slice dst a b src = Ret ys \<Longrightarrow> length ys = length dst"
  by (auto simp: copy_slice_eq_Ret)

lemma slice_copy_slice:
  "copy_slice dst a b src = Ret ys \<Longrightarrow> slice_of ys a b = Ret src"
  by (auto simp: copy_slice_eq_Ret slice_of_def)

lemma set_push_new [simp]: "set (push_new x xs) = insert x (set xs)"
  by (auto simp: push_new_def)

section \<open>Big-endian bytes\<close>

text \<open>\<open>to_be_bytes\<close>, \<open>from_be_bytes\<close> and \<open>from_be_slice\<close> of the fixed-width integers.\<close>

primrec be_bytes :: "nat \<Rightarrow> nat \<Rightarrow> byte list" where
  "be_bytes 0 x = []"
| "be_bytes (Suc n) x = be_bytes n (x div 256) @ [of_nat x]"

definition be_val :: "byte list \<Rightarrow> nat" where
  "be_val bs = foldl (\<lambda>acc b. acc * 256 + unat b) 0 bs"

definition to_be_bytes :: "u256 \<Rightarrow> byte list" where
  "to_be_bytes w = be_bytes 32 (unat w)"

definition from_be_bytes :: "byte list \<Rightarrow> u256" where
  "from_be_bytes bs = of_nat (be_val bs)"

definition address_bytes :: "address \<Rightarrow> byte list" where
  "address_bytes a = be_bytes 20 (unat a)"

lemma length_be_bytes [simp]: "length (be_bytes n x) = n"
  by (induction n arbitrary: x) auto

lemma length_to_be_bytes [simp]: "length (to_be_bytes w) = 32"
  by (simp add: to_be_bytes_def)

lemma length_address_bytes [simp]: "length (address_bytes a) = 20"
  by (simp add: address_bytes_def)

lemma be_val_snoc [simp]: "be_val (bs @ [b]) = be_val bs * 256 + unat b"
  by (simp add: be_val_def)

lemma be_val_Nil [simp]: "be_val [] = 0"
  by (simp add: be_val_def)

lemma be_val_be_bytes: "be_val (be_bytes n x) = x mod 256 ^ n"
proof (induction n arbitrary: x)
  case 0
  then show ?case by simp
next
  case (Suc n)
  have "unat (of_nat x :: byte) = x mod 256" by (simp add: unat_of_nat)
  then show ?case by (simp add: Suc.IH mod_mult2_eq)
qed

lemma from_to_be_bytes [simp]: "from_be_bytes (to_be_bytes w) = w"
proof -
  have "unat w mod 256 ^ 32 = unat w"
    using u256_less [of w] by simp
  then show ?thesis by (simp add: from_be_bytes_def to_be_bytes_def be_val_be_bytes)
qed

lemma be_val_bound: "be_val bs < 256 ^ length bs"
proof (induction bs rule: rev_induct)
  case Nil
  then show ?case by simp
next
  case (snoc b bs)
  have "unat b < 256" using unsigned_less [of b] by simp
  with snoc show ?case by simp
qed

lemma be_bytes_be_val: "be_bytes (length bs) (be_val bs) = bs"
proof (induction bs rule: rev_induct)
  case Nil
  then show ?case by simp
next
  case (snoc b bs)
  have b: "unat b < 256" using unsigned_less [of b] by simp
  then have "(be_val bs * 256 + unat b) div 256 = be_val bs" by simp
  moreover have "(of_nat (be_val bs * 256 + unat b) :: byte) = b"
    using b by (simp add: word_unat_eq_iff unat_word_ariths unat_of_nat)
  ultimately show ?case using snoc by simp
qed

lemma to_from_be_bytes: "length bs = 32 \<Longrightarrow> to_be_bytes (from_be_bytes bs) = bs"
  using be_val_bound [of bs] be_bytes_be_val [of bs]
  by (simp add: to_be_bytes_def from_be_bytes_def unat_of_nat)

end
