(* ===== verification/Structs.thy ===== *)
theory Structs
  imports Prelude
begin

text \<open>
  The plain data of \<open>src/src/leviathan/structs.rs\<close>: protocol versions with their order,
  transactions, the accrued substate with its backup and restore, and the execution environment.
  The fields of the third-party block header are those the source reads.
\<close>

section \<open>Protocol versions\<close>

datatype VersionId =
    Frontier | Homestead | TangerineWhistle | SpuriousDragon | Byzantium | Constantinople
  | Petersburg | Istanbul | Berlin | London | Merge | Shanghai | Cancun | Latest

text \<open>\<open>#[derive(PartialOrd, Ord)]\<close> orders an enum by the position of its variants.\<close>

primrec version_index :: "VersionId \<Rightarrow> nat" where
  "version_index Frontier = 0"
| "version_index Homestead = 1"
| "version_index TangerineWhistle = 2"
| "version_index SpuriousDragon = 3"
| "version_index Byzantium = 4"
| "version_index Constantinople = 5"
| "version_index Petersburg = 6"
| "version_index Istanbul = 7"
| "version_index Berlin = 8"
| "version_index London = 9"
| "version_index Merge = 10"
| "version_index Shanghai = 11"
| "version_index Cancun = 12"
| "version_index Latest = 13"

lemma version_index_inject: "version_index v = version_index w \<Longrightarrow> v = w"
  by (cases v; cases w) simp_all

instantiation VersionId :: linorder
begin

definition less_eq_VersionId :: "VersionId \<Rightarrow> VersionId \<Rightarrow> bool" where
  "v \<le> w \<longleftrightarrow> version_index v \<le> version_index w"

definition less_VersionId :: "VersionId \<Rightarrow> VersionId \<Rightarrow> bool" where
  "v < w \<longleftrightarrow> version_index v < version_index w"

instance
  by standard (auto simp: less_eq_VersionId_def less_VersionId_def dest: version_index_inject)

end

lemmas version_order = less_eq_VersionId_def less_VersionId_def

section \<open>Transactions, headers and logs\<close>

datatype tx_kind = TxCreate | TxCall address

record transaction =
  t_nonce :: usize
  t_price :: u256
  t_gas_limit :: u256
  t_to :: tx_kind
  t_value :: u256
  t_data :: "byte list"
  t_w :: u256
  t_r :: u256
  t_s :: u256

record block_header =
  h_beneficiary :: address
  h_timestamp :: u64
  h_number :: u64
  h_mix_hash :: b256
  h_gas_limit :: u64
  h_base_fee_per_gas :: "u64 option"

record evm_log =
  log_address :: address
  log_topics :: "b256 list"
  log_data :: "byte list"

section \<open>Accrued substate\<close>

text \<open>
  Vectors that only grow keep the order of the source's \<open>Vec\<close> (last element pushed last).
  The refund counter is an \<open>i64\<close>, read as an integer; its updates are checked.
\<close>

record substate =
  a_des :: "address list"
  a_log :: "evm_log list"
  a_touch :: "address list"
  a_reimburse :: int
  a_access :: "address list"
  a_access_storage :: "address \<rightharpoonup> (u256 \<rightharpoonup> u256)"

record backup_substate =
  b_des :: usize
  b_log :: usize
  b_touch :: usize
  b_reimburse :: int
  b_access :: usize
  b_access_storage :: "address \<rightharpoonup> (u256 \<rightharpoonup> u256)"

definition substate_new :: substate where
  "substate_new = \<lparr>a_des = [], a_log = [], a_touch = [], a_reimburse = 0, a_access = [],
     a_access_storage = Map.empty\<rparr>"

definition backup_new :: backup_substate where
  "backup_new = \<lparr>b_des = 0, b_log = 0, b_touch = 0, b_reimburse = 0, b_access = 0,
     b_access_storage = Map.empty\<rparr>"

definition backup :: "substate \<Rightarrow> backup_substate" where
  "backup ss = \<lparr>b_des = length (a_des ss), b_log = length (a_log ss),
     b_touch = length (a_touch ss), b_reimburse = a_reimburse ss,
     b_access = length (a_access ss), b_access_storage = a_access_storage ss\<rparr>"

text \<open>\<open>v.drain(n..)\<close>: keeps the first \<open>n\<close> elements, panics when there are fewer.\<close>

definition drain_from :: "'a list \<Rightarrow> usize \<Rightarrow> 'a list res" where
  "drain_from xs n = (if n \<le> length xs then Ret (take n xs) else Panic)"

definition ripemd_addr :: address where "ripemd_addr = 3"

definition road_backup :: "substate \<Rightarrow> backup_substate \<Rightarrow> VersionId \<Rightarrow> substate res" where
  "road_backup ss b v =
     bindR (drain_from (a_des ss) (b_des b)) (\<lambda>des.
     bindR (drain_from (a_log ss) (b_log b)) (\<lambda>logs.
     let has_ripemd_anomaly =
           SpuriousDragon \<le> v \<and> ripemd_addr \<in> set (drop (b_touch b) (a_touch ss)) in
     bindR (drain_from (a_touch ss) (b_touch b)) (\<lambda>touch.
     Ret (ss\<lparr>a_des := des, a_log := logs,
       a_touch := (if has_ripemd_anomaly then touch @ [ripemd_addr] else touch),
       a_reimburse := b_reimburse b, a_access_storage := b_access_storage b\<rparr>))))"

text \<open>\<open>a_reimburse += d\<close> on an \<open>i64\<close>.\<close>

definition add_reimburse :: "substate \<Rightarrow> int \<Rightarrow> substate res" where
  "add_reimburse ss d =
     (let r = a_reimburse ss + d in
      if - (2 ^ 63) \<le> r \<and> r < 2 ^ 63 then Ret (ss\<lparr>a_reimburse := r\<rparr>) else Panic)"

text \<open>\<open>a_access_storage.entry(a).or_default().entry(k).or_insert(v)\<close>.\<close>

definition access_storage_insert :: "address \<Rightarrow> u256 \<Rightarrow> u256 \<Rightarrow> substate \<Rightarrow> substate" where
  "access_storage_insert a k v ss =
     (let m = unwrap_or (a_access_storage ss a) Map.empty in
      ss\<lparr>a_access_storage := (a_access_storage ss)(a \<mapsto>
           (case m k of None \<Rightarrow> m(k \<mapsto> v) | Some _ \<Rightarrow> m))\<rparr>)"

section \<open>Execution environment\<close>

record exec_env =
  i_address :: address
  i_origin :: address
  i_gas_price :: u256
  i_data :: "byte list"
  i_sender :: address
  i_value :: u256
  i_byte :: "byte list"
  i_block_header :: block_header
  i_depth :: usize
  i_permission :: bool

section \<open>Restoring a substate\<close>

text \<open>
  \<open>grown ss ss'\<close>: \<open>ss'\<close> extends the vectors of \<open>ss\<close>, which is how every opcode and every
  successful sub-call changes a substate.  Restoring the backup of \<open>ss\<close> in any such \<open>ss'\<close> gives
  \<open>ss\<close> back, but for the accessed-account list (never restored) and a touched precompile 3.
\<close>

definition grown :: "substate \<Rightarrow> substate \<Rightarrow> bool" where
  "grown ss ss' \<longleftrightarrow>
     take (length (a_des ss)) (a_des ss') = a_des ss \<and> length (a_des ss) \<le> length (a_des ss') \<and>
     take (length (a_log ss)) (a_log ss') = a_log ss \<and> length (a_log ss) \<le> length (a_log ss') \<and>
     take (length (a_touch ss)) (a_touch ss') = a_touch ss \<and>
     length (a_touch ss) \<le> length (a_touch ss') \<and>
     set (a_access ss) \<subseteq> set (a_access ss')"

lemma take_prefix_trans:
  "take (length xs) ys = xs \<Longrightarrow> length xs \<le> length ys \<Longrightarrow> take (length ys) zs = ys \<Longrightarrow>
   take (length xs) zs = xs"
  by (metis min.absorb1 take_take)

lemma grown_refl [simp, intro]: "grown ss ss"
  by (simp add: grown_def)

lemma grown_trans [trans]: "grown s t \<Longrightarrow> grown t u \<Longrightarrow> grown s u"
  unfolding grown_def by (auto intro: take_prefix_trans)

lemma grown_updates [simp, intro]:
  "grown ss (ss\<lparr>a_des := a_des ss @ xs\<rparr>)"
  "grown ss (ss\<lparr>a_log := a_log ss @ ls\<rparr>)"
  "grown ss (ss\<lparr>a_touch := a_touch ss @ xs\<rparr>)"
  "grown ss (ss\<lparr>a_access := a_access ss @ xs\<rparr>)"
  "grown ss (ss\<lparr>a_touch := push_new x (a_touch ss)\<rparr>)"
  "grown ss (ss\<lparr>a_access := push_new x (a_access ss)\<rparr>)"
  "grown ss (ss\<lparr>a_access_storage := m\<rparr>)"
  "grown ss (ss\<lparr>a_reimburse := r\<rparr>)"
  by (auto simp: grown_def push_new_def)

lemma grown_access_storage_insert [simp, intro]: "grown ss (access_storage_insert a k v ss)"
  by (simp add: access_storage_insert_def Let_def grown_def)

lemma grown_add_reimburse: "add_reimburse ss d = Ret ss' \<Longrightarrow> grown ss ss'"
  by (auto simp: add_reimburse_def Let_def grown_def split: if_splits)

lemma road_backup_terminates [simp]: "road_backup ss b v \<noteq> OutOfFuel"
  by (auto simp: road_backup_def drain_from_def Let_def intro!: bindR_terminates)

lemma add_reimburse_terminates [simp]: "add_reimburse ss d \<noteq> OutOfFuel"
  by (simp add: add_reimburse_def Let_def)

lemma road_backup_grown:
  assumes "grown ss ss'"
  shows "road_backup ss' (backup ss) v =
    Ret (ss\<lparr>a_access := a_access ss',
       a_touch := (if SpuriousDragon \<le> v \<and> ripemd_addr \<in> set (drop (length (a_touch ss)) (a_touch ss'))
                   then a_touch ss @ [ripemd_addr] else a_touch ss)\<rparr>)"
  using assms by (simp add: road_backup_def backup_def drain_from_def grown_def)

lemma grown_road_backup:
  assumes "grown ss ss'" "road_backup ss' (backup ss) v = Ret ss''"
  shows "grown ss ss''"
  using assms(2) assms(1) by (auto simp: road_backup_grown [OF assms(1)] grown_def)

end
