(* ===== verification/Rocks_DB.thy ===== *)
theory Rocks_DB
  imports Structs
begin

text \<open>
  The storage wrapper of \<open>src/src/leviathan/db.rs\<close>: a RocksDB handle with a write batch and an
  in-memory overlay that is consulted before the database.  The overlay is keyed by the raw key
  alone, not by column family.

  Third-party code is a parameter of the model: the record \<open>ext\<close> bundles the functions of the
  crates the source calls (hashing, tries, RLP, RocksDB, elliptic curves, RSA, Groth16, Poseidon).
  Nothing is assumed about them here; a theorem that needs one of their documented properties
  states it as a hypothesis.
\<close>

section \<open>Column families and external functions\<close>

datatype cf = CF_MPT | CF_CODE | CF_BLOCK_NUMBER | CF_BLOCK | CF_RECEIPT | CF_TX_LOOKUP

text \<open>A \<open>WriteBatch\<close> is the sequence of its puts; the first element is the oldest.\<close>

type_synonym write_batch = "(cf \<times> byte list \<times> byte list) list"

record 'r rocks_db =
  db_handle :: 'r
  db_batch :: write_batch
  db_overlay :: "byte list \<rightharpoonup> byte list option"
  db_block_number :: "int option"

text \<open>An account as the state trie stores it.\<close>

record mpt_account =
  m_nonce :: u64
  m_balance :: u256
  m_storage_root :: b256
  m_code_hash :: b256

text \<open>
  \<open>'t\<close> is the type of tries (\<open>EthTrie\<close>), \<open>'r\<close> that of RocksDB handles.  An \<open>option\<close> result is a
  Rust \<open>Result\<close> whose error carries no information the source uses: \<open>None\<close> is \<open>Err\<close>.  A trie reads
  its nodes through the database, so its operations take the database as an argument; the root hash
  of a trie comes with the nodes it hands to the database.
\<close>

record ('t, 'r) ext =
  x_keccak256 :: "byte list \<Rightarrow> b256"
  x_get_cf :: "'r \<Rightarrow> cf \<Rightarrow> byte list \<Rightarrow> byte list option option"
  x_write :: "'r \<Rightarrow> write_batch \<Rightarrow> 'r option"
  x_last_key :: "'r \<Rightarrow> cf \<Rightarrow> byte list option"
  x_trie_from :: "'r rocks_db \<Rightarrow> b256 \<Rightarrow> 't option"
  x_trie_get :: "'r rocks_db \<Rightarrow> 't \<Rightarrow> byte list \<Rightarrow> byte list option option"
  x_trie_new :: "'r rocks_db \<Rightarrow> 't"
  x_trie_insert :: "'r rocks_db \<Rightarrow> 't \<Rightarrow> byte list \<Rightarrow> byte list \<Rightarrow> 't option"
  x_trie_remove :: "'r rocks_db \<Rightarrow> 't \<Rightarrow> byte list \<Rightarrow> 't"
  x_trie_root :: "'r rocks_db \<Rightarrow> 't \<Rightarrow> (b256 \<times> 't \<times> (byte list \<times> byte list) list) option"
  x_encode_mpt :: "mpt_account \<Rightarrow> byte list"
  x_decode_mpt :: "byte list \<Rightarrow> mpt_account option"
  x_decode_u256 :: "byte list \<Rightarrow> u256 option"
  x_encode_u256 :: "u256 \<Rightarrow> byte list"
  x_encode_u256_len :: "u256 \<Rightarrow> nat"
  x_rlp_header :: "nat \<Rightarrow> byte list"
  x_rlp_bytes :: "byte list \<Rightarrow> byte list"
  x_rlp_bytes_len :: "byte list \<Rightarrow> nat"
  x_rlp_u64 :: "u64 \<Rightarrow> byte list"
  x_rlp_u64_len :: "u64 \<Rightarrow> nat"
  x_ecdsa_recover :: "byte list \<Rightarrow> byte list \<Rightarrow> nat \<Rightarrow> byte list option"
  x_sha256 :: "byte list \<Rightarrow> byte list"
  x_ripemd160 :: "byte list \<Rightarrow> byte list"
  x_modpow :: "nat \<Rightarrow> nat \<Rightarrow> nat \<Rightarrow> nat"
  x_g1_on_curve :: "nat \<times> nat \<Rightarrow> bool"
  x_g1_add :: "(nat \<times> nat) option \<Rightarrow> (nat \<times> nat) option \<Rightarrow> (nat \<times> nat) option"
  x_g1_mul :: "(nat \<times> nat) option \<Rightarrow> nat \<Rightarrow> (nat \<times> nat) option"
  x_g2_valid :: "(nat \<times> nat) \<times> (nat \<times> nat) \<Rightarrow> bool"
  x_pairing_is_one ::
    "((nat \<times> nat) option \<times> ((nat \<times> nat) \<times> (nat \<times> nat)) option) list \<Rightarrow> bool"
  x_rsa_verify :: "nat \<Rightarrow> nat \<Rightarrow> byte list \<Rightarrow> byte list \<Rightarrow> bool option"
  x_groth16_verify ::
    "byte list \<Rightarrow> (nat \<times> nat) option \<Rightarrow> ((nat \<times> nat) \<times> (nat \<times> nat)) option \<Rightarrow> (nat \<times> nat) option
     \<Rightarrow> byte list list \<Rightarrow> bool option"
  x_poseidon :: "byte list list \<Rightarrow> byte list option option"

section \<open>The wrapper\<close>

text \<open>\<open>RocksDBWrapper::new\<close>, with the handle of the opened database.\<close>

definition rocks_db_new :: "'r \<Rightarrow> 'r rocks_db" where
  "rocks_db_new db = \<lparr>db_handle = db, db_batch = [], db_overlay = Map.empty, db_block_number = None\<rparr>"

definition db_put :: "cf \<Rightarrow> byte list \<Rightarrow> byte list \<Rightarrow> 'r rocks_db \<Rightarrow> 'r rocks_db" where
  "db_put c k v d = d\<lparr>db_batch := db_batch d @ [(c, k, v)],
     db_overlay := (db_overlay d)(k \<mapsto> Some v)\<rparr>"

text \<open>Overlay first, then the column family; a database error reads as absent.\<close>

definition db_lookup :: "('t, 'r) ext \<Rightarrow> cf \<Rightarrow> 'r rocks_db \<Rightarrow> byte list \<Rightarrow> byte list option" where
  "db_lookup X c d k =
     (case db_overlay d k of
        Some cache_result \<Rightarrow> cache_result
      | None \<Rightarrow> unwrap_or (x_get_cf X (db_handle d) c k) None)"

definition insert_code :: "byte list \<Rightarrow> byte list \<Rightarrow> 'r rocks_db \<Rightarrow> 'r rocks_db" where
  "insert_code code_hash code d = db_put CF_CODE code_hash code d"

definition db_get_code :: "('t, 'r) ext \<Rightarrow> 'r rocks_db \<Rightarrow> byte list \<Rightarrow> byte list option" where
  "db_get_code X d code_hash = db_lookup X CF_CODE d code_hash"

definition update_block_number :: "int \<Rightarrow> byte list \<Rightarrow> 'r rocks_db \<Rightarrow> 'r rocks_db res" where
  "update_block_number new_number block_hash d =
     (let d1 = d\<lparr>db_block_number := Some new_number\<rparr> in
      if new_number < 0 then Panic
      else Ret (db_put CF_BLOCK_NUMBER (be_bytes 8 (nat new_number)) block_hash d1))"

definition get_block_number :: "('t, 'r) ext \<Rightarrow> 'r rocks_db \<Rightarrow> int option \<times> 'r rocks_db" where
  "get_block_number X d =
     (case db_block_number d of
        Some n \<Rightarrow> (Some n, d)
      | None \<Rightarrow>
          (case x_last_key X (db_handle d) CF_BLOCK_NUMBER of
             Some key \<Rightarrow>
               (let n = (if length key = 8 then sint (of_nat (be_val key) :: i64) else 0)
                in (Some n, d\<lparr>db_block_number := Some n\<rparr>))
           | None \<Rightarrow> (Some 0, d\<lparr>db_block_number := Some 0\<rparr>)))"

definition get_blockhash_from_index ::
  "('t, 'r) ext \<Rightarrow> 'r rocks_db \<Rightarrow> int \<Rightarrow> byte list option res" where
  "get_blockhash_from_index X d block_number =
     (if block_number < 0 then Panic
      else Ret (db_lookup X CF_BLOCK_NUMBER d (be_bytes 8 (nat block_number))))"

definition insert_receipt :: "byte list \<Rightarrow> byte list \<Rightarrow> 'r rocks_db \<Rightarrow> 'r rocks_db" where
  "insert_receipt receipt_hash receipt_rlp d = db_put CF_RECEIPT receipt_hash receipt_rlp d"

definition get_receipt :: "('t, 'r) ext \<Rightarrow> 'r rocks_db \<Rightarrow> byte list \<Rightarrow> byte list option" where
  "get_receipt X d receipt_hash = db_lookup X CF_RECEIPT d receipt_hash"

definition insert_block :: "byte list \<Rightarrow> byte list \<Rightarrow> 'r rocks_db \<Rightarrow> 'r rocks_db" where
  "insert_block block_hash block_rlp d = db_put CF_BLOCK block_hash block_rlp d"

definition get_block :: "('t, 'r) ext \<Rightarrow> 'r rocks_db \<Rightarrow> byte list \<Rightarrow> byte list option" where
  "get_block X d block_hash = db_lookup X CF_BLOCK d block_hash"

definition insert_txlookup :: "byte list \<Rightarrow> byte list \<Rightarrow> 'r rocks_db \<Rightarrow> 'r rocks_db" where
  "insert_txlookup k v d = db_put CF_TX_LOOKUP k v d"

definition get_txlookup :: "('t, 'r) ext \<Rightarrow> 'r rocks_db \<Rightarrow> byte list \<Rightarrow> byte list option" where
  "get_txlookup X d k = db_lookup X CF_TX_LOOKUP d k"

text \<open>The node store of the tries: the error of the database is passed on.\<close>

definition trie_db_get ::
  "('t, 'r) ext \<Rightarrow> 'r rocks_db \<Rightarrow> byte list \<Rightarrow> byte list option option" where
  "trie_db_get X d k =
     (case db_overlay d k of
        Some cache_result \<Rightarrow> Some cache_result
      | None \<Rightarrow> x_get_cf X (db_handle d) CF_MPT k)"

definition trie_db_insert :: "byte list \<Rightarrow> byte list \<Rightarrow> 'r rocks_db \<Rightarrow> 'r rocks_db" where
  "trie_db_insert k v d = db_put CF_MPT k v d"

definition trie_db_remove :: "byte list \<Rightarrow> 'r rocks_db \<Rightarrow> 'r rocks_db" where
  "trie_db_remove k d = d"

text \<open>\<open>flush\<close> takes the batch, writes it, and clears the overlay only when the write succeeded.\<close>

definition db_flush :: "('t, 'r) ext \<Rightarrow> 'r rocks_db \<Rightarrow> bool \<times> 'r rocks_db" where
  "db_flush X d =
     (let current_batch = db_batch d; d1 = d\<lparr>db_batch := []\<rparr> in
      case x_write X (db_handle d) current_batch of
        Some r \<Rightarrow> (True, d1\<lparr>db_handle := r, db_overlay := Map.empty\<rparr>)
      | None \<Rightarrow> (False, d1))"

section \<open>Tables\<close>

text \<open>The contract of one insert/get pair of the wrapper.\<close>

locale kv_table =
  fixes put :: "byte list \<Rightarrow> byte list \<Rightarrow> 'd \<Rightarrow> 'd"
    and get :: "'d \<Rightarrow> byte list \<Rightarrow> byte list option"
  assumes get_put: "get (put k v d) k' = (if k' = k then Some v else get d k')"
begin

lemma get_put_same: "get (put k v d) k = Some v"
  by (simp add: get_put)

lemma put_put_same: "get (put k v (put k w d)) = get (put k v d)"
  by (rule ext) (simp add: get_put)

lemma put_commute: "k \<noteq> k' \<Longrightarrow> get (put k v (put k' w d)) = get (put k' w (put k v d))"
  by (rule ext) (simp add: get_put)

lemma get_fold_put:
  "get (fold (\<lambda>(k, v). put k v) kvs d) k' =
     (case map_of (rev kvs) k' of Some v \<Rightarrow> Some v | None \<Rightarrow> get d k')"
proof (induction kvs arbitrary: d)
  case Nil
  then show ?case by simp
next
  case (Cons kv kvs)
  then show ?case
    by (cases kv) (auto simp: get_put map_add_def split: option.splits)
qed

end

lemma db_lookup_put:
  "db_lookup X c (db_put c' k v d) k' = (if k' = k then Some v else db_lookup X c d k')"
  by (simp add: db_lookup_def db_put_def split: option.split)

interpretation code_table: kv_table insert_code "db_get_code X" for X
  by unfold_locales (simp add: insert_code_def db_get_code_def db_lookup_put)

interpretation receipt_table: kv_table insert_receipt "get_receipt X" for X
  by unfold_locales (simp add: insert_receipt_def get_receipt_def db_lookup_put)

interpretation block_table: kv_table insert_block "get_block X" for X
  by unfold_locales (simp add: insert_block_def get_block_def db_lookup_put)

interpretation txlookup_table: kv_table insert_txlookup "get_txlookup X" for X
  by unfold_locales (simp add: insert_txlookup_def get_txlookup_def db_lookup_put)

end
