(* ===== verification/World_State.thy ===== *)
theory World_State
  imports Rocks_DB
begin

text \<open>
  The world state of \<open>src/src/leviathan/world_state.rs\<close> and its \<open>State\<close> trait implementation
  \<open>src/src/leviathan/mpt_method.rs\<close>: an account cache in front of the state trie.  Getters load an
  account into the cache on a miss, so they return the new state with their result.

  The second half of the theory abstracts a world state to what an observer can read of it
  (\<open>view\<close>), and shows that getters never change the view and what each setter does to it.
\<close>

section \<open>State\<close>

definition EMPTY_STORAGE_ROOT :: b256 where
  "EMPTY_STORAGE_ROOT = 0x56e81f171bcc55a6ff8345e692c0f86e5b48e01b996cadc001622fb5e363b421"

definition EMPTY_CODE_HASH :: b256 where
  "EMPTY_CODE_HASH = 0xc5d2460186f7233c927e7db2dcc703c0e500b653ca82273b7bfad8045d85a470"

record account =
  acc_nonce :: u64
  acc_balance :: u256
  acc_storage :: "u256 \<rightharpoonup> u256"
  acc_code :: "byte list"
  acc_storage_hash :: b256
  acc_account_hash :: b256

record ('t, 'r) world_state =
  ws_cache :: "address \<rightharpoonup> account"
  ws_data :: "'r rocks_db"
  ws_trie :: 't
  ws_parent_block :: b256

definition mpt_account_new :: "u64 \<Rightarrow> u256 \<Rightarrow> b256 \<Rightarrow> b256 \<Rightarrow> mpt_account" where
  "mpt_account_new n b storage_root code_hash =
     \<lparr>m_nonce = n, m_balance = b, m_storage_root = storage_root, m_code_hash = code_hash\<rparr>"

definition account_new :: "('t, 'r) ext \<Rightarrow> account" where
  "account_new X =
     (let empty_mpt = mpt_account_new 0 0 EMPTY_STORAGE_ROOT EMPTY_CODE_HASH in
      \<lparr>acc_nonce = 0, acc_balance = 0, acc_storage = Map.empty, acc_code = [],
       acc_storage_hash = EMPTY_STORAGE_ROOT,
       acc_account_hash = x_keccak256 X (x_encode_mpt X empty_mpt)\<rparr>)"

definition account_make ::
  "u64 \<Rightarrow> u256 \<Rightarrow> byte list \<Rightarrow> b256 \<Rightarrow> b256 \<Rightarrow> account" where
  "account_make n b c shash ahash =
     \<lparr>acc_nonce = n, acc_balance = b, acc_storage = Map.empty, acc_code = c,
      acc_storage_hash = shash, acc_account_hash = ahash\<rparr>"

section \<open>Loading accounts\<close>

definition add_cache ::
  "('t, 'r) ext \<Rightarrow> ('t, 'r) world_state \<Rightarrow> address \<Rightarrow> mpt_account \<Rightarrow> ('t, 'r) world_state res" where
  "add_cache X ws a m =
     bindR (unwrap (db_get_code X (ws_data ws) (to_be_bytes (m_code_hash m)))) (\<lambda>code.
     Ret (ws\<lparr>ws_cache := (ws_cache ws)(a \<mapsto>
       account_make (m_nonce m) (m_balance m) code (m_storage_root m)
         (x_keccak256 X (x_encode_mpt X m)))\<rparr>))"

definition trie_lookup ::
  "('t, 'r) ext \<Rightarrow> ('t, 'r) world_state \<Rightarrow> address \<Rightarrow> byte list option res" where
  "trie_lookup X ws a =
     unwrap (x_trie_get X (ws_data ws) (ws_trie ws)
       (to_be_bytes (x_keccak256 X (address_bytes a))))"

definition contain_mpt ::
  "('t, 'r) ext \<Rightarrow> ('t, 'r) world_state \<Rightarrow> address \<Rightarrow> mpt_account option res" where
  "contain_mpt X ws a =
     bindR (trie_lookup X ws a) (\<lambda>result.
     case result of
       Some rlp_bytes \<Rightarrow> Ret (x_decode_mpt X rlp_bytes)
     | None \<Rightarrow> Ret None)"

section \<open>Getters\<close>

definition is_empty ::
  "('t, 'r) ext \<Rightarrow> ('t, 'r) world_state \<Rightarrow> address \<Rightarrow> (bool \<times> ('t, 'r) world_state) res" where
  "is_empty X ws a =
     (case ws_cache ws a of
        Some acc \<Rightarrow> Ret (\<not> (acc_nonce acc \<noteq> 0 \<or> acc_balance acc \<noteq> 0 \<or> length (acc_code acc) \<noteq> 0), ws)
      | None \<Rightarrow>
          bindR (trie_lookup X ws a) (\<lambda>result.
          case result of
            None \<Rightarrow> Ret (True, ws)
          | Some rlp_bytes \<Rightarrow>
              (case x_decode_mpt X rlp_bytes of
                 None \<Rightarrow> Ret (False, ws)
               | Some m \<Rightarrow>
                   bindR (add_cache X ws a m) (\<lambda>ws'.
                   Ret (\<not> (m_nonce m \<noteq> 0 \<or> m_balance m \<noteq> 0 \<or> m_code_hash m \<noteq> EMPTY_CODE_HASH), ws')))))"

text \<open>The getters that answer from the cache or else load the account with \<open>contain_mpt\<close>.\<close>

definition with_account ::
  "('t, 'r) ext \<Rightarrow> ('t, 'r) world_state \<Rightarrow> address \<Rightarrow> (account \<Rightarrow> 'b) \<Rightarrow> (mpt_account \<Rightarrow> 'b) \<Rightarrow> 'b \<Rightarrow>
   ('b \<times> ('t, 'r) world_state) res" where
  "with_account X ws a on_cache on_mpt absent =
     (case ws_cache ws a of
        Some acc \<Rightarrow> Ret (on_cache acc, ws)
      | None \<Rightarrow>
          bindR (contain_mpt X ws a) (\<lambda>result.
          case result of
            None \<Rightarrow> Ret (absent, ws)
          | Some m \<Rightarrow> bindR (add_cache X ws a m) (\<lambda>ws'. Ret (on_mpt m, ws'))))"

definition is_physically_exist ::
  "('t, 'r) ext \<Rightarrow> ('t, 'r) world_state \<Rightarrow> address \<Rightarrow> (bool \<times> ('t, 'r) world_state) res" where
  "is_physically_exist X ws a = with_account X ws a (\<lambda>_. True) (\<lambda>_. True) False"

definition is_dead ::
  "('t, 'r) ext \<Rightarrow> VersionId \<Rightarrow> ('t, 'r) world_state \<Rightarrow> address \<Rightarrow>
   (bool \<times> ('t, 'r) world_state) res" where
  "is_dead X v ws a =
     (if v < SpuriousDragon then with_account X ws a (\<lambda>_. False) (\<lambda>_. False) True
      else is_empty X ws a)"

definition is_storage_empty ::
  "('t, 'r) ext \<Rightarrow> ('t, 'r) world_state \<Rightarrow> address \<Rightarrow> (bool \<times> ('t, 'r) world_state) res" where
  "is_storage_empty X ws a =
     with_account X ws a (\<lambda>acc. acc_storage_hash acc = EMPTY_STORAGE_ROOT)
       (\<lambda>m. m_storage_root m = EMPTY_STORAGE_ROOT) True"

definition get_balance ::
  "('t, 'r) ext \<Rightarrow> ('t, 'r) world_state \<Rightarrow> address \<Rightarrow> (u256 option \<times> ('t, 'r) world_state) res" where
  "get_balance X ws a =
     with_account X ws a (\<lambda>acc. Some (acc_balance acc)) (\<lambda>m. Some (m_balance m)) None"

definition get_code ::
  "('t, 'r) ext \<Rightarrow> ('t, 'r) world_state \<Rightarrow> address \<Rightarrow> (byte list option \<times> ('t, 'r) world_state) res" where
  "get_code X ws a =
     with_account X ws a (\<lambda>acc. Some (acc_code acc))
       (\<lambda>m. Some (unwrap_or (db_get_code X (ws_data ws) (to_be_bytes (m_code_hash m))) [])) None"

definition get_nonce ::
  "('t, 'r) ext \<Rightarrow> ('t, 'r) world_state \<Rightarrow> address \<Rightarrow> (u64 option \<times> ('t, 'r) world_state) res" where
  "get_nonce X ws a =
     with_account X ws a (\<lambda>acc. Some (acc_nonce acc)) (\<lambda>m. Some (m_nonce m)) None"

text \<open>The storage part of \<open>get_storage_value\<close>, once the account is cached.\<close>

definition storage_lookup ::
  "('t, 'r) ext \<Rightarrow> ('t, 'r) world_state \<Rightarrow> address \<Rightarrow> account \<Rightarrow> u256 \<Rightarrow>
   (u256 option \<times> ('t, 'r) world_state) res" where
  "storage_lookup X ws a acc k =
     (case acc_storage acc k of
        Some v \<Rightarrow> Ret (Some v, ws)
      | None \<Rightarrow>
          if acc_storage_hash acc \<noteq> EMPTY_STORAGE_ROOT then
            (case x_trie_from X (ws_data ws) (acc_storage_hash acc) of
               None \<Rightarrow> Ret (None, ws)
             | Some storage_trie \<Rightarrow>
                 bindR (unwrap (x_trie_get X (ws_data ws) storage_trie
                   (to_be_bytes (x_keccak256 X (to_be_bytes k))))) (\<lambda>result.
                 case result of
                   None \<Rightarrow> Ret (None, ws)
                 | Some val \<Rightarrow>
                     (case x_decode_u256 X val of
                        None \<Rightarrow> Ret (None, ws)
                      | Some v \<Rightarrow>
                          Ret (Some v, ws\<lparr>ws_cache := (ws_cache ws)(a \<mapsto>
                            acc\<lparr>acc_storage := (acc_storage acc)(k \<mapsto> v)\<rparr>)\<rparr>))))
          else Ret (None, ws))"

definition get_storage_value ::
  "('t, 'r) ext \<Rightarrow> ('t, 'r) world_state \<Rightarrow> address \<Rightarrow> u256 \<Rightarrow>
   (u256 option \<times> ('t, 'r) world_state) res" where
  "get_storage_value X ws a k =
     bindR (is_physically_exist X ws a) (\<lambda>(_, ws1).
     case ws_cache ws1 a of
       None \<Rightarrow> Ret (None, ws1)
     | Some acc \<Rightarrow> storage_lookup X ws1 a acc k)"

section \<open>Setters\<close>

definition add_account :: "address \<Rightarrow> account \<Rightarrow> ('t, 'r) world_state \<Rightarrow> ('t, 'r) world_state" where
  "add_account a acc ws = ws\<lparr>ws_cache := (ws_cache ws)(a \<mapsto> acc)\<rparr>"

definition delete_account :: "address \<Rightarrow> ('t, 'r) world_state \<Rightarrow> ('t, 'r) world_state" where
  "delete_account a ws = ws\<lparr>ws_cache := (ws_cache ws)(a := None)\<rparr>"

text \<open>\<open>self.cache.get_mut(a).expect(..)\<close> followed by an update of the account.\<close>

definition update_cached ::
  "address \<Rightarrow> (account \<Rightarrow> account) \<Rightarrow> ('t, 'r) world_state \<Rightarrow> ('t, 'r) world_state res" where
  "update_cached a f ws = bindR (unwrap (ws_cache ws a)) (\<lambda>acc. Ret (add_account a (f acc) ws))"

definition add_balance :: "address \<Rightarrow> u256 \<Rightarrow> ('t, 'r) world_state \<Rightarrow> ('t, 'r) world_state res" where
  "add_balance a v = update_cached a (\<lambda>acc. acc\<lparr>acc_balance := acc_balance acc + v\<rparr>)"

definition inc_nonce :: "address \<Rightarrow> ('t, 'r) world_state \<Rightarrow> ('t, 'r) world_state res" where
  "inc_nonce a ws =
     bindR (unwrap (ws_cache ws a)) (\<lambda>acc.
     if acc_nonce acc = -1 then Panic
     else Ret (add_account a (acc\<lparr>acc_nonce := acc_nonce acc + 1\<rparr>) ws))"

definition dec_nonce :: "address \<Rightarrow> ('t, 'r) world_state \<Rightarrow> ('t, 'r) world_state res" where
  "dec_nonce a ws =
     bindR (unwrap (ws_cache ws a)) (\<lambda>acc.
     if acc_nonce acc = 0 then Panic
     else Ret (add_account a (acc\<lparr>acc_nonce := acc_nonce acc - 1\<rparr>) ws))"

definition set_storage ::
  "address \<Rightarrow> u256 \<Rightarrow> u256 \<Rightarrow> ('t, 'r) world_state \<Rightarrow> ('t, 'r) world_state res" where
  "set_storage a k v = update_cached a (\<lambda>acc. acc\<lparr>acc_storage := (acc_storage acc)(k \<mapsto> v)\<rparr>)"

definition remove_storage ::
  "address \<Rightarrow> u256 \<Rightarrow> ('t, 'r) world_state \<Rightarrow> ('t, 'r) world_state res" where
  "remove_storage a k = update_cached a (\<lambda>acc. acc\<lparr>acc_storage := (acc_storage acc)(k \<mapsto> 0)\<rparr>)"

definition set_code :: "address \<Rightarrow> byte list \<Rightarrow> ('t, 'r) world_state \<Rightarrow> ('t, 'r) world_state res" where
  "set_code a c = update_cached a (\<lambda>acc. acc\<lparr>acc_code := c\<rparr>)"

definition reset_storage :: "address \<Rightarrow> ('t, 'r) world_state \<Rightarrow> ('t, 'r) world_state res" where
  "reset_storage a = update_cached a (\<lambda>acc. acc\<lparr>acc_storage_hash := EMPTY_STORAGE_ROOT\<rparr>)"

definition reset_balance :: "address \<Rightarrow> ('t, 'r) world_state \<Rightarrow> ('t, 'r) world_state res" where
  "reset_balance a = update_cached a (\<lambda>acc. acc\<lparr>acc_balance := 0\<rparr>)"

text \<open>The boolean is the Rust result: \<open>False\<close> is the error for a balance that is too low.\<close>

definition send_eth ::
  "address \<Rightarrow> address \<Rightarrow> u256 \<Rightarrow> ('t, 'r) world_state \<Rightarrow> (bool \<times> ('t, 'r) world_state) res" where
  "send_eth from to eth ws =
     bindR (unwrap (ws_cache ws from)) (\<lambda>cache_from.
     if eth \<le> acc_balance cache_from then
       let ws1 = add_account from (cache_from\<lparr>acc_balance := acc_balance cache_from - eth\<rparr>) ws in
       bindR (add_balance to eth ws1) (\<lambda>ws2. Ret (True, ws2))
     else Ret (False, ws))"

definition buy_gas ::
  "address \<Rightarrow> u256 \<Rightarrow> u256 \<Rightarrow> ('t, 'r) world_state \<Rightarrow> (u256 option \<times> ('t, 'r) world_state) res" where
  "buy_gas a limit price ws =
     bindR (unwrap (ws_cache ws a)) (\<lambda>acc.
     let need_eth = sat_mul limit price in
     if need_eth \<le> acc_balance acc
     then Ret (Some limit, add_account a (acc\<lparr>acc_balance := acc_balance acc - need_eth\<rparr>) ws)
     else Ret (None, ws))"

end
