(* ===== verification/World_View.thy ===== *)
theory World_View
  imports World_State
begin

text \<open>
  The observable content of a world state.  \<open>view X ws a\<close> is what the getters of \<open>World_State\<close>
  report of account \<open>a\<close>: the cached account if there is one, otherwise the account the state trie
  holds; a storage slot reads through the cache to the account's storage trie.  Getters change the
  cache but not the view; setters act on the view like updates of a finite map.  The theory
  also defines the fact the rollback proofs need of a cache: no storage is left under an account
  that a contract creation could claim (\<open>no_orphan\<close>).
\<close>

section \<open>The view\<close>

record account_view =
  v_nonce :: u64
  v_balance :: u256
  v_code :: "byte list"
  v_storage :: "u256 \<Rightarrow> u256"
  v_storage_root :: b256

definition slot_of_root :: "('t, 'r) ext \<Rightarrow> 'r rocks_db \<Rightarrow> b256 \<Rightarrow> u256 \<Rightarrow> u256" where
  "slot_of_root X d root k =
     (if root = EMPTY_STORAGE_ROOT then 0
      else case x_trie_from X d root of
             None \<Rightarrow> 0
           | Some t \<Rightarrow>
               (case x_trie_get X d t (to_be_bytes (x_keccak256 X (to_be_bytes k))) of
                  Some (Some bs) \<Rightarrow> unwrap_or (x_decode_u256 X bs) 0
                | _ \<Rightarrow> 0))"

definition view_account :: "('t, 'r) ext \<Rightarrow> 'r rocks_db \<Rightarrow> account \<Rightarrow> account_view" where
  "view_account X d acc =
     \<lparr>v_nonce = acc_nonce acc, v_balance = acc_balance acc, v_code = acc_code acc,
      v_storage = (\<lambda>k. unwrap_or (acc_storage acc k) (slot_of_root X d (acc_storage_hash acc) k)),
      v_storage_root = acc_storage_hash acc\<rparr>"

definition mpt_view :: "('t, 'r) ext \<Rightarrow> ('t, 'r) world_state \<Rightarrow> address \<Rightarrow> account_view option" where
  "mpt_view X ws a =
     (case contain_mpt X ws a of
        Ret (Some m) \<Rightarrow>
          map_option (\<lambda>c. view_account X (ws_data ws)
              (account_make (m_nonce m) (m_balance m) c (m_storage_root m) 0))
            (db_get_code X (ws_data ws) (to_be_bytes (m_code_hash m)))
      | _ \<Rightarrow> None)"

definition view :: "('t, 'r) ext \<Rightarrow> ('t, 'r) world_state \<Rightarrow> address \<Rightarrow> account_view option" where
  "view X ws a =
     (case ws_cache ws a of
        Some acc \<Rightarrow> Some (view_account X (ws_data ws) acc)
      | None \<Rightarrow> mpt_view X ws a)"

definition no_orphan :: "('t, 'r) world_state \<Rightarrow> bool" where
  "no_orphan ws \<longleftrightarrow>
     (\<forall>a acc k v. ws_cache ws a = Some acc \<longrightarrow> acc_nonce acc = 0 \<longrightarrow> acc_code acc = [] \<longrightarrow>
        acc_storage_hash acc = EMPTY_STORAGE_ROOT \<longrightarrow> acc_storage acc k = Some v \<longrightarrow> v = 0)"

text \<open>Same backing store, so the tries and code tables read alike.\<close>

definition same_store :: "('t, 'r) world_state \<Rightarrow> ('t, 'r) world_state \<Rightarrow> bool" where
  "same_store ws ws' \<longleftrightarrow> ws_data ws' = ws_data ws \<and> ws_trie ws' = ws_trie ws \<and>
     ws_parent_block ws' = ws_parent_block ws"

text \<open>What a getter may do: load accounts and slots.\<close>

definition reads :: "('t, 'r) ext \<Rightarrow> ('t, 'r) world_state \<Rightarrow> ('t, 'r) world_state \<Rightarrow> bool" where
  "reads X ws ws' \<longleftrightarrow> same_store ws ws' \<and> view X ws' = view X ws \<and>
     dom (ws_cache ws) \<subseteq> dom (ws_cache ws') \<and> (no_orphan ws \<longrightarrow> no_orphan ws')"

lemma same_store_refl [simp, intro]: "same_store ws ws"
  by (simp add: same_store_def)

lemma same_store_trans [trans]: "same_store s t \<Longrightarrow> same_store t u \<Longrightarrow> same_store s u"
  by (simp add: same_store_def)

lemma reads_refl [simp, intro]: "reads X ws ws"
  by (simp add: reads_def)

lemma reads_trans [trans]: "reads X s t \<Longrightarrow> reads X t u \<Longrightarrow> reads X s u"
  unfolding reads_def by (auto intro: same_store_trans)

lemma reads_view: "reads X ws ws' \<Longrightarrow> view X ws' = view X ws"
  and reads_same_store: "reads X ws ws' \<Longrightarrow> same_store ws ws'"
  and reads_no_orphan: "reads X ws ws' \<Longrightarrow> no_orphan ws \<Longrightarrow> no_orphan ws'"
  by (simp_all add: reads_def)

lemma reads_cached: "reads X ws ws' \<Longrightarrow> ws_cache ws a \<noteq> None \<Longrightarrow> ws_cache ws' a \<noteq> None"
  by (auto simp: reads_def dom_def)

lemma contain_mpt_cong: "same_store ws ws' \<Longrightarrow> contain_mpt X ws' a = contain_mpt X ws a"
  by (simp add: contain_mpt_def trie_lookup_def same_store_def)

lemma mpt_view_cong: "same_store ws ws' \<Longrightarrow> mpt_view X ws' a = mpt_view X ws a"
  using contain_mpt_cong [of ws ws' X a]
  by (auto simp: mpt_view_def same_store_def split: res.split option.split)

lemma view_cached: "ws_cache ws a = Some acc \<Longrightarrow> view X ws a = Some (view_account X (ws_data ws) acc)"
  by (simp add: view_def)

lemma view_account_make [simp]:
  "view_account X d (account_make n b c s h) =
     \<lparr>v_nonce = n, v_balance = b, v_code = c, v_storage = slot_of_root X d s, v_storage_root = s\<rparr>"
  by (simp add: view_account_def account_make_def)

lemma view_account_new [simp]:
  "view_account X d (account_new X) =
     \<lparr>v_nonce = 0, v_balance = 0, v_code = [], v_storage = (\<lambda>_. 0), v_storage_root = EMPTY_STORAGE_ROOT\<rparr>"
  by (simp add: view_account_def account_new_def Let_def slot_of_root_def)

section \<open>Setters on the view\<close>

lemma same_store_add_account [simp, intro]: "same_store ws (add_account a acc ws)"
  and same_store_delete_account [simp, intro]: "same_store ws (delete_account a ws)"
  by (simp_all add: same_store_def add_account_def delete_account_def)

lemma view_add_account [simp]:
  "view X (add_account a acc ws) = (view X ws)(a \<mapsto> view_account X (ws_data ws) acc)"
proof
  fix b
  show "view X (add_account a acc ws) b = ((view X ws)(a \<mapsto> view_account X (ws_data ws) acc)) b"
    using mpt_view_cong [OF same_store_add_account, of X a acc ws b]
    by (auto simp: view_def add_account_def split: option.split)
qed

lemma view_delete_account:
  "view X (delete_account a ws) = (view X ws)(a := mpt_view X ws a)"
proof
  fix b
  show "view X (delete_account a ws) b = ((view X ws)(a := mpt_view X ws a)) b"
    using mpt_view_cong [OF same_store_delete_account, of X a ws b]
    by (auto simp: view_def delete_account_def split: option.split)
qed

lemma ws_cache_add_account [simp]: "ws_cache (add_account a acc ws) = (ws_cache ws)(a \<mapsto> acc)"
  and ws_data_add_account [simp]: "ws_data (add_account a acc ws) = ws_data ws"
  and ws_trie_add_account [simp]: "ws_trie (add_account a acc ws) = ws_trie ws"
  by (simp_all add: add_account_def)

lemma view_account_updates [simp]:
  "view_account X d (acc\<lparr>acc_balance := b\<rparr>) = (view_account X d acc)\<lparr>v_balance := b\<rparr>"
  "view_account X d (acc\<lparr>acc_nonce := n\<rparr>) = (view_account X d acc)\<lparr>v_nonce := n\<rparr>"
  "view_account X d (acc\<lparr>acc_code := c\<rparr>) = (view_account X d acc)\<lparr>v_code := c\<rparr>"
  "view_account X d (acc\<lparr>acc_storage := (acc_storage acc)(k \<mapsto> v)\<rparr>) =
     (view_account X d acc)\<lparr>v_storage := (v_storage (view_account X d acc))(k := v)\<rparr>"
  by (auto simp: view_account_def)

lemma view_account_sel [simp]:
  "v_balance (view_account X d acc) = acc_balance acc"
  "v_nonce (view_account X d acc) = acc_nonce acc"
  "v_code (view_account X d acc) = acc_code acc"
  "v_storage_root (view_account X d acc) = acc_storage_hash acc"
  by (simp_all add: view_account_def)

lemma update_cached_eq_Ret [res_simps]:
  "update_cached a f ws = Ret ws' \<longleftrightarrow>
     (\<exists>acc. ws_cache ws a = Some acc \<and> ws' = add_account a (f acc) ws)"
  by (auto simp: update_cached_def res_simps)

section \<open>Getters on the view\<close>

lemma add_cache_reads:
  assumes "ws_cache ws a = None" "contain_mpt X ws a = Ret (Some m)" "add_cache X ws a m = Ret ws'"
  shows "reads X ws ws'"
proof -
  from assms(3) obtain c where c: "db_get_code X (ws_data ws) (to_be_bytes (m_code_hash m)) = Some c"
    and ws': "ws' = add_account a (account_make (m_nonce m) (m_balance m) c (m_storage_root m)
         (x_keccak256 X (x_encode_mpt X m))) ws"
    by (auto simp: add_cache_def add_account_def res_simps)
  have "view X ws a = Some (view_account X (ws_data ws)
       (account_make (m_nonce m) (m_balance m) c (m_storage_root m) (x_keccak256 X (x_encode_mpt X m))))"
    using assms(1,2) c by (simp add: view_def mpt_view_def)
  then have "view X ws' = view X ws"
    unfolding ws' by (auto simp: fun_upd_idem)
  moreover have "no_orphan ws \<longrightarrow> no_orphan ws'"
    unfolding ws' by (auto simp: no_orphan_def account_make_def)
  ultimately show ?thesis
    unfolding reads_def by (auto simp: ws')
qed

lemma add_cache_cached: "add_cache X ws a m = Ret ws' \<Longrightarrow> ws_cache ws' a \<noteq> None"
  by (auto simp: add_cache_def res_simps)

lemma add_cache_view:
  assumes "ws_cache ws a = None" "contain_mpt X ws a = Ret (Some m)" "add_cache X ws a m = Ret ws'"
  obtains c where "db_get_code X (ws_data ws) (to_be_bytes (m_code_hash m)) = Some c"
    and "view X ws a = Some \<lparr>v_nonce = m_nonce m, v_balance = m_balance m, v_code = c,
       v_storage = slot_of_root X (ws_data ws) (m_storage_root m), v_storage_root = m_storage_root m\<rparr>"
  using assms by (auto simp: add_cache_def res_simps view_def mpt_view_def)

lemma with_account_cases:
  assumes "with_account X ws a f g d = Ret (r, ws')"
  obtains
    (cached) acc where "ws_cache ws a = Some acc" "r = f acc" "ws' = ws"
  | (absent) "ws_cache ws a = None" "contain_mpt X ws a = Ret None" "r = d" "ws' = ws"
  | (loaded) m where "ws_cache ws a = None" "contain_mpt X ws a = Ret (Some m)"
      "add_cache X ws a m = Ret ws'" "r = g m"
proof (cases "ws_cache ws a")
  case (Some acc)
  with assms have "r = f acc" "ws' = ws" by (simp_all add: with_account_def)
  with Some show ?thesis by (rule cached)
next
  case None
  with assms obtain x where x: "contain_mpt X ws a = Ret x"
    and y: "(case x of None \<Rightarrow> Ret (d, ws)
             | Some m \<Rightarrow> bindR (add_cache X ws a m) (\<lambda>ws'. Ret (g m, ws'))) = Ret (r, ws')"
    by (auto simp: with_account_def)
  show ?thesis
  proof (cases x)
    case None': None
    with y have "r = d" "ws' = ws" by simp_all
    with None x None' show ?thesis by (intro absent) simp_all
  next
    case (Some m)
    with y have "add_cache X ws a m = Ret ws'" "r = g m" by auto
    with None x Some show ?thesis by (intro loaded) simp_all
  qed
qed

lemma with_account_reads: "with_account X ws a f g d = Ret (r, ws') \<Longrightarrow> reads X ws ws'"
  by (erule with_account_cases) (auto intro: add_cache_reads)

lemma with_account_cached:
  "with_account X ws a f g d = Ret (r, ws') \<Longrightarrow> view X ws a \<noteq> None \<Longrightarrow> ws_cache ws' a \<noteq> None"
  by (erule with_account_cases) (auto simp: view_def mpt_view_def dest: add_cache_cached)

text \<open>A getter reports the view, provided its two branches agree with it.\<close>

lemma with_account_result:
  assumes "with_account X ws a f g d = Ret (r, ws')"
    and "\<And>acc. h (view_account X (ws_data ws) acc) = f acc"
    and "\<And>m c. db_get_code X (ws_data ws) (to_be_bytes (m_code_hash m)) = Some c \<Longrightarrow>
        h \<lparr>v_nonce = m_nonce m, v_balance = m_balance m, v_code = c,
           v_storage = slot_of_root X (ws_data ws) (m_storage_root m),
           v_storage_root = m_storage_root m\<rparr> = g m"
  shows "r = (case view X ws a of None \<Rightarrow> d | Some v \<Rightarrow> h v)"
  using assms(1)
proof (cases rule: with_account_cases)
  case (cached acc)
  then show ?thesis by (simp add: view_cached assms(2))
next
  case absent
  then show ?thesis by (simp add: view_def mpt_view_def)
next
  case (loaded m)
  then obtain c where "db_get_code X (ws_data ws) (to_be_bytes (m_code_hash m)) = Some c"
    and "view X ws a = Some \<lparr>v_nonce = m_nonce m, v_balance = m_balance m, v_code = c,
       v_storage = slot_of_root X (ws_data ws) (m_storage_root m), v_storage_root = m_storage_root m\<rparr>"
    using add_cache_view [OF loaded(1-3)] by blast
  then show ?thesis using loaded by (simp add: assms(3))
qed

lemma get_balance_view:
  "get_balance X ws a = Ret (r, ws') \<Longrightarrow> r = map_option v_balance (view X ws a)"
  unfolding get_balance_def
  by (drule with_account_result [where h = "\<lambda>v. Some (v_balance v)"]) (auto split: option.splits)

lemma get_code_view: "get_code X ws a = Ret (r, ws') \<Longrightarrow> r = map_option v_code (view X ws a)"
  unfolding get_code_def
  by (drule with_account_result [where h = "\<lambda>v. Some (v_code v)"]) (auto split: option.splits)

lemma get_nonce_view: "get_nonce X ws a = Ret (r, ws') \<Longrightarrow> r = map_option v_nonce (view X ws a)"
  unfolding get_nonce_def
  by (drule with_account_result [where h = "\<lambda>v. Some (v_nonce v)"]) (auto split: option.splits)

lemma is_physically_exist_view:
  "is_physically_exist X ws a = Ret (r, ws') \<Longrightarrow> r \<longleftrightarrow> view X ws a \<noteq> None"
  unfolding is_physically_exist_def
  by (drule with_account_result [where h = "\<lambda>v. True"]) (auto split: option.splits)

lemma is_storage_empty_view:
  "is_storage_empty X ws a = Ret (r, ws') \<Longrightarrow>
   r \<longleftrightarrow> (case view X ws a of None \<Rightarrow> True | Some v \<Rightarrow> v_storage_root v = EMPTY_STORAGE_ROOT)"
  unfolding is_storage_empty_def
  by (drule with_account_result [where h = "\<lambda>v. v_storage_root v = EMPTY_STORAGE_ROOT"])
     (auto split: option.splits)

lemma contain_mptI:
  "trie_lookup X ws a = Ret (Some bs) \<Longrightarrow> x_decode_mpt X bs = Some m \<Longrightarrow>
   contain_mpt X ws a = Ret (Some m)"
  by (simp add: contain_mpt_def)

lemma is_empty_reads: "is_empty X ws a = Ret (r, ws') \<Longrightarrow> reads X ws ws'"
  by (auto simp: is_empty_def split: option.splits intro: add_cache_reads [OF _ contain_mptI])

lemma is_dead_reads: "is_dead X v ws a = Ret (r, ws') \<Longrightarrow> reads X ws ws'"
  by (auto simp: is_dead_def split: if_splits intro: with_account_reads is_empty_reads)

lemma storage_lookup_reads:
  assumes "storage_lookup X ws a acc k = Ret (r, ws')" "ws_cache ws a = Some acc"
  shows "reads X ws ws'"
proof -
  consider "ws' = ws" | v where "acc_storage acc k = None" "acc_storage_hash acc \<noteq> EMPTY_STORAGE_ROOT"
      "slot_of_root X (ws_data ws) (acc_storage_hash acc) k = v"
      "ws' = add_account a (acc\<lparr>acc_storage := (acc_storage acc)(k \<mapsto> v)\<rparr>) ws"
    using assms(1)
    by (auto simp: storage_lookup_def slot_of_root_def add_account_def res_simps
        split: option.splits if_splits)
  then show ?thesis
  proof cases
    case 2
    then have "v_storage (view_account X (ws_data ws) acc) k = v"
      by (simp add: view_account_def)
    then have "view X ws' = view X ws"
      using assms(2) 2(4) by (auto simp: view_cached fun_upd_idem)
    moreover have "no_orphan ws \<longrightarrow> no_orphan ws'"
      using 2 by (auto simp: no_orphan_def)
    ultimately show ?thesis using 2(4) by (auto simp: reads_def)
  qed simp
qed

lemma storage_lookup_view:
  "storage_lookup X ws a acc k = Ret (r, ws') \<Longrightarrow>
   unwrap_or r 0 = v_storage (view_account X (ws_data ws) acc) k"
  by (cases "acc_storage acc k"; cases r)
     (auto simp: storage_lookup_def view_account_def slot_of_root_def unwrap_eq_Ret
      split: option.splits if_splits)

lemma get_storage_value_reads:
  assumes "get_storage_value X ws a k = Ret (r, ws')"
  shows "reads X ws ws'"
proof -
  from assms obtain b ws1 where p: "is_physically_exist X ws a = Ret (b, ws1)"
    and q: "(case ws_cache ws1 a of None \<Rightarrow> Ret (None, ws1)
             | Some acc \<Rightarrow> storage_lookup X ws1 a acc k) = Ret (r, ws')"
    by (auto simp: get_storage_value_def res_simps)
  from p have "reads X ws ws1"
    by (auto simp: is_physically_exist_def intro: with_account_reads)
  moreover from q have "reads X ws1 ws'"
    by (auto split: option.splits intro: storage_lookup_reads)
  ultimately show ?thesis by (rule reads_trans)
qed

lemma get_storage_value_view:
  assumes "get_storage_value X ws a k = Ret (r, ws')"
  shows "unwrap_or r 0 = (case view X ws a of None \<Rightarrow> 0 | Some v \<Rightarrow> v_storage v k)"
proof -
  from assms obtain b ws1 where p: "is_physically_exist X ws a = Ret (b, ws1)"
    and q: "(case ws_cache ws1 a of None \<Rightarrow> Ret (None, ws1)
             | Some acc \<Rightarrow> storage_lookup X ws1 a acc k) = Ret (r, ws')"
    by (auto simp: get_storage_value_def res_simps)
  from p have rd: "reads X ws ws1" and c: "view X ws a \<noteq> None \<Longrightarrow> ws_cache ws1 a \<noteq> None"
    by (auto simp: is_physically_exist_def intro: with_account_reads dest: with_account_cached)
  show ?thesis
  proof (cases "ws_cache ws1 a")
    case None
    with q c show ?thesis by (auto split: option.splits)
  next
    case (Some acc)
    then have "view X ws a = Some (view_account X (ws_data ws1) acc)"
      using reads_view [OF rd, symmetric] by (simp add: view_cached)
    moreover from Some q have "storage_lookup X ws1 a acc k = Ret (r, ws')" by simp
    ultimately show ?thesis by (simp add: storage_lookup_view)
  qed
qed

lemma getters_reads:
  "is_physically_exist X ws a = Ret (b, ws') \<Longrightarrow> reads X ws ws'"
  "is_storage_empty X ws a = Ret (b, ws') \<Longrightarrow> reads X ws ws'"
  "get_balance X ws a = Ret (u, ws') \<Longrightarrow> reads X ws ws'"
  "get_code X ws a = Ret (c, ws') \<Longrightarrow> reads X ws ws'"
  "get_nonce X ws a = Ret (n, ws') \<Longrightarrow> reads X ws ws'"
  by (auto simp: is_physically_exist_def is_storage_empty_def get_balance_def get_code_def
      get_nonce_def intro: with_account_reads)

lemmas all_reads = getters_reads is_dead_reads is_empty_reads get_storage_value_reads

section \<open>Termination of the state operations\<close>

named_theorems no_fuel \<open>operations that never report exhausted fuel\<close>

lemma bindR_neq_OutOfFuel [no_fuel]:
  "bindR m f \<noteq> OutOfFuel \<longleftrightarrow> m \<noteq> OutOfFuel \<and> (\<forall>x. m = Ret x \<longrightarrow> f x \<noteq> OutOfFuel)"
  by (cases m) auto

lemma trie_lookup_no_fuel [simp]: "trie_lookup X ws a \<noteq> OutOfFuel"
  by (simp add: trie_lookup_def)

lemma contain_mpt_no_fuel [simp]: "contain_mpt X ws a \<noteq> OutOfFuel"
  by (auto simp: contain_mpt_def no_fuel split: option.splits)

lemma add_cache_no_fuel [simp]: "add_cache X ws a m \<noteq> OutOfFuel"
  by (auto simp: add_cache_def no_fuel)

lemma with_account_no_fuel [simp]: "with_account X ws a f g d \<noteq> OutOfFuel"
  by (auto simp: with_account_def no_fuel split: option.splits)

lemma getters_no_fuel [simp]:
  "is_empty X ws a \<noteq> OutOfFuel"
  "is_dead X v ws a \<noteq> OutOfFuel"
  "is_physically_exist X ws a \<noteq> OutOfFuel"
  "is_storage_empty X ws a \<noteq> OutOfFuel"
  "get_balance X ws a \<noteq> OutOfFuel"
  "get_code X ws a \<noteq> OutOfFuel"
  "get_nonce X ws a \<noteq> OutOfFuel"
  by (auto simp: is_empty_def is_dead_def is_physically_exist_def is_storage_empty_def get_balance_def
      get_code_def get_nonce_def no_fuel split: option.splits)

lemma storage_lookup_no_fuel [simp]: "storage_lookup X ws a acc k \<noteq> OutOfFuel"
  by (auto simp: storage_lookup_def no_fuel split: option.splits)

lemma get_storage_value_no_fuel [simp]: "get_storage_value X ws a k \<noteq> OutOfFuel"
  by (auto simp: get_storage_value_def no_fuel split: option.splits)

lemma setters_no_fuel [simp]:
  "update_cached a f ws \<noteq> OutOfFuel"
  "add_balance a v ws \<noteq> OutOfFuel"
  "inc_nonce a ws \<noteq> OutOfFuel"
  "dec_nonce a ws \<noteq> OutOfFuel"
  "set_storage a k v ws \<noteq> OutOfFuel"
  "remove_storage a k ws \<noteq> OutOfFuel"
  "set_code a c ws \<noteq> OutOfFuel"
  "reset_storage a ws \<noteq> OutOfFuel"
  "reset_balance a ws \<noteq> OutOfFuel"
  "send_eth a b e ws \<noteq> OutOfFuel"
  by (auto simp: update_cached_def add_balance_def inc_nonce_def dec_nonce_def set_storage_def
      remove_storage_def set_code_def reset_storage_def reset_balance_def send_eth_def no_fuel Let_def)

end
