(* ===== verification/Journal.thy ===== *)
theory Journal
  imports World_View
begin

text \<open>
  The journal of \<open>src/src/leviathan/roleback.rs\<close> and the \<open>LEVIATHAN\<close> structure of
  \<open>src/src/leviathan/leviathan.rs\<close>: every change of the world state is recorded as an action, a
  sub-call works on a fresh journal, success appends it to the caller's, failure replays it
  backwards.  The journal is a stack: its head is the action pushed last.
\<close>

section \<open>Actions and journals\<close>

datatype action =
    Sstorage address u256 u256
  | SendEth address address u256
  | AddNonce address
  | StoreCode address "byte list"
  | AccountCreation address
  | ResetStorage address b256
  | ResetBalance address u256

record leviathan =
  lv_journal :: "action list"
  lv_substate_backup :: backup_substate
  lv_version :: VersionId
  lv_return_data :: "byte list"
  lv_eth_call :: "address option"

definition leviathan_new :: "VersionId \<Rightarrow> leviathan" where
  "leviathan_new v = \<lparr>lv_journal = [], lv_substate_backup = backup_new, lv_version = v,
     lv_return_data = [], lv_eth_call = None\<rparr>"

definition merge :: "leviathan \<Rightarrow> leviathan \<Rightarrow> leviathan" where
  "merge lv children = lv\<lparr>lv_journal := lv_journal children @ lv_journal lv\<rparr>"

text \<open>\<open>Action::push\<close> completes the action with the value to restore.\<close>

definition action_push ::
  "('t, 'r) ext \<Rightarrow> action \<Rightarrow> leviathan \<Rightarrow> ('t, 'r) world_state \<Rightarrow>
   (leviathan \<times> ('t, 'r) world_state) res" where
  "action_push X act lv ws =
     bindR
       (case act of
          Sstorage a k _ \<Rightarrow>
            bindR (get_storage_value X ws a k) (\<lambda>(v, ws1). Ret (Sstorage a k (unwrap_or v 0), ws1))
        | SendEth _ _ _ \<Rightarrow> Ret (act, ws)
        | AddNonce _ \<Rightarrow> Ret (act, ws)
        | StoreCode a _ \<Rightarrow>
            bindR (get_code X ws a) (\<lambda>(c, ws1). Ret (StoreCode a (unwrap_or c []), ws1))
        | AccountCreation _ \<Rightarrow> Ret (act, ws)
        | ResetStorage a _ \<Rightarrow>
            bindR (unwrap (ws_cache ws a)) (\<lambda>acc. Ret (ResetStorage a (acc_storage_hash acc), ws))
        | ResetBalance a _ \<Rightarrow>
            bindR (get_balance X ws a) (\<lambda>(b, ws1). Ret (ResetBalance a (unwrap_or b 0), ws1)))
       (\<lambda>(act', ws'). Ret (lv\<lparr>lv_journal := act' # lv_journal lv\<rparr>, ws'))"

text \<open>A call of \<open>send_eth\<close> whose result is ignored, as everywhere in the source.\<close>

definition transfer_eth ::
  "address \<Rightarrow> address \<Rightarrow> u256 \<Rightarrow> ('t, 'r) world_state \<Rightarrow> ('t, 'r) world_state res" where
  "transfer_eth from to eth ws = bindR (send_eth from to eth ws) (\<lambda>(_, ws1). Ret ws1)"

text \<open>The pattern \<open>Action::A(..).push(leviathan, state); state.op(..)\<close>.\<close>

definition journaled ::
  "('t, 'r) ext \<Rightarrow> action \<Rightarrow> (('t, 'r) world_state \<Rightarrow> ('t, 'r) world_state res) \<Rightarrow> leviathan \<Rightarrow>
   ('t, 'r) world_state \<Rightarrow> (leviathan \<times> ('t, 'r) world_state) res" where
  "journaled X act f lv ws =
     bindR (action_push X act lv ws) (\<lambda>(lv1, ws1). bindR (f ws1) (\<lambda>ws2. Ret (lv1, ws2)))"

text \<open>One iteration of the loop of \<open>roleback\<close>.\<close>

definition undo_action :: "action \<Rightarrow> ('t, 'r) world_state \<Rightarrow> ('t, 'r) world_state res" where
  "undo_action act ws =
     (case act of
        Sstorage a k pre_value \<Rightarrow>
          if pre_value \<noteq> 0 then set_storage a k pre_value ws else remove_storage a k ws
      | SendEth from to eth \<Rightarrow> transfer_eth to from eth ws
      | AddNonce a \<Rightarrow> dec_nonce a ws
      | StoreCode a code \<Rightarrow> set_code a code ws
      | AccountCreation a \<Rightarrow> Ret (delete_account a ws)
      | ResetStorage a storage \<Rightarrow>
          update_cached a (\<lambda>acc. acc\<lparr>acc_storage_hash := storage, acc_storage := Map.empty\<rparr>) ws
      | ResetBalance a pre_value \<Rightarrow> add_balance a pre_value ws)"

primrec undo_actions :: "action list \<Rightarrow> ('t, 'r) world_state \<Rightarrow> ('t, 'r) world_state res" where
  "undo_actions [] ws = Ret ws"
| "undo_actions (act # acts) ws = bindR (undo_action act ws) (undo_actions acts)"

definition roleback ::
  "leviathan \<Rightarrow> ('t, 'r) world_state \<Rightarrow> (leviathan \<times> ('t, 'r) world_state) res" where
  "roleback lv ws =
     bindR (undo_actions (lv_journal lv) ws) (\<lambda>ws'. Ret (lv\<lparr>lv_journal := []\<rparr>, ws'))"

lemma undo_actions_append:
  "undo_actions (xs @ ys) ws = bindR (undo_actions xs ws) (undo_actions ys)"
proof (induction xs arbitrary: ws)
  case (Cons a xs)
  show ?case by (cases "undo_action a ws") (simp_all add: Cons.IH)
qed simp

lemma action_push_no_fuel [simp]: "action_push X act lv ws \<noteq> OutOfFuel"
  by (cases act) (auto simp: action_push_def no_fuel)

lemma transfer_eth_no_fuel [simp]: "transfer_eth a b e ws \<noteq> OutOfFuel"
  by (auto simp: transfer_eth_def no_fuel)

lemma journaled_no_fuel: "(\<And>ws. f ws \<noteq> OutOfFuel) \<Longrightarrow> journaled X act f lv ws \<noteq> OutOfFuel"
  by (auto simp: journaled_def no_fuel)

lemma undo_action_no_fuel [simp]: "undo_action act ws \<noteq> OutOfFuel"
  by (cases act) (auto simp: undo_action_def no_fuel)

lemma undo_actions_no_fuel [simp]: "undo_actions acts ws \<noteq> OutOfFuel"
  by (induction acts arbitrary: ws) (auto simp: no_fuel)

lemma roleback_no_fuel [simp]: "roleback lv ws \<noteq> OutOfFuel"
  by (auto simp: roleback_def no_fuel)

end
