(* ===== verification/Machine.thy ===== *)
theory Machine
  imports Journal
begin

text \<open>
  The virtual machine state of \<open>src/src/evm/evm.rs\<close>: the structure \<open>EVM\<close>, its constructor with
  the jump destination analysis, stack access, and the memory growth pattern that the opcode
  handlers of \<open>src/src/evm/execution.rs\<close> share.  The stack is a list whose head is the top.
\<close>

section \<open>The machine\<close>

record evm =
  e_gas :: u256
  e_pc :: usize
  e_memory :: "byte list"
  e_active_words :: usize
  e_stack :: "u256 list"
  e_return_back :: "byte list"
  e_safe_jump :: "byte list"
  e_version :: VersionId
  e_child_gas_mem :: "u256 option"

text \<open>The loop of \<open>EVM::new\<close> that marks the valid jump destinations.\<close>

function jump_scan :: "byte list \<Rightarrow> usize \<Rightarrow> byte list \<Rightarrow> byte list" where
  "jump_scan code pointer safe_jump =
     (if pointer < length code then
        let x = unat (code ! pointer) in
        if x = 0x5b then jump_scan code (pointer + 1) (safe_jump[pointer := 1])
        else if 0x60 \<le> x \<and> x \<le> 0x7f then jump_scan code (pointer + ((x - 0x60) + 2)) safe_jump
        else jump_scan code (pointer + 1) safe_jump
      else safe_jump)"
  by pat_completeness auto
termination
  by (relation "measure (\<lambda>(code, pointer, _). length code - pointer)") (auto simp: Let_def)

declare jump_scan.simps [simp del]

definition evm_new :: "exec_env \<Rightarrow> VersionId \<Rightarrow> evm" where
  "evm_new env v =
     (let code = i_byte env in
      \<lparr>e_gas = 0, e_pc = 0, e_memory = [], e_active_words = 0, e_stack = [], e_return_back = [],
       e_safe_jump = jump_scan code 0 (replicate (length code) 0), e_version = v,
       e_child_gas_mem = None\<rparr>)"

definition peek :: "evm \<Rightarrow> usize \<Rightarrow> u256 res" where
  "peek evm n = (if n < length (e_stack evm) then Ret (e_stack evm ! n) else Panic)"

definition return_gas :: "evm \<Rightarrow> u256 \<times> evm" where
  "return_gas evm = (e_gas evm, evm\<lparr>e_gas := 0\<rparr>)"

definition pop :: "evm \<Rightarrow> (u256 \<times> evm) res" where
  "pop evm = (case e_stack evm of [] \<Rightarrow> Panic | x # xs \<Rightarrow> Ret (x, evm\<lparr>e_stack := xs\<rparr>))"

definition push :: "u256 \<Rightarrow> evm \<Rightarrow> evm" where
  "push v evm = evm\<lparr>e_stack := v # e_stack evm\<rparr>"

text \<open>
  Memory growth before an access that ends at byte \<open>required_size\<close>, and the update of the number
  of active words; \<open>words * 32\<close> and \<open>words.saturating_mul(32)\<close> agree since \<open>words\<close> is a quotient
  by 32.
\<close>

definition grow_memory :: "usize \<Rightarrow> evm \<Rightarrow> evm res" where
  "grow_memory required_size evm =
     (if required_size > length (e_memory evm) then
        let words = usize_sat_add required_size 31 div 32 in
        bindR (vec_resize (e_memory evm) (usize_sat_mul words 32)) (\<lambda>m. Ret (evm\<lparr>e_memory := m\<rparr>))
      else Ret evm)"

definition update_active_words :: "evm \<Rightarrow> evm" where
  "update_active_words evm = evm\<lparr>e_active_words := length (e_memory evm) div 32\<rparr>"

section \<open>Jump destinations\<close>

text \<open>
  Reference definition: the instruction boundaries of a code are position 0 and the position after
  each instruction at a boundary, where \<open>PUSH1\<close> to \<open>PUSH32\<close> carry 1 to 32 bytes of data.
\<close>

definition instr_size :: "byte \<Rightarrow> nat" where
  "instr_size b = (if 0x60 \<le> unat b \<and> unat b \<le> 0x7f then unat b - 0x60 + 2 else 1)"

inductive boundary :: "byte list \<Rightarrow> nat \<Rightarrow> bool" for code where
  start: "boundary code 0"
| step: "boundary code p \<Longrightarrow> p < length code \<Longrightarrow> boundary code (p + instr_size (code ! p))"

definition valid_jumpdest :: "byte list \<Rightarrow> nat \<Rightarrow> bool" where
  "valid_jumpdest code d \<longleftrightarrow> d < length code \<and> code ! d = 0x5b \<and> boundary code d"

lemma instr_size_pos: "0 < instr_size b"
  by (simp add: instr_size_def)

lemma unat_byte_5b: "unat (b :: byte) = 0x5b \<longleftrightarrow> b = 0x5b"
  by (simp add: word_unat_eq_iff)

lemma jump_scan_unfold:
  "jump_scan code p sj =
     (if p < length code
      then jump_scan code (p + instr_size (code ! p)) (if code ! p = 0x5b then sj[p := 1] else sj)
      else sj)"
  by (subst jump_scan.simps) (auto simp: instr_size_def unat_byte_5b Let_def)

text \<open>Boundaries reached from \<open>p\<close>: the positions the scan still visits.\<close>

inductive boundary_from :: "byte list \<Rightarrow> nat \<Rightarrow> nat \<Rightarrow> bool" for code where
  here: "boundary_from code p p"
| there: "p < length code \<Longrightarrow> boundary_from code (p + instr_size (code ! p)) d \<Longrightarrow>
    boundary_from code p d"

inductive_simps boundary_from_iff: "boundary_from code p d"

lemma boundary_from_le: "boundary_from code p d \<Longrightarrow> p \<le> d"
  by (induction rule: boundary_from.induct) auto

lemma boundary_from_trans_boundary: "boundary_from code p d \<Longrightarrow> boundary code p \<Longrightarrow> boundary code d"
  by (induction rule: boundary_from.induct) (auto intro: boundary.step)

lemma boundary_from_snoc:
  "boundary_from code p d \<Longrightarrow> d < length code \<Longrightarrow> boundary_from code p (d + instr_size (code ! d))"
  by (induction rule: boundary_from.induct) (auto intro: boundary_from.intros)

lemma boundary_from_0: "boundary_from code 0 d \<longleftrightarrow> boundary code d"
proof
  show "boundary_from code 0 d \<Longrightarrow> boundary code d"
    by (auto intro: boundary_from_trans_boundary boundary.start)
  show "boundary code d \<Longrightarrow> boundary_from code 0 d"
    by (induction rule: boundary.induct) (auto intro: boundary_from.here boundary_from_snoc)
qed

lemma length_jump_scan [simp]: "length (jump_scan code p sj) = length sj"
proof (induction "length code - p" arbitrary: p sj rule: less_induct)
  case less
  show ?case
    using less.hyps [of "p + instr_size (code ! p)"] instr_size_pos [of "code ! p"]
    by (subst jump_scan_unfold) auto
qed

lemma jump_scan_nth:
  assumes "length sj = length code" "d < length code"
  shows "jump_scan code p sj ! d =
    (if boundary_from code p d \<and> code ! d = 0x5b then 1 else sj ! d)"
  using assms
proof (induction "length code - p" arbitrary: p sj rule: less_induct)
  case less
  show ?case
  proof (cases "p < length code")
    case True
    let ?sj = "if code ! p = 0x5b then sj[p := 1] else sj"
    have len: "length ?sj = length code" using less.prems by simp
    have shorter: "length code - (p + instr_size (code ! p)) < length code - p"
      using True instr_size_pos [of "code ! p"] by simp
    have notb: "\<not> boundary_from code (p + instr_size (code ! p)) p"
      using boundary_from_le [of code "p + instr_size (code ! p)" p] instr_size_pos [of "code ! p"] by auto
    have "jump_scan code p sj ! d = jump_scan code (p + instr_size (code ! p)) ?sj ! d"
      by (subst jump_scan_unfold) (simp add: True)
    also have "\<dots> = (if boundary_from code (p + instr_size (code ! p)) d \<and> code ! d = 0x5b
        then 1 else ?sj ! d)"
      using less.hyps [OF shorter len less.prems(2)] .
    also have "\<dots> = (if boundary_from code p d \<and> code ! d = 0x5b then 1 else sj ! d)"
      using less.prems True notb boundary_from_iff [of code p d] by (auto simp: nth_list_update)
    finally show ?thesis .
  next
    case False
    then have "\<not> boundary_from code p d"
      using boundary_from_le [of code p d] less.prems by auto
    with False show ?thesis by (subst jump_scan_unfold) simp
  qed
qed

text \<open>The test of \<open>is_safe\<close> on \<open>safe_jump\<close> decides the reference definition.\<close>

lemma safe_jump_correct:
  "d < length (e_safe_jump (evm_new env v)) \<and> e_safe_jump (evm_new env v) ! d = 1 \<longleftrightarrow>
   valid_jumpdest (i_byte env) d"
  by (auto simp: evm_new_def Let_def valid_jumpdest_def jump_scan_nth boundary_from_0
      split: if_splits)

section \<open>Stack and memory facts\<close>

lemma pop_eq_Ret [res_simps]:
  "pop evm = Ret (x, evm') \<longleftrightarrow> (\<exists>xs. e_stack evm = x # xs \<and> evm' = evm\<lparr>e_stack := xs\<rparr>)"
  by (auto simp: pop_def split: list.splits)

lemma peek_eq_Ret [res_simps]:
  "peek evm n = Ret x \<longleftrightarrow> n < length (e_stack evm) \<and> x = e_stack evm ! n"
  by (auto simp: peek_def)

lemma push_sel [simp]:
  "e_stack (push v evm) = v # e_stack evm"
  "e_gas (push v evm) = e_gas evm"
  "e_pc (push v evm) = e_pc evm"
  "e_memory (push v evm) = e_memory evm"
  "e_active_words (push v evm) = e_active_words evm"
  "e_return_back (push v evm) = e_return_back evm"
  "e_safe_jump (push v evm) = e_safe_jump evm"
  "e_version (push v evm) = e_version evm"
  "e_child_gas_mem (push v evm) = e_child_gas_mem evm"
  by (simp_all add: push_def)

lemma pop_no_fuel [simp]: "pop evm \<noteq> OutOfFuel"
  by (simp add: pop_def split: list.split)

lemma peek_no_fuel [simp]: "peek evm n \<noteq> OutOfFuel"
  by (simp add: peek_def)

lemma grow_memory_no_fuel [simp]: "grow_memory n evm \<noteq> OutOfFuel"
  by (auto simp: grow_memory_def Let_def no_fuel)

text \<open>The memory is a whole number of words and \<open>active_words\<close> counts them.\<close>

definition mem_inv :: "evm \<Rightarrow> bool" where
  "mem_inv evm \<longleftrightarrow> length (e_memory evm) = 32 * e_active_words evm \<and>
     length (e_memory evm) \<le> isize_max"

text \<open>The number of bytes the memory has once an access ending at byte \<open>n\<close> was made.\<close>

definition rounded :: "nat \<Rightarrow> nat" where
  "rounded n = (n + 31) div 32 * 32"

lemma rounded_ge: "n \<le> rounded n"
  unfolding rounded_def by presburger

lemma rounded_mult [simp]: "rounded (32 * n) = 32 * n"
  by (simp add: rounded_def)

lemma rounded_dvd: "32 * (rounded n div 32) = rounded n"
  by (simp add: rounded_def)

lemma grow_memory_cases:
  assumes "grow_memory n evm = Ret evm'"
  obtains (keep) "n \<le> length (e_memory evm)" "evm' = evm"
  | (grow) "length (e_memory evm) < n" "rounded n \<le> isize_max"
      "evm' = evm\<lparr>e_memory := e_memory evm @ replicate (rounded n - length (e_memory evm)) 0\<rparr>"
proof (cases "n \<le> length (e_memory evm)")
  case True
  with assms have "evm' = evm" by (simp add: grow_memory_def)
  with True show ?thesis by (rule keep)
next
  case False
  let ?n = "usize_sat_mul (usize_sat_add n 31 div 32) 32"
  from False assms have le: "?n \<le> isize_max"
    and evm': "evm' = evm\<lparr>e_memory := take ?n (e_memory evm) @ replicate (?n - length (e_memory evm)) 0\<rparr>"
    by (auto simp: grow_memory_def Let_def res_simps)
  have "?n = rounded n"
  proof (cases "n + 31 \<le> usize_max")
    case True
    then have "(n + 31) div 32 * 32 \<le> usize_max" by (meson div_times_less_eq_dividend le_trans)
    with True show ?thesis by (simp add: usize_sat_add_def usize_sat_mul_def rounded_def)
  next
    case False
    then have "?n = usize_max div 32 * 32"
      by (simp add: usize_sat_add_def usize_sat_mul_def usize_max_def)
    with le show ?thesis by (simp add: usize_max_def isize_max_def)
  qed
  with False le evm' rounded_ge [of n] show ?thesis by (intro grow) simp_all
qed

lemma grow_memory_Ret:
  assumes "rounded n \<le> isize_max"
  shows "grow_memory n evm = Ret (if n \<le> length (e_memory evm) then evm
    else evm\<lparr>e_memory := e_memory evm @ replicate (rounded n - length (e_memory evm)) 0\<rparr>)"
proof (cases "grow_memory n evm")
  case (Ret evm')
  then have "Ret evm' = Ret (if n \<le> length (e_memory evm) then evm
      else evm\<lparr>e_memory := e_memory evm @ replicate (rounded n - length (e_memory evm)) 0\<rparr>)"
    by (cases rule: grow_memory_cases) auto
  with Ret show ?thesis by simp
next
  case Panic
  have "n + 31 \<le> usize_max"
    using assms rounded_ge [of n] by (simp add: isize_max_def usize_max_def)
  moreover from this have "(n + 31) div 32 * 32 \<le> usize_max"
    by (meson div_times_less_eq_dividend le_trans)
  ultimately show ?thesis
    using assms Panic
    by (auto simp: grow_memory_def Let_def vec_resize_def usize_sat_add_def usize_sat_mul_def
        rounded_def split: if_splits)
next
  case OutOfFuel
  then show ?thesis by simp
qed

lemma grow_memory_sel:
  assumes "grow_memory n evm = Ret evm'"
  shows "e_stack evm' = e_stack evm" "e_gas evm' = e_gas evm" "e_pc evm' = e_pc evm"
    "e_return_back evm' = e_return_back evm" "e_version evm' = e_version evm"
    "e_safe_jump evm' = e_safe_jump evm" "e_child_gas_mem evm' = e_child_gas_mem evm"
    "e_active_words evm' = e_active_words evm"
    "n \<le> length (e_memory evm')"
    "length (e_memory evm') = max (length (e_memory evm)) (if n \<le> length (e_memory evm) then 0 else rounded n)"
  using assms rounded_ge [of n] by (auto elim!: grow_memory_cases)

text \<open>After growth the memory is again a whole number of words.\<close>

lemma mem_inv_grow:
  assumes "grow_memory n evm = Ret evm'" "mem_inv evm"
  shows "mem_inv (update_active_words evm')"
  using assms(1)
proof (cases rule: grow_memory_cases)
  case keep
  with assms(2) show ?thesis by (simp add: mem_inv_def update_active_words_def)
next
  case grow
  with rounded_ge [of n] rounded_dvd [of n] show ?thesis
    by (simp add: mem_inv_def update_active_words_def)
qed

end
