(* ===== verification/Gas.thy ===== *)
theory Gas
  imports Machine
begin

text \<open>
  The gas schedule of \<open>src/src/evm/gas.rs\<close>: the table of constant costs, the cost of memory
  growth, and one definition per arm of the function \<open>gas\<close>.  The call arms record the gas of the
  sub-call in \<open>child_gas_mem\<close> and the state-dependent arms load accounts into the cache, so \<open>gas\<close>
  returns the machine and the world state with the cost.
\<close>

section \<open>Constant costs\<close>

definition GAS_TABLE :: "nat \<Rightarrow> nat" where
  "GAS_TABLE opcode =
     (if opcode = 0x00 then 0
      else if opcode = 0x01 then 3
      else if opcode = 0x02 then 5
      else if opcode = 0x03 then 3
      else if opcode = 0x04 then 5
      else if opcode = 0x05 then 5
      else if opcode = 0x06 then 5
      else if opcode = 0x07 then 5
      else if opcode = 0x08 then 8
      else if opcode = 0x09 then 8
      else if opcode = 0x0a then 255
      else if opcode = 0x0b then 5
      else if 0x10 \<le> opcode \<and> opcode \<le> 0x1d then 3
      else if opcode = 0x20 then 255
      else if opcode = 0x30 then 2
      else if opcode = 0x31 then 255
      else if 0x32 \<le> opcode \<and> opcode \<le> 0x34 then 2
      else if opcode = 0x35 then 3
      else if opcode = 0x36 then 2
      else if opcode = 0x37 then 255
      else if opcode = 0x38 then 2
      else if opcode = 0x39 then 255
      else if opcode = 0x3a then 2
      else if opcode = 0x3b then 255
      else if opcode = 0x3c then 255
      else if opcode = 0x3d then 2
      else if opcode = 0x3e then 255
      else if opcode = 0x3f then 255
      else if opcode = 0x40 then 20
      else if 0x41 \<le> opcode \<and> opcode \<le> 0x46 then 2
      else if opcode = 0x47 then 5
      else if opcode = 0x48 then 2
      else if opcode = 0x50 then 2
      else if 0x51 \<le> opcode \<and> opcode \<le> 0x55 then 255
      else if opcode = 0x56 then 8
      else if opcode = 0x57 then 10
      else if 0x58 \<le> opcode \<and> opcode \<le> 0x5a then 2
      else if opcode = 0x5b then 1
      else if opcode = 0x5f then 2
      else if 0x60 \<le> opcode \<and> opcode \<le> 0x9f then 3
      else if 0xa0 \<le> opcode \<and> opcode \<le> 0xa4 then 255
      else if 0xf0 \<le> opcode \<and> opcode \<le> 0xff then 255
      else 0)"

section \<open>Memory growth and account access\<close>

definition extension_cost :: "evm \<Rightarrow> u256 \<Rightarrow> u256 \<Rightarrow> u256" where
  "extension_cost evm offset sz =
     (if sz \<noteq> 0 then
        let required_size = sat_add offset sz;
            post_words = sat_add required_size 31 div 32;
            pre_words = of_nat (e_active_words evm) in
        if post_words > pre_words then
          let pre_cost = pre_words * 3 + (pre_words * pre_words) div 512;
              post_sq = sat_mul post_words post_words;
              post_cost = sat_add (sat_mul post_words 3) (post_sq div 512) in
          sat_sub post_cost pre_cost
        else 0
      else 0)"

definition is_account_access :: "u256 \<Rightarrow> substate \<Rightarrow> u256" where
  "is_account_access data ss = (if from_word data \<in> set (a_access ss) then 100 else 2600)"

text \<open>The number of 32-byte words of a size, as the dynamic costs compute it.\<close>

definition size_words :: "u256 \<Rightarrow> u256" where
  "size_words sz = sat_add sz 31 div 32"

section \<open>Arms without effects\<close>

definition gas_exp :: "evm \<Rightarrow> u256 res" where
  "gas_exp evm =
     bindR (peek evm 1) (\<lambda>exponent.
     let bits = bit_len (unat exponent);
         byte_u256 = of_nat ((bits + 7) div 8) in
     Ret (if e_version evm < SpuriousDragon
          then sat_add (sat_mul byte_u256 10) 10
          else sat_add (sat_mul byte_u256 50) 10))"

definition gas_keccak256 :: "evm \<Rightarrow> u256 res" where
  "gas_keccak256 evm =
     bindR (peek evm 0) (\<lambda>offset. bindR (peek evm 1) (\<lambda>size.
     let ext_cost = extension_cost evm offset size;
         dynamic_cost = sat_mul (size_words size) 6 in
     Ret (sat_add (sat_add ext_cost dynamic_cost) 30)))"

definition gas_balance :: "substate \<Rightarrow> evm \<Rightarrow> u256 res" where
  "gas_balance ss evm =
     (if e_version evm < TangerineWhistle then Ret 20
      else if e_version evm < Istanbul then Ret 400
      else if e_version evm < Berlin then Ret 700
      else bindR (peek evm 0) (\<lambda>data. Ret (is_account_access data ss)))"

definition gas_extcodesize :: "substate \<Rightarrow> evm \<Rightarrow> u256 res" where
  "gas_extcodesize ss evm =
     (if e_version evm < TangerineWhistle then Ret 20
      else if e_version evm < Berlin then Ret 700
      else bindR (peek evm 0) (\<lambda>data. Ret (is_account_access data ss)))"

definition gas_extcodehash :: "substate \<Rightarrow> evm \<Rightarrow> u256 res" where
  "gas_extcodehash ss evm =
     (if e_version evm < Istanbul then Ret 400
      else if e_version evm < Berlin then Ret 700
      else bindR (peek evm 0) (\<lambda>data. Ret (is_account_access data ss)))"

definition gas_copy :: "evm \<Rightarrow> u256 res" where
  "gas_copy evm =
     bindR (peek evm 0) (\<lambda>offset. bindR (peek evm 2) (\<lambda>size.
     let ext_cost = extension_cost evm offset size;
         dynamic_cost = sat_mul (size_words size) 3 in
     Ret (sat_add (sat_add ext_cost dynamic_cost) 3)))"

definition gas_extcodecopy :: "substate \<Rightarrow> evm \<Rightarrow> u256 res" where
  "gas_extcodecopy ss evm =
     bindR (peek evm 0) (\<lambda>addr. bindR (peek evm 1) (\<lambda>offset. bindR (peek evm 3) (\<lambda>size.
     let acc_cost = is_account_access addr ss;
         ext_cost = extension_cost evm offset size;
         dynamic_cost = sat_mul (size_words size) 3 in
     Ret (sat_add (sat_add acc_cost ext_cost) dynamic_cost))))"

definition gas_mload :: "evm \<Rightarrow> u256 res" where
  "gas_mload evm = bindR (peek evm 0) (\<lambda>offset. Ret (sat_add (extension_cost evm offset 32) 3))"

definition gas_mstore8 :: "evm \<Rightarrow> u256 res" where
  "gas_mstore8 evm = bindR (peek evm 0) (\<lambda>offset. Ret (sat_add (extension_cost evm offset 1) 3))"

definition gas_sload :: "substate \<Rightarrow> exec_env \<Rightarrow> evm \<Rightarrow> u256 res" where
  "gas_sload ss env evm =
     bindR (peek evm 0) (\<lambda>key.
     Ret (if e_version evm < TangerineWhistle then 50
          else if e_version evm < Istanbul then 200
          else if e_version evm < Berlin then 800
          else case a_access_storage ss (i_address env) of
                 None \<Rightarrow> 2100
               | Some m \<Rightarrow> if m key \<noteq> None then 100 else 2100))"

definition gas_log :: "nat \<Rightarrow> evm \<Rightarrow> u256 res" where
  "gas_log opcode evm =
     bindR (peek evm 0) (\<lambda>offset. bindR (peek evm 1) (\<lambda>size.
     let ext_cost = extension_cost evm offset size;
         topic_cost = sat_mul (of_nat (opcode - 0xa0)) 375;
         dynamic_cost = sat_mul size 8 in
     Ret (sat_add (sat_add (sat_add ext_cost topic_cost) dynamic_cost) 375)))"

definition gas_create :: "evm \<Rightarrow> u256 res" where
  "gas_create evm =
     bindR (peek evm 1) (\<lambda>offset. bindR (peek evm 2) (\<lambda>size.
     let ext_cost = extension_cost evm offset size;
         dynamic_cost = sat_mul (size_words size) 2 in
     Ret (if e_version evm < Shanghai then sat_add ext_cost 32000
          else sat_add (sat_add dynamic_cost ext_cost) 32000)))"

definition gas_return :: "evm \<Rightarrow> u256 res" where
  "gas_return evm =
     bindR (peek evm 0) (\<lambda>offset. bindR (peek evm 1) (\<lambda>size. Ret (extension_cost evm offset size)))"

definition gas_create2 :: "evm \<Rightarrow> u256 res" where
  "gas_create2 evm =
     bindR (peek evm 1) (\<lambda>offset. bindR (peek evm 2) (\<lambda>size.
     let ext_cost = extension_cost evm offset size;
         words = size_words size;
         dynamic_cost = (if e_version evm < Shanghai then sat_mul words 6 else sat_mul words 8) in
     Ret (sat_add (sat_add dynamic_cost ext_cost) 32000)))"

section \<open>Storage\<close>

text \<open>The cost of \<open>SSTORE\<close> from the current, original and new values of the slot.\<close>

definition sstore_cost :: "VersionId \<Rightarrow> (u256 \<rightharpoonup> u256) option \<Rightarrow> u256 \<Rightarrow> u256 \<Rightarrow> u256 \<Rightarrow> u256" where
  "sstore_cost v key_case key current_value new_value =
     (if v < Istanbul \<and> v \<noteq> Constantinople then
        (if current_value = 0 \<and> new_value \<noteq> 0 then 20000 else 5000)
      else
        let (original_value, called_cost) =
              (case key_case of
                 None \<Rightarrow> (current_value, if Berlin \<le> v then 2100 else 0)
               | Some m \<Rightarrow>
                   (case m key of
                      None \<Rightarrow> (current_value, if Berlin \<le> v then 2100 else 0)
                    | Some val1 \<Rightarrow> (val1, if Berlin \<le> v then 100 else 0)));
            update_cost =
              (if current_value = new_value then (if v = Constantinople then 200 else 100)
               else if current_value = original_value then
                 (if original_value = 0 then 20000
                  else if v = Constantinople then 5000 else 2900)
               else if v = Constantinople then 200 else 100) in
        update_cost + called_cost)"

definition gas_sstore ::
  "('t, 'r) ext \<Rightarrow> substate \<Rightarrow> exec_env \<Rightarrow> evm \<Rightarrow> ('t, 'r) world_state \<Rightarrow>
   (u256 \<times> ('t, 'r) world_state) res" where
  "gas_sstore X ss env evm ws =
     bindR (peek evm 0) (\<lambda>key. bindR (peek evm 1) (\<lambda>new_value.
     bindR (get_storage_value X ws (i_address env) key) (\<lambda>(v, ws1).
     Ret (sstore_cost (e_version evm) (a_access_storage ss (i_address env)) key (unwrap_or v 0)
            new_value, ws1))))"

text \<open>The \<open>access_state_cost\<close> of the source is bound to 0 and never updated.\<close>

definition selfdestruct_create_cost ::
  "('t, 'r) ext \<Rightarrow> VersionId \<Rightarrow> u256 \<Rightarrow> address \<Rightarrow> ('t, 'r) world_state \<Rightarrow>
   (u256 \<times> ('t, 'r) world_state) res" where
  "selfdestruct_create_cost X v balance addr ws =
     (if SpuriousDragon \<le> v \<and> \<not> balance > 0 then Ret (0, ws)
      else
        bindR (is_physically_exist X ws addr) (\<lambda>(ex, ws1). Ret (if \<not> ex then 25000 else 0, ws1)))"

definition gas_selfdestruct ::
  "('t, 'r) ext \<Rightarrow> exec_env \<Rightarrow> evm \<Rightarrow> ('t, 'r) world_state \<Rightarrow>
   (u256 \<times> ('t, 'r) world_state) res" where
  "gas_selfdestruct X env evm ws =
     (if e_version evm < TangerineWhistle then Ret (0, ws)
      else
        bindR (peek evm 0) (\<lambda>data.
        bindR (get_balance X ws (i_address env)) (\<lambda>(b, ws1).
        bindR (selfdestruct_create_cost X (e_version evm) (unwrap_or b 0) (from_word data) ws1)
          (\<lambda>(create_cost, ws2). Ret (create_cost + 5000, ws2)))))"

section \<open>Calls\<close>

text \<open>The end of the larger of the argument and return ranges, and the cost of reaching it.\<close>

definition call_memory_end :: "u256 \<Rightarrow> u256 \<Rightarrow> u256 \<Rightarrow> u256 \<Rightarrow> u256" where
  "call_memory_end args_offset args_size ret_offset ret_size =
     (let args_end = (if args_size = 0 then 0 else sat_add args_offset args_size);
          ret_end = (if ret_size = 0 then 0 else sat_add ret_offset ret_size) in
      max args_end ret_end)"

definition call_access_cost :: "VersionId \<Rightarrow> u256 \<Rightarrow> substate \<Rightarrow> u256" where
  "call_access_cost v addr ss =
     (if v < TangerineWhistle then 40
      else if v < Berlin then 700
      else is_account_access addr ss)"

text \<open>The gas of the sub-call: the requested amount, from EIP-150 on at most all but one 64th.\<close>

definition child_gas :: "VersionId \<Rightarrow> u256 \<Rightarrow> u256 \<Rightarrow> u256 \<Rightarrow> u256" where
  "child_gas v remaining base_cost child_gas_limit =
     (if v < TangerineWhistle then child_gas_limit
      else
        let gr0 = sat_sub remaining base_cost;
            gr = gr0 - gr0 div 64 in
        if gr > child_gas_limit then child_gas_limit else gr)"

definition charge_call :: "evm \<Rightarrow> u256 \<Rightarrow> u256 \<Rightarrow> u256 \<times> evm" where
  "charge_call evm base_cost child_gas_limit =
     (let result = child_gas (e_version evm) (e_gas evm) base_cost child_gas_limit in
      (sat_add result base_cost, evm\<lparr>e_child_gas_mem := Some result\<rparr>))"

text \<open>The costs of a value transfer and of creating the recipient.\<close>

definition call_create_cost ::
  "('t, 'r) ext \<Rightarrow> VersionId \<Rightarrow> u256 \<Rightarrow> address \<Rightarrow> ('t, 'r) world_state \<Rightarrow>
   (u256 \<times> ('t, 'r) world_state) res" where
  "call_create_cost X v value addr ws =
     (let c1 = (if value \<noteq> 0 then sat_add 0 9000 else 0) in
      if v < SpuriousDragon \<or> value \<noteq> 0 then
        bindR (is_dead X v ws addr) (\<lambda>(dead, ws1). Ret (if dead then sat_add c1 25000 else c1, ws1))
      else Ret (c1, ws))"

definition gas_call ::
  "('t, 'r) ext \<Rightarrow> substate \<Rightarrow> evm \<Rightarrow> ('t, 'r) world_state \<Rightarrow>
   (u256 \<times> evm \<times> ('t, 'r) world_state) res" where
  "gas_call X ss evm ws =
     bindR (peek evm 0) (\<lambda>child_gas_limit. bindR (peek evm 1) (\<lambda>addr. bindR (peek evm 2) (\<lambda>value.
     bindR (peek evm 3) (\<lambda>args_offset. bindR (peek evm 4) (\<lambda>args_size.
     bindR (peek evm 5) (\<lambda>ret_offset. bindR (peek evm 6) (\<lambda>ret_size.
     let ext_cost = extension_cost evm 0 (call_memory_end args_offset args_size ret_offset ret_size);
         acc_cost = call_access_cost (e_version evm) addr ss in
     bindR (call_create_cost X (e_version evm) value (from_word addr) ws) (\<lambda>(create_cost, ws1).
     let base_cost = sat_add (sat_add ext_cost acc_cost) create_cost;
         (cost, evm1) = charge_call evm base_cost child_gas_limit in
     Ret (cost, evm1, ws1)))))))))"

definition gas_callcode :: "substate \<Rightarrow> evm \<Rightarrow> (u256 \<times> evm) res" where
  "gas_callcode ss evm =
     bindR (peek evm 0) (\<lambda>child_gas_limit. bindR (peek evm 1) (\<lambda>addr. bindR (peek evm 2) (\<lambda>value.
     bindR (peek evm 3) (\<lambda>args_offset. bindR (peek evm 4) (\<lambda>args_size.
     bindR (peek evm 5) (\<lambda>ret_offset. bindR (peek evm 6) (\<lambda>ret_size.
     let ext_cost = extension_cost evm 0 (call_memory_end args_offset args_size ret_offset ret_size);
         acc_cost = call_access_cost (e_version evm) addr ss;
         create_cost = (if value \<noteq> 0 then sat_add 0 9000 else 0);
         base_cost = sat_add (sat_add ext_cost acc_cost) create_cost in
     Ret (charge_call evm base_cost child_gas_limit))))))))"

definition gas_delegatecall :: "substate \<Rightarrow> evm \<Rightarrow> (u256 \<times> evm) res" where
  "gas_delegatecall ss evm =
     bindR (peek evm 0) (\<lambda>child_gas_limit. bindR (peek evm 1) (\<lambda>addr.
     bindR (peek evm 2) (\<lambda>args_offset. bindR (peek evm 3) (\<lambda>args_size.
     bindR (peek evm 4) (\<lambda>ret_offset. bindR (peek evm 5) (\<lambda>ret_size.
     let ext_cost = extension_cost evm 0 (call_memory_end args_offset args_size ret_offset ret_size);
         acc_cost = call_access_cost (e_version evm) addr ss;
         base_cost = sat_add ext_cost acc_cost in
     Ret (charge_call evm base_cost child_gas_limit)))))))"

section \<open>The whole function\<close>

text \<open>The arms that only read the stack, the substate and the environment.\<close>

definition gas_simple :: "nat \<Rightarrow> substate \<Rightarrow> exec_env \<Rightarrow> evm \<Rightarrow> u256 res" where
  "gas_simple opcode ss env evm =
     (if opcode = 0x0a then gas_exp evm
      else if opcode = 0x20 then gas_keccak256 evm
      else if opcode = 0x31 then gas_balance ss evm
      else if opcode = 0x3b then gas_extcodesize ss evm
      else if opcode = 0x3f then gas_extcodehash ss evm
      else if opcode = 0x37 \<or> opcode = 0x39 \<or> opcode = 0x3e then gas_copy evm
      else if opcode = 0x3c then gas_extcodecopy ss evm
      else if opcode = 0x51 \<or> opcode = 0x52 then gas_mload evm
      else if opcode = 0x53 then gas_mstore8 evm
      else if opcode = 0x54 then gas_sload ss env evm
      else if 0xa0 \<le> opcode \<and> opcode \<le> 0xa4 then gas_log opcode evm
      else if opcode = 0xf0 then gas_create evm
      else if opcode = 0xf3 \<or> opcode = 0xfd then gas_return evm
      else if opcode = 0xf5 then gas_create2 evm
      else Ret 0)"

definition gas ::
  "('t, 'r) ext \<Rightarrow> nat \<Rightarrow> substate \<Rightarrow> exec_env \<Rightarrow> evm \<Rightarrow> ('t, 'r) world_state \<Rightarrow>
   (u256 \<times> evm \<times> ('t, 'r) world_state) res" where
  "gas X opcode ss env evm ws =
     (let used_gas = GAS_TABLE opcode in
      if used_gas \<noteq> 255 then Ret (of_nat used_gas, evm, ws)
      else if opcode = 0x55 then
        bindR (gas_sstore X ss env evm ws) (\<lambda>(c, ws1). Ret (c, evm, ws1))
      else if opcode = 0xf1 then gas_call X ss evm ws
      else if opcode = 0xf2 then bindR (gas_callcode ss evm) (\<lambda>(c, evm1). Ret (c, evm1, ws))
      else if opcode = 0xf4 \<or> opcode = 0xfa then
        bindR (gas_delegatecall ss evm) (\<lambda>(c, evm1). Ret (c, evm1, ws))
      else if opcode = 0xff then
        bindR (gas_selfdestruct X env evm ws) (\<lambda>(c, ws1). Ret (c, evm, ws1))
      else bindR (gas_simple opcode ss env evm) (\<lambda>c. Ret (c, evm, ws)))"

end
