(* ===== verification/Safe.thy ===== *)
theory Safe
  imports Gas
begin

text \<open>
  The validity check of \<open>src/src/evm/safe.rs\<close>: the table of stack effects, the fork gates, and the
  function \<open>is_safe\<close> that decides before each instruction whether it may run.
\<close>

section \<open>Stack effects\<close>

text \<open>Number of elements popped and pushed; 255 marks an invalid opcode.\<close>

definition SAFE_TABLE :: "nat \<Rightarrow> nat \<times> nat" where
  "SAFE_TABLE opcode =
     (if opcode = 0x00 then (0, 0)
      else if 0x01 \<le> opcode \<and> opcode \<le> 0x07 then (2, 1)
      else if opcode = 0x08 then (3, 1)
      else if opcode = 0x09 then (3, 1)
      else if opcode = 0x0a then (2, 1)
      else if opcode = 0x0b then (2, 1)
      else if 0x10 \<le> opcode \<and> opcode \<le> 0x14 then (2, 1)
      else if opcode = 0x15 then (1, 1)
      else if 0x16 \<le> opcode \<and> opcode \<le> 0x18 then (2, 1)
      else if opcode = 0x19 then (1, 1)
      else if 0x1a \<le> opcode \<and> opcode \<le> 0x1d then (2, 1)
      else if opcode = 0x20 then (2, 1)
      else if opcode = 0x30 then (0, 1)
      else if opcode = 0x31 then (1, 1)
      else if 0x32 \<le> opcode \<and> opcode \<le> 0x34 then (0, 1)
      else if opcode = 0x35 then (1, 1)
      else if opcode = 0x36 then (0, 1)
      else if opcode = 0x37 then (3, 0)
      else if opcode = 0x38 then (0, 1)
      else if opcode = 0x39 then (3, 0)
      else if opcode = 0x3a then (0, 1)
      else if opcode = 0x3b then (1, 1)
      else if opcode = 0x3c then (4, 0)
      else if opcode = 0x3d then (0, 1)
      else if opcode = 0x3e then (3, 0)
      else if opcode = 0x3f then (1, 1)
      else if opcode = 0x40 then (1, 1)
      else if 0x41 \<le> opcode \<and> opcode \<le> 0x48 then (0, 1)
      else if opcode = 0x50 then (1, 0)
      else if opcode = 0x51 then (1, 1)
      else if opcode = 0x52 then (2, 0)
      else if opcode = 0x53 then (2, 0)
      else if opcode = 0x54 then (1, 1)
      else if opcode = 0x55 then (2, 0)
      else if opcode = 0x56 then (1, 0)
      else if opcode = 0x57 then (2, 0)
      else if 0x58 \<le> opcode \<and> opcode \<le> 0x5a then (0, 1)
      else if opcode = 0x5b then (0, 0)
      else if 0x5f \<le> opcode \<and> opcode \<le> 0x7f then (0, 1)
      else if 0x80 \<le> opcode \<and> opcode \<le> 0x8f then (opcode - 0x80 + 1, opcode - 0x80 + 2)
      else if 0x90 \<le> opcode \<and> opcode \<le> 0x9f then (opcode - 0x90 + 2, opcode - 0x90 + 2)
      else if 0xa0 \<le> opcode \<and> opcode \<le> 0xa4 then (opcode - 0xa0 + 2, 0)
      else if opcode = 0xf0 then (3, 1)
      else if opcode = 0xf1 then (7, 1)
      else if opcode = 0xf2 then (7, 1)
      else if opcode = 0xf3 then (2, 0)
      else if opcode = 0xf4 then (6, 1)
      else if opcode = 0xf5 then (4, 1)
      else if opcode = 0xfa then (6, 1)
      else if opcode = 0xfd then (2, 0)
      else if opcode = 0xff then (1, 0)
      else (255, 255))"

section \<open>The check\<close>

text \<open>Opcodes a version does not have yet.\<close>

definition fork_disabled :: "VersionId \<Rightarrow> nat \<Rightarrow> bool" where
  "fork_disabled v opcode \<longleftrightarrow>
     (v < Homestead \<and> opcode = 0xf4) \<or>
     (v < Byzantium \<and> opcode = 0xfd) \<or>
     (v < Byzantium \<and> opcode = 0xfa) \<or>
     (v < Byzantium \<and> opcode = 0x3d) \<or>
     (v < Byzantium \<and> opcode = 0x3e) \<or>
     (v < Constantinople \<and> opcode = 0xf5) \<or>
     (v < Constantinople \<and> opcode = 0x1b) \<or>
     (v < Constantinople \<and> opcode = 0x1c) \<or>
     (v < Constantinople \<and> opcode = 0x1d) \<or>
     (v < Constantinople \<and> opcode = 0x3f) \<or>
     (v < Istanbul \<and> opcode = 0x46) \<or>
     (v < Istanbul \<and> opcode = 0x47) \<or>
     (v < London \<and> opcode = 0x48) \<or>
     (v < London \<and> opcode = 0x5f)"

definition jump_target_ok :: "evm \<Rightarrow> u256 \<Rightarrow> bool" where
  "jump_target_ok evm target =
     (let destination = to_usize target in
      destination < length (e_safe_jump evm) \<and> e_safe_jump evm ! destination = 1)"

text \<open>The checks after the gas comparisons, in the order of the source.\<close>

definition is_safe_jump :: "nat \<Rightarrow> evm \<Rightarrow> bool res" where
  "is_safe_jump opcode evm =
     (if opcode = 0x56 then bindR (peek evm 0) (\<lambda>target. Ret (jump_target_ok evm target))
      else if opcode = 0x57 then
        bindR (peek evm 1) (\<lambda>flag.
        if to_usize flag \<noteq> 0 then bindR (peek evm 0) (\<lambda>target. Ret (jump_target_ok evm target))
        else Ret True)
      else Ret True)"

definition is_safe_returndata :: "nat \<Rightarrow> evm \<Rightarrow> bool res" where
  "is_safe_returndata opcode evm =
     (if opcode = 0x3e then
        bindR (peek evm 1) (\<lambda>offset. bindR (peek evm 2) (\<lambda>size.
        Ret (sat_add offset size \<le> of_nat (length (e_return_back evm)))))
      else Ret True)"

definition is_safe_static :: "nat \<Rightarrow> exec_env \<Rightarrow> evm \<Rightarrow> bool res" where
  "is_safe_static opcode env evm =
     (if \<not> i_permission env then
        if opcode = 0x55 \<or> opcode = 0xf0 \<or> opcode = 0xf5 \<or> opcode = 0xff \<or> opcode = 0xa0 \<or>
           opcode = 0xa1 \<or> opcode = 0xa2 \<or> opcode = 0xa3 \<or> opcode = 0xa4
        then Ret False
        else if opcode = 0xf1 then bindR (peek evm 2) (\<lambda>value. Ret (value = 0))
        else Ret True
      else Ret True)"

definition is_safe ::
  "('t, 'r) ext \<Rightarrow> nat \<Rightarrow> substate \<Rightarrow> exec_env \<Rightarrow> evm \<Rightarrow> ('t, 'r) world_state \<Rightarrow>
   (bool \<times> evm \<times> ('t, 'r) world_state) res" where
  "is_safe X opcode ss env evm ws =
     (let op_info = SAFE_TABLE opcode in
      if fst op_info = 255 then Ret (False, evm, ws)
      else if fork_disabled (e_version evm) opcode then Ret (False, evm, ws)
      else if length (e_stack evm) < fst op_info then Ret (False, evm, ws)
      else if length (e_stack evm) + snd op_info - fst op_info > 1024 then Ret (False, evm, ws)
      else
        bindR (gas X opcode ss env evm ws) (\<lambda>(gas_cost, evm1, ws1).
        if e_gas evm1 < gas_cost then Ret (False, evm1, ws1)
        else
        bindR (gas X opcode ss env evm1 ws1) (\<lambda>(gas_cost', evm2, ws2).
        if e_gas evm2 < gas_cost' then Ret (False, evm2, ws2)
        else
        bindR (is_safe_jump opcode evm2) (\<lambda>jump_ok.
        if \<not> jump_ok then Ret (False, evm2, ws2)
        else if Istanbul \<le> e_version evm2 \<and> opcode = 0x55 \<and> e_gas evm2 \<le> 2300
        then Ret (False, evm2, ws2)
        else
        bindR (is_safe_returndata opcode evm2) (\<lambda>data_ok.
        if \<not> data_ok then Ret (False, evm2, ws2)
        else
        bindR (is_safe_static opcode env evm2) (\<lambda>static_ok. Ret (static_ok, evm2, ws2)))))))"

end
