(* ===== verification/Opcodes.thy ===== *)
theory Opcodes
  imports Safe "HOL-Library.Signed_Division"
begin

text \<open>
  The opcode handlers of \<open>src/src/evm/execution.rs\<close> that make no sub-call, one definition per
  handler: arithmetic, comparison and bit operations, hashing, environment and block information,
  memory, storage, push, log, return and self-destruct.  A handler takes and returns the parts of
  the state it uses.
\<close>

section \<open>Stack combinators\<close>

definition unop :: "(u256 \<Rightarrow> u256) \<Rightarrow> evm \<Rightarrow> evm res" where
  "unop f evm = bindR (pop evm) (\<lambda>(val1, evm1). Ret (push (f val1) evm1))"

definition binop :: "(u256 \<Rightarrow> u256 \<Rightarrow> u256) \<Rightarrow> evm \<Rightarrow> evm res" where
  "binop f evm =
     bindR (pop evm) (\<lambda>(val1, evm1). bindR (pop evm1) (\<lambda>(val2, evm2). Ret (push (f val1 val2) evm2)))"

definition ternop :: "(u256 \<Rightarrow> u256 \<Rightarrow> u256 \<Rightarrow> u256) \<Rightarrow> evm \<Rightarrow> evm res" where
  "ternop f evm =
     bindR (pop evm) (\<lambda>(val1, evm1). bindR (pop evm1) (\<lambda>(val2, evm2). bindR (pop evm2) (\<lambda>(val3, evm3).
     Ret (push (f val1 val2 val3) evm3))))"

section \<open>Arithmetic\<close>

definition i256_min :: u256 where "i256_min = push_bit 255 1"

definition op_div :: "u256 \<Rightarrow> u256 \<Rightarrow> u256" where
  "op_div val1 val2 = (if val2 = 0 then 0 else val1 div val2)"

text \<open>\<open>I256::wrapping_div\<close> and \<open>wrapping_rem\<close> truncate towards zero.\<close>

definition op_sdiv :: "u256 \<Rightarrow> u256 \<Rightarrow> u256" where
  "op_sdiv val1 val2 =
     (if val2 = 0 then 0
      else if val1 = i256_min \<and> val2 = -1 then i256_min
      else word_of_int (sint val1 sdiv sint val2))"

definition op_mod :: "u256 \<Rightarrow> u256 \<Rightarrow> u256" where
  "op_mod val1 val2 = (if val2 = 0 then 0 else val1 mod val2)"

definition op_smod :: "u256 \<Rightarrow> u256 \<Rightarrow> u256" where
  "op_smod val1 val2 = (if val2 = 0 then 0 else word_of_int (sint val1 smod sint val2))"

text \<open>
  The \<open>U256\<close> methods \<open>add_mod\<close>, \<open>mul_mod\<close> and \<open>wrapping_pow\<close> by what their crate documents: the first two do
  not wrap and return 0 for modulus 0.  The source contributes the operand order.
\<close>

definition op_addmod :: "u256 \<Rightarrow> u256 \<Rightarrow> u256 \<Rightarrow> u256" where
  "op_addmod val1 rhs modulus =
     (if modulus = 0 then 0 else of_nat ((unat val1 + unat rhs) mod unat modulus))"

definition op_mulmod :: "u256 \<Rightarrow> u256 \<Rightarrow> u256 \<Rightarrow> u256" where
  "op_mulmod val1 rhs modulus =
     (if modulus = 0 then 0 else of_nat ((unat val1 * unat rhs) mod unat modulus))"

definition op_exp :: "u256 \<Rightarrow> u256 \<Rightarrow> u256" where
  "op_exp val1 val2 = val1 ^ unat val2"

definition op_signextend :: "u256 \<Rightarrow> u256 \<Rightarrow> u256" where
  "op_signextend b x =
     (if b \<ge> 31 then x
      else
        let b_usize = unat b;
            sign_bit_index = b_usize * 8 + 7;
            shift_amount = (b_usize + 1) * 8;
            mask = push_bit shift_amount (-1) in
        if bit x sign_bit_index then x OR mask else x AND NOT mask)"

definition arithmetic_opcodes :: "nat \<Rightarrow> evm \<Rightarrow> evm res" where
  "arithmetic_opcodes opcode evm =
     (if opcode = 0x01 then binop (\<lambda>val1 val2. val1 + val2) evm
      else if opcode = 0x02 then binop (\<lambda>val1 val2. val1 * val2) evm
      else if opcode = 0x03 then binop (\<lambda>val1 val2. val1 - val2) evm
      else if opcode = 0x04 then binop op_div evm
      else if opcode = 0x05 then binop op_sdiv evm
      else if opcode = 0x06 then binop op_mod evm
      else if opcode = 0x07 then binop op_smod evm
      else if opcode = 0x08 then ternop op_addmod evm
      else if opcode = 0x09 then ternop op_mulmod evm
      else if opcode = 0x0a then binop op_exp evm
      else if opcode = 0x0b then binop op_signextend evm
      else Panic)"

section \<open>Comparison and bits\<close>

definition flag :: "bool \<Rightarrow> u256" where
  "flag b = (if b then 1 else 0)"

definition op_byte :: "u256 \<Rightarrow> u256 \<Rightarrow> u256" where
  "op_byte val1 val2 = (if val1 \<ge> 32 then 0 else of_nat (unat (to_be_bytes val2 ! unat val1)))"

definition op_shl :: "u256 \<Rightarrow> u256 \<Rightarrow> u256" where
  "op_shl val1 val2 = (if to_usize val1 \<ge> 256 then 0 else push_bit (to_usize val1) val2)"

definition op_shr :: "u256 \<Rightarrow> u256 \<Rightarrow> u256" where
  "op_shr val1 val2 = (if to_usize val1 \<ge> 256 then 0 else drop_bit (to_usize val1) val2)"

definition op_sar :: "u256 \<Rightarrow> u256 \<Rightarrow> u256" where
  "op_sar val1 val2 =
     (if to_usize val1 \<ge> 256 then (if sint val2 \<ge> 0 then 0 else -1)
      else signed_drop_bit (to_usize val1) val2)"

definition comparison_bitwise_opcodes :: "nat \<Rightarrow> evm \<Rightarrow> evm res" where
  "comparison_bitwise_opcodes opcode evm =
     (if opcode = 0x10 then binop (\<lambda>val1 val2. flag (val1 < val2)) evm
      else if opcode = 0x11 then binop (\<lambda>val1 val2. flag (val1 > val2)) evm
      else if opcode = 0x12 then binop (\<lambda>val1 val2. flag (sint val1 < sint val2)) evm
      else if opcode = 0x13 then binop (\<lambda>val1 val2. flag (sint val1 > sint val2)) evm
      else if opcode = 0x14 then binop (\<lambda>val1 val2. flag (val1 = val2)) evm
      else if opcode = 0x15 then unop (\<lambda>val1. flag (val1 = 0)) evm
      else if opcode = 0x16 then binop (\<lambda>val1 val2. val1 AND val2) evm
      else if opcode = 0x17 then binop (\<lambda>val1 val2. val1 OR val2) evm
      else if opcode = 0x18 then binop (\<lambda>val1 val2. val1 XOR val2) evm
      else if opcode = 0x19 then unop (\<lambda>val1. NOT val1) evm
      else if opcode = 0x1a then binop op_byte evm
      else if opcode = 0x1b then binop op_shl evm
      else if opcode = 0x1c then binop op_shr evm
      else if opcode = 0x1d then binop op_sar evm
      else Panic)"

section \<open>Memory\<close>

text \<open>Grow the memory for a range and read it; an empty range reads nothing.\<close>

definition read_memory :: "usize \<Rightarrow> usize \<Rightarrow> evm \<Rightarrow> (byte list \<times> evm) res" where
  "read_memory offset sz evm =
     (if sz > 0 then
        let required_size = usize_sat_add offset sz in
        bindR (grow_memory required_size evm) (\<lambda>evm1.
        bindR (slice_of (e_memory evm1) offset required_size) (\<lambda>slice. Ret (slice, evm1)))
      else Ret ([], evm))"

definition keccak256_opcode :: "('t, 'r) ext \<Rightarrow> evm \<Rightarrow> evm res" where
  "keccak256_opcode X evm =
     bindR (pop evm) (\<lambda>(offset, evm1). bindR (pop evm1) (\<lambda>(size, evm2).
     bindR (read_memory (to_usize offset) (to_usize size) evm2) (\<lambda>(slice, evm3).
     Ret (update_active_words (push (x_keccak256 X slice) evm3)))))"

definition mload_opcode :: "evm \<Rightarrow> evm res" where
  "mload_opcode evm =
     bindR (pop evm) (\<lambda>(p, evm1).
     let pointer = to_usize p; required_size = usize_sat_add pointer 32 in
     bindR (grow_memory required_size evm1) (\<lambda>evm2.
     bindR (slice_of (e_memory evm2) pointer required_size) (\<lambda>slice.
     bindR (copy_slice (replicate 32 0) 0 32 slice) (\<lambda>tmp.
     Ret (update_active_words (push (from_be_bytes tmp) evm2))))))"

text \<open>\<open>self.memory[pointer..required_size].copy_from_slice(&bytes)\<close> after growth.\<close>

definition store_memory :: "usize \<Rightarrow> usize \<Rightarrow> byte list \<Rightarrow> evm \<Rightarrow> evm res" where
  "store_memory pointer required_size bytes evm =
     bindR (copy_slice (e_memory evm) pointer required_size bytes) (\<lambda>m. Ret (evm\<lparr>e_memory := m\<rparr>))"

definition mstore_opcode :: "evm \<Rightarrow> evm res" where
  "mstore_opcode evm =
     bindR (pop evm) (\<lambda>(p, evm1). bindR (pop evm1) (\<lambda>(data, evm2).
     let pointer = to_usize p; required_size = usize_sat_add pointer 32 in
     bindR (grow_memory required_size evm2) (\<lambda>evm3.
     bindR (store_memory pointer required_size (to_be_bytes data) evm3) (\<lambda>evm4.
     Ret (update_active_words evm4)))))"

definition mstore8_opcode :: "evm \<Rightarrow> evm res" where
  "mstore8_opcode evm =
     bindR (pop evm) (\<lambda>(p, evm1). bindR (pop evm1) (\<lambda>(data, evm2).
     let pointer = to_usize p; required_size = usize_sat_add pointer 1 in
     bindR (grow_memory required_size evm2) (\<lambda>evm3.
     bindR (store_memory pointer required_size (drop 31 (to_be_bytes data)) evm3) (\<lambda>evm4.
     Ret (update_active_words evm4)))))"

text \<open>
  The copy loop body shared by \<open>CALLDATACOPY\<close>, \<open>CODECOPY\<close> and \<open>EXTCODECOPY\<close>: bytes beyond the end
  of the source are zero.
\<close>

definition padded_slice :: "byte list \<Rightarrow> usize \<Rightarrow> usize \<Rightarrow> byte list res" where
  "padded_slice data offset sz =
     bindR (vec_resize [] sz) (\<lambda>slice.
     let read_size = usize_sat_add offset sz in
     if offset \<le> length data then
       if read_size > length data then
         copy_slice slice 0 (length data - offset) (drop offset data)
       else
         bindR (slice_of data offset read_size) (\<lambda>d. copy_slice slice 0 (length slice) d)
     else Ret slice)"

definition copy_data :: "byte list \<Rightarrow> usize \<Rightarrow> usize \<Rightarrow> usize \<Rightarrow> evm \<Rightarrow> evm res" where
  "copy_data data dest_offset offset sz evm =
     (if sz \<noteq> 0 then
        let required_size = usize_sat_add dest_offset sz in
        bindR (grow_memory required_size evm) (\<lambda>evm1.
        bindR (padded_slice data offset sz) (\<lambda>slice.
        store_memory dest_offset required_size slice evm1))
      else Ret evm)"

definition calldatacopy_opcode :: "exec_env \<Rightarrow> evm \<Rightarrow> evm res" where
  "calldatacopy_opcode env evm =
     bindR (pop evm) (\<lambda>(dest_offset, evm1). bindR (pop evm1) (\<lambda>(offset, evm2).
     bindR (pop evm2) (\<lambda>(size, evm3).
     bindR (copy_data (i_data env) (to_usize dest_offset) (to_usize offset) (to_usize size) evm3) (\<lambda>evm4.
     Ret (update_active_words evm4)))))"

definition codecopy_opcode :: "exec_env \<Rightarrow> evm \<Rightarrow> evm res" where
  "codecopy_opcode env evm =
     bindR (pop evm) (\<lambda>(dest_offset, evm1). bindR (pop evm1) (\<lambda>(offset, evm2).
     bindR (pop evm2) (\<lambda>(size, evm3).
     bindR (copy_data (i_byte env) (to_usize dest_offset) (to_usize offset) (to_usize size) evm3) (\<lambda>evm4.
     Ret (update_active_words evm4)))))"

definition extcodecopy_opcode ::
  "('t, 'r) ext \<Rightarrow> evm \<Rightarrow> ('t, 'r) world_state \<Rightarrow> substate \<Rightarrow>
   (evm \<times> ('t, 'r) world_state \<times> substate) res" where
  "extcodecopy_opcode X evm ws ss =
     bindR (pop evm) (\<lambda>(val1, evm1). bindR (pop evm1) (\<lambda>(dest_offset, evm2).
     bindR (pop evm2) (\<lambda>(offset, evm3). bindR (pop evm3) (\<lambda>(size, evm4).
     let addr = from_word val1 in
     bindR (get_code X ws addr) (\<lambda>(result, ws1).
     bindR (copy_data (unwrap_or result []) (to_usize dest_offset) (to_usize offset) (to_usize size) evm4)
       (\<lambda>evm5.
     Ret (update_active_words evm5, ws1, ss\<lparr>a_access := push_new addr (a_access ss)\<rparr>)))))))"

definition returndatacopy_opcode :: "evm \<Rightarrow> evm res" where
  "returndatacopy_opcode evm =
     bindR (pop evm) (\<lambda>(d, evm1). bindR (pop evm1) (\<lambda>(off, evm2). bindR (pop evm2) (\<lambda>(s, evm3).
     let data = e_return_back evm; dest_offset = to_usize d; offset = to_usize off; sz = to_usize s in
     bindR
       (if sz \<noteq> 0 then
          let required_size = usize_sat_add dest_offset sz in
          bindR (grow_memory required_size evm3) (\<lambda>evm4.
          bindR (slice_of data offset (usize_sat_add offset sz)) (\<lambda>slice.
          store_memory dest_offset required_size slice evm4))
        else Ret evm3)
       (\<lambda>evm5. Ret (update_active_words evm5)))))"

section \<open>Environment and block information\<close>

definition environmental_info_opcode ::
  "('t, 'r) ext \<Rightarrow> nat \<Rightarrow> exec_env \<Rightarrow> evm \<Rightarrow> ('t, 'r) world_state \<Rightarrow> substate \<Rightarrow>
   (evm \<times> ('t, 'r) world_state \<times> substate) res" where
  "environmental_info_opcode X opcode env evm ws ss =
     (if opcode = 0x30 then Ret (push (into_word (i_address env)) evm, ws, ss)
      else if opcode = 0x31 then
        bindR (pop evm) (\<lambda>(val1, evm1).
        let addr = from_word val1 in
        bindR (get_balance X ws addr) (\<lambda>(balance, ws1).
        Ret (push (case balance of Some x \<Rightarrow> x | None \<Rightarrow> 0) evm1, ws1,
             ss\<lparr>a_access := push_new addr (a_access ss)\<rparr>)))
      else if opcode = 0x32 then Ret (push (into_word (i_origin env)) evm, ws, ss)
      else if opcode = 0x33 then Ret (push (into_word (i_sender env)) evm, ws, ss)
      else if opcode = 0x34 then Ret (push (i_value env) evm, ws, ss)
      else if opcode = 0x36 then Ret (push (of_nat (length (i_data env))) evm, ws, ss)
      else if opcode = 0x38 then Ret (push (of_nat (length (i_byte env))) evm, ws, ss)
      else if opcode = 0x3a then Ret (push (i_gas_price env) evm, ws, ss)
      else if opcode = 0x3b then
        bindR (pop evm) (\<lambda>(val1, evm1).
        let addr = from_word val1 in
        bindR (get_code X ws addr) (\<lambda>(result, ws1).
        Ret (push (case result of Some x \<Rightarrow> of_nat (length x) | None \<Rightarrow> 0) evm1, ws1,
             ss\<lparr>a_access := push_new addr (a_access ss)\<rparr>)))
      else if opcode = 0x3d then Ret (push (of_nat (length (e_return_back evm))) evm, ws, ss)
      else if opcode = 0x3f then
        bindR (pop evm) (\<lambda>(data, evm1).
        let addr = from_word data in
        bindR (get_code X ws addr) (\<lambda>(result, ws1).
        Ret (push (case result of Some x \<Rightarrow> x_keccak256 X x | None \<Rightarrow> 0) evm1, ws1,
             ss\<lparr>a_access := push_new addr (a_access ss)\<rparr>)))
      else Panic)"

definition calldataload_opcode :: "exec_env \<Rightarrow> evm \<Rightarrow> evm res" where
  "calldataload_opcode env evm =
     bindR (pop evm) (\<lambda>(off, evm1).
     let offset = to_usize off; data = i_data env; required_size = usize_sat_add offset 32;
         buffer = replicate 32 0 in
     if offset \<ge> length data then Ret (push 0 evm1)
     else
       bindR
         (if required_size > length data then
            copy_slice buffer 0 (length data - offset) (drop offset data)
          else bindR (slice_of data offset required_size) (\<lambda>d. copy_slice buffer 0 32 d))
         (\<lambda>buffer. Ret (push (from_be_bytes buffer) evm1)))"

text \<open>The branch of \<open>BLOCKHASH\<close> for a recent block is empty in the source: it pushes nothing.\<close>

definition block_info_opcode ::
  "('t, 'r) ext \<Rightarrow> nat \<Rightarrow> exec_env \<Rightarrow> evm \<Rightarrow> ('t, 'r) world_state \<Rightarrow>
   (evm \<times> ('t, 'r) world_state) res" where
  "block_info_opcode X opcode env evm ws =
     (let header = i_block_header env in
      if opcode = 0x40 then
        bindR (pop evm) (\<lambda>(num, evm1).
        if unat num > unat (h_number header) - 256 then Ret (evm1, ws) else Ret (push 0 evm1, ws))
      else if opcode = 0x41 then Ret (push (into_word (h_beneficiary header)) evm, ws)
      else if opcode = 0x42 then Ret (push (ucast (h_timestamp header)) evm, ws)
      else if opcode = 0x43 then Ret (push (ucast (h_number header)) evm, ws)
      else if opcode = 0x44 then Ret (push (h_mix_hash header) evm, ws)
      else if opcode = 0x45 then Ret (push (ucast (h_gas_limit header)) evm, ws)
      else if opcode = 0x46 then Ret (push 1 evm, ws)
      else if opcode = 0x47 then
        bindR (get_balance X ws (i_address env)) (\<lambda>(balance, ws1).
        Ret (push (case balance of Some x \<Rightarrow> x | None \<Rightarrow> 0) evm, ws1))
      else if opcode = 0x48 then
        Ret (push (case h_base_fee_per_gas header of Some v \<Rightarrow> ucast v | None \<Rightarrow> 0) evm, ws)
      else Panic)"

section \<open>Storage\<close>

definition sload_opcode ::
  "('t, 'r) ext \<Rightarrow> exec_env \<Rightarrow> evm \<Rightarrow> ('t, 'r) world_state \<Rightarrow> substate \<Rightarrow>
   (evm \<times> ('t, 'r) world_state \<times> substate) res" where
  "sload_opcode X env evm ws ss =
     bindR (pop evm) (\<lambda>(key, evm1).
     bindR (get_storage_value X ws (i_address env) key) (\<lambda>(v, ws1).
     Ret (push (case v of Some x \<Rightarrow> x | None \<Rightarrow> 0) evm1, ws1,
          access_storage_insert (i_address env) key (unwrap_or v 0) ss)))"

text \<open>The refund of \<open>SSTORE\<close>, from the original, current and new values of the slot.\<close>

definition sstore_refund :: "VersionId \<Rightarrow> u256 \<Rightarrow> u256 \<Rightarrow> u256 \<Rightarrow> substate \<Rightarrow> substate res" where
  "sstore_refund v val0 pre_value value ss =
     (if v < London \<and> v \<noteq> Constantinople then
        if pre_value \<noteq> 0 \<and> value = 0 then add_reimburse ss 15000 else Ret ss
      else if pre_value \<noteq> value then
        if val0 = pre_value then
          if val0 \<noteq> 0 \<and> value = 0
          then add_reimburse ss (if v = Constantinople then 15000 else 4800) else Ret ss
        else
          bindR (if val0 \<noteq> 0 \<and> pre_value = 0
                 then add_reimburse ss (if v = Constantinople then -15000 else -4800)
                 else Ret ss) (\<lambda>ss1.
          bindR (if val0 \<noteq> 0 \<and> value = 0
                 then add_reimburse ss1 (if v = Constantinople then 15000 else 4800)
                 else Ret ss1) (\<lambda>ss2.
          if val0 = value then
            if val0 = 0 then add_reimburse ss2 (if v = Constantinople then 19800 else 19900)
            else add_reimburse ss2 (if v = Constantinople then 4800 else 2800)
          else Ret ss2))
      else Ret ss)"

definition sstore_opcode ::
  "('t, 'r) ext \<Rightarrow> exec_env \<Rightarrow> evm \<Rightarrow> leviathan \<Rightarrow> ('t, 'r) world_state \<Rightarrow> substate \<Rightarrow>
   (evm \<times> leviathan \<times> ('t, 'r) world_state \<times> substate) res" where
  "sstore_opcode X env evm lv ws ss =
     bindR (pop evm) (\<lambda>(key, evm1). bindR (pop evm1) (\<lambda>(value, evm2).
     let addr = i_address env in
     bindR (get_storage_value X ws addr key) (\<lambda>(pv, ws1).
     let pre_value = unwrap_or pv 0;
         ss1 = access_storage_insert addr key pre_value ss;
         val0 = unwrap_or (unwrap_or (a_access_storage ss1 addr) Map.empty key) 0 in
     bindR (sstore_refund (e_version evm) val0 pre_value value ss1) (\<lambda>ss2.
     bindR (journaled X (Sstorage addr key 0)
       (if value = 0 then remove_storage addr key else set_storage addr key value) lv ws1) (\<lambda>(lv1, ws2).
     Ret (evm2, lv1, ws2, ss2))))))"

section \<open>Push, duplicate, exchange, log\<close>

definition push_opcode :: "nat \<Rightarrow> exec_env \<Rightarrow> evm \<Rightarrow> evm res" where
  "push_opcode opcode env evm =
     (let code = i_byte env;
          required_data_len = (opcode - 0x60) + 1;
          buffer = replicate 32 0;
          data_start = e_pc evm - required_data_len;
          data_end = e_pc evm;
          copy_start = min data_start (length code);
          copy_end = min data_end (length code);
          actual_len = copy_end - copy_start in
      bindR
        (if actual_len > 0 then
           let buffer_start = 32 - required_data_len in
           bindR (slice_of code copy_start copy_end) (\<lambda>d.
           copy_slice buffer buffer_start (buffer_start + actual_len) d)
         else Ret buffer)
        (\<lambda>buffer. Ret (push (from_be_bytes buffer) evm)))"

definition dup_opcode :: "nat \<Rightarrow> evm \<Rightarrow> evm res" where
  "dup_opcode opcode evm = bindR (peek evm (opcode - 0x80)) (\<lambda>data. Ret (push data evm))"

definition swap_opcode :: "nat \<Rightarrow> evm \<Rightarrow> evm res" where
  "swap_opcode opcode evm =
     (let n = opcode - 0x90 + 1; stk = e_stack evm in
      if n < length stk then Ret (evm\<lparr>e_stack := stk[0 := stk ! n, n := stk ! 0]\<rparr>) else Panic)"

primrec pop_topics :: "nat \<Rightarrow> evm \<Rightarrow> (b256 list \<times> evm) res" where
  "pop_topics 0 evm = Ret ([], evm)"
| "pop_topics (Suc n) evm =
     bindR (pop evm) (\<lambda>(topi, evm1). bindR (pop_topics n evm1) (\<lambda>(topic, evm2).
     Ret (topi # topic, evm2)))"

definition log_opcode ::
  "nat \<Rightarrow> exec_env \<Rightarrow> evm \<Rightarrow> substate \<Rightarrow> (evm \<times> substate) res" where
  "log_opcode opcode env evm ss =
     bindR (pop evm) (\<lambda>(offset, evm1). bindR (pop evm1) (\<lambda>(size, evm2).
     bindR (pop_topics (opcode - 0xa0) evm2) (\<lambda>(topic, evm3).
     bindR (read_memory (to_usize offset) (to_usize size) evm3) (\<lambda>(data, evm4).
     Ret (update_active_words evm4,
          ss\<lparr>a_log := a_log ss @
            [\<lparr>log_address = i_address env, log_topics = topic, log_data = data\<rparr>]\<rparr>)))))"

section \<open>Halting opcodes\<close>

text \<open>\<open>RETURN\<close> and \<open>REVERT\<close> leave the requested range in the return buffer.\<close>

definition return_opcode :: "evm \<Rightarrow> evm res" where
  "return_opcode evm =
     bindR (pop evm) (\<lambda>(offset, evm1). bindR (pop evm1) (\<lambda>(size, evm2).
     bindR (read_memory (to_usize offset) (to_usize size) evm2) (\<lambda>(data, evm3).
     Ret (update_active_words (evm3\<lparr>e_return_back := data\<rparr>)))))"

text \<open>\<open>if is_dead(a) && !is_physically_exist(a) { add_account(a); AccountCreation(a).push() }\<close>.\<close>

definition ensure_account ::
  "('t, 'r) ext \<Rightarrow> VersionId \<Rightarrow> address \<Rightarrow> leviathan \<Rightarrow> ('t, 'r) world_state \<Rightarrow>
   (leviathan \<times> ('t, 'r) world_state) res" where
  "ensure_account X v addr lv ws =
     bindR (is_dead X v ws addr) (\<lambda>(dead, ws1).
     if dead then
       bindR (is_physically_exist X ws1 addr) (\<lambda>(ex, ws2).
       if \<not> ex then action_push X (AccountCreation addr) lv (add_account addr (account_new X) ws2)
       else Ret (lv, ws2))
     else Ret (lv, ws1))"

text \<open>The balance movement of \<open>SELFDESTRUCT\<close>.\<close>

definition selfdestruct_transfer ::
  "('t, 'r) ext \<Rightarrow> VersionId \<Rightarrow> address \<Rightarrow> address \<Rightarrow> u256 \<Rightarrow> leviathan \<Rightarrow> ('t, 'r) world_state \<Rightarrow>
   (leviathan \<times> ('t, 'r) world_state) res" where
  "selfdestruct_transfer X v from_address to_address balance lv ws =
     (if from_address = to_address then
        journaled X (ResetBalance from_address 0) (reset_balance from_address) lv ws
      else if v \<le> TangerineWhistle \<and> balance = 0 then ensure_account X v to_address lv ws
      else if balance \<noteq> 0 then
        bindR (ensure_account X v to_address lv ws) (\<lambda>(lv1, ws1).
        journaled X (SendEth from_address to_address balance)
          (transfer_eth from_address to_address balance) lv1 ws1)
      else Ret (lv, ws))"

definition selfdestruct_opcode ::
  "('t, 'r) ext \<Rightarrow> exec_env \<Rightarrow> evm \<Rightarrow> leviathan \<Rightarrow> ('t, 'r) world_state \<Rightarrow> substate \<Rightarrow>
   (evm \<times> leviathan \<times> ('t, 'r) world_state \<times> substate) res" where
  "selfdestruct_opcode X env evm lv ws ss =
     (let from_address = i_address env in
      bindR (if e_version evm < London \<and> from_address \<notin> set (a_des ss)
             then add_reimburse ss 24000 else Ret ss) (\<lambda>ss1.
      bindR (pop evm) (\<lambda>(val1, evm1).
      let to_address = from_word val1;
          ss2 = ss1\<lparr>a_touch := push_new to_address (a_touch ss1)\<rparr> in
      bindR (get_balance X ws from_address) (\<lambda>(b, ws1).
      bindR (unwrap b) (\<lambda>balance.
      bindR (selfdestruct_transfer X (e_version evm) from_address to_address balance lv ws1)
        (\<lambda>(lv', ws').
      Ret (evm1\<lparr>e_return_back := []\<rparr>, lv', ws', ss2\<lparr>a_des := a_des ss2 @ [from_address]\<rparr>)))))))"

end
