(* ===== verification/Precompile.thy ===== *)
theory Precompile
  imports Rocks_DB
begin

text \<open>
  The precompiled contracts of \<open>src/src/leviathan/precompile.rs\<close> and
  \<open>src/src/leviathan/my_precompiled.rs\<close>: input extraction, validation, gas and output format.  The
  cryptographic primitives are fields of the record of external functions.
\<close>

section \<open>Results and input extraction\<close>

text \<open>\<open>Result<(U256, Vec<u8>), (U256, Option<Vec<u8>>)>\<close>.\<close>

datatype exec_result = XOk u256 "byte list" | XErr u256 "byte list option"

definition SECP256K1N :: u256 where
  "SECP256K1N = 0xfffffffffffffffffffffffffffffffebaaedce6af48a03bbfd25e8cd0364141"

definition PRIME_P :: u256 where
  "PRIME_P = 21888242871839275222246405745257275088696311157297823662689037894645226208583"

definition get_padded_data :: "byte list \<Rightarrow> usize \<Rightarrow> usize \<Rightarrow> byte list res" where
  "get_padded_data data start len =
     bindR (vec_resize [] len) (\<lambda>out.
     if start < length data then
       let copy_len = min (length data - start) len in
       bindR (slice_of data start (start + copy_len)) (\<lambda>d. copy_slice out 0 copy_len d)
     else Ret out)"

text \<open>The test and subtraction with which every precompile takes its gas.\<close>

definition take_gas :: "u256 \<Rightarrow> u256 \<Rightarrow> (u256 \<Rightarrow> exec_result res) \<Rightarrow> exec_result res" where
  "take_gas gas used_gas k = (if gas < used_gas then Ret (XErr 0 None) else k (gas - used_gas))"

section \<open>Hashes, recovery, identity\<close>

definition ecrec :: "('t, 'r) ext \<Rightarrow> u256 \<Rightarrow> byte list \<Rightarrow> exec_result res" where
  "ecrec X gas data =
     take_gas gas 3000 (\<lambda>return_gas.
     let copy_len = min (length data) 128 in
     bindR (copy_slice (replicate 128 0) 0 copy_len (take copy_len data)) (\<lambda>tmp.
     let h = take 32 tmp; v = take 32 (drop 32 tmp); r = take 32 (drop 64 tmp);
         s = take 32 (drop 96 tmp);
         v_val = from_be_bytes v; r_val = from_be_bytes r; s_val = from_be_bytes s in
     if v_val \<noteq> 27 \<and> v_val \<noteq> 28 then Ret (XOk return_gas [])
     else if \<not> (0 < r_val \<and> r_val < SECP256K1N) \<or> \<not> (0 < s_val \<and> s_val < SECP256K1N)
     then Ret (XOk return_gas [])
     else case x_ecdsa_recover X h (r @ s) (unat (v_val - 27)) of
            None \<Rightarrow> Ret (XOk return_gas [])
          | Some serialized_pk \<Rightarrow>
              bindR (slice_of serialized_pk 1 65) (\<lambda>slice.
              Ret (XOk return_gas
                (replicate 12 0 @ drop 12 (to_be_bytes (x_keccak256 X slice)))))))"

text \<open>\<open>base + per_word * len.div_ceil(32)\<close>.\<close>

definition word_gas :: "u256 \<Rightarrow> u256 \<Rightarrow> byte list \<Rightarrow> u256" where
  "word_gas base per_word data = base + per_word * of_nat ((length data + 31) div 32)"

definition sha256 :: "('t, 'r) ext \<Rightarrow> u256 \<Rightarrow> byte list \<Rightarrow> exec_result res" where
  "sha256 X gas data =
     take_gas gas (word_gas 60 12 data) (\<lambda>remaining_gas. Ret (XOk remaining_gas (x_sha256 X data)))"

definition precompile_ripemd160 :: "('t, 'r) ext \<Rightarrow> u256 \<Rightarrow> byte list \<Rightarrow> exec_result res" where
  "precompile_ripemd160 X gas data =
     take_gas gas (word_gas 600 120 data) (\<lambda>remaining_gas.
     bindR (copy_slice (replicate 32 0) 12 32 (x_ripemd160 X data)) (\<lambda>result.
     Ret (XOk remaining_gas result)))"

definition precompile_identity :: "u256 \<Rightarrow> byte list \<Rightarrow> exec_result res" where
  "precompile_identity gas data =
     take_gas gas (word_gas 15 3 data) (\<lambda>remaining_gas. Ret (XOk remaining_gas data))"

section \<open>Modular exponentiation\<close>

text \<open>The gas of \<open>expmod\<close>: plain \<open>*\<close> and \<open>+\<close> on \<open>U256\<close> wrap.\<close>

definition expmod_gas :: "byte list \<Rightarrow> VersionId \<Rightarrow> u256 \<Rightarrow> u256 \<Rightarrow> u256 \<Rightarrow> u256 res" where
  "expmod_gas data v b_len e_len m_len =
     (let max_len = max b_len m_len;
          words = (max_len + 7) div 8;
          val1 = sat_mul words max_len;
          e_start = usize_sat_add (to_usize b_len) 96 in
      bindR
        (if e_len \<le> 32 then
           bindR (get_padded_data data e_start (unat e_len)) (\<lambda>e_bytes.
           let e_val = from_be_bytes e_bytes in
           Ret (if e_val = 0 then 1 else of_nat (bit_len (unat e_val))))
         else
           bindR (get_padded_data data e_start 32) (\<lambda>e_top_bytes.
           let e_top = from_be_bytes e_top_bytes; rest = e_len - 32 in
           Ret (rest * 8 + of_nat (bit_len (unat e_top)))))
        (\<lambda>val2.
         let g_cost1 = (if Berlin \<le> v then (val1 * val2) div 3 else (val1 * val2) div 20) in
         Ret (max g_cost1 200)))"

text \<open>\<open>usize::try_from(x).unwrap_or(0)\<close> and checked \<open>usize\<close> addition.\<close>

definition to_usize_or_0 :: "u256 \<Rightarrow> usize" where
  "to_usize_or_0 w = (if unat w \<le> usize_max then unat w else 0)"

definition usize_add :: "usize \<Rightarrow> usize \<Rightarrow> usize res" where
  "usize_add a b = (if a + b \<le> usize_max then Ret (a + b) else Panic)"

text \<open>\<open>BigUint::to_bytes_be\<close>: the shortest big-endian representation, one zero byte for 0.\<close>

definition to_bytes_be :: "nat \<Rightarrow> byte list" where
  "to_bytes_be n = be_bytes (max 1 ((bit_len n + 7) div 8)) n"

definition expmod_result :: "nat \<Rightarrow> usize \<Rightarrow> byte list" where
  "expmod_result val m_len =
     (let bytes = to_bytes_be val in
      if length bytes < m_len then replicate (m_len - length bytes) 0 @ bytes
      else if length bytes > m_len then drop (length bytes - m_len) bytes
      else bytes)"

definition expmod :: "('t, 'r) ext \<Rightarrow> u256 \<Rightarrow> byte list \<Rightarrow> VersionId \<Rightarrow> exec_result res" where
  "expmod X gas data v =
     (if data = [] then
        take_gas gas (if Berlin \<le> v then 200 else 0) (\<lambda>return_gas. Ret (XOk return_gas []))
      else
        bindR (get_padded_data data 0 32) (\<lambda>b_len_byte.
        bindR (get_padded_data data 32 32) (\<lambda>e_len_byte.
        bindR (get_padded_data data 64 32) (\<lambda>m_len_byte.
        let b_len = from_be_bytes b_len_byte; e_len = from_be_bytes e_len_byte;
            m_len = from_be_bytes m_len_byte in
        bindR (expmod_gas data v b_len e_len m_len) (\<lambda>used_gas.
        take_gas gas used_gas (\<lambda>return_gas.
        let b_len' = to_usize_or_0 b_len; e_len' = to_usize_or_0 e_len; m_len' = to_usize_or_0 m_len in
        bindR (get_padded_data data 96 b_len') (\<lambda>b_val_byte.
        bindR (usize_add 96 b_len') (\<lambda>e_start.
        bindR (get_padded_data data e_start e_len') (\<lambda>e_val_byte.
        bindR (usize_add e_start e_len') (\<lambda>m_start.
        bindR (get_padded_data data m_start m_len') (\<lambda>m_val_byte.
        let b_val = be_val b_val_byte; e_val = be_val e_val_byte; m_val = be_val m_val_byte in
        if m_val = 0 then Ret (XOk return_gas (replicate m_len' 0))
        else Ret (XOk return_gas (expmod_result (x_modpow X b_val e_val m_val) m_len')))))))))))))"

section \<open>Elliptic curve operations\<close>

text \<open>\<open>None\<close> is the point at infinity; the outer option is the validation error.\<close>

definition g1_point :: "('t, 'r) ext \<Rightarrow> u256 \<Rightarrow> u256 \<Rightarrow> (nat \<times> nat) option option" where
  "g1_point X x y =
     (if x \<ge> PRIME_P \<or> y \<ge> PRIME_P then None
      else if x = 0 \<and> y = 0 then Some None
      else if \<not> x_g1_on_curve X (unat x, unat y) then None
      else Some (Some (unat x, unat y)))"

definition g2_point ::
  "('t, 'r) ext \<Rightarrow> u256 \<Rightarrow> u256 \<Rightarrow> u256 \<Rightarrow> u256 \<Rightarrow> ((nat \<times> nat) \<times> (nat \<times> nat)) option option" where
  "g2_point X x_im x_re y_im y_re =
     (if x_im \<ge> PRIME_P \<or> x_re \<ge> PRIME_P \<or> y_im \<ge> PRIME_P \<or> y_re \<ge> PRIME_P then None
      else if x_re = 0 \<and> x_im = 0 \<and> y_re = 0 \<and> y_im = 0 then Some None
      else
        let p = ((unat x_re, unat x_im), (unat y_re, unat y_im)) in
        if \<not> x_g2_valid X p then None else Some (Some p))"

definition g1_bytes :: "(nat \<times> nat) option \<Rightarrow> byte list" where
  "g1_bytes p = (case p of None \<Rightarrow> replicate 64 0 | Some (x, y) \<Rightarrow> be_bytes 32 x @ be_bytes 32 y)"

text \<open>The order of the source: both range checks come before the curve checks.\<close>

definition bn_add :: "('t, 'r) ext \<Rightarrow> u256 \<Rightarrow> byte list \<Rightarrow> VersionId \<Rightarrow> exec_result res" where
  "bn_add X gas data v =
     take_gas gas (if Istanbul \<le> v then 150 else 500) (\<lambda>return_gas.
     bindR (get_padded_data data 0 32) (\<lambda>x1_byte. bindR (get_padded_data data 32 32) (\<lambda>y1_byte.
     bindR (get_padded_data data 64 32) (\<lambda>x2_byte. bindR (get_padded_data data 96 32) (\<lambda>y2_byte.
     case (g1_point X (from_be_bytes x1_byte) (from_be_bytes y1_byte),
           g1_point X (from_be_bytes x2_byte) (from_be_bytes y2_byte)) of
       (Some p1, Some p2) \<Rightarrow> Ret (XOk return_gas (g1_bytes (x_g1_add X p1 p2)))
     | _ \<Rightarrow> Ret (XErr 0 None))))))"

definition bn_mul :: "('t, 'r) ext \<Rightarrow> u256 \<Rightarrow> byte list \<Rightarrow> VersionId \<Rightarrow> exec_result res" where
  "bn_mul X gas data v =
     take_gas gas (if Istanbul \<le> v then 6000 else 40000) (\<lambda>return_gas.
     bindR (get_padded_data data 0 32) (\<lambda>x_byte. bindR (get_padded_data data 32 32) (\<lambda>y_byte.
     bindR (get_padded_data data 64 32) (\<lambda>n_byte.
     case g1_point X (from_be_bytes x_byte) (from_be_bytes y_byte) of
       None \<Rightarrow> Ret (XErr 0 None)
     | Some p \<Rightarrow> Ret (XOk return_gas (g1_bytes (x_g1_mul X p (be_val n_byte))))))))"

definition u256_at :: "byte list \<Rightarrow> usize \<Rightarrow> u256 res" where
  "u256_at data offset = bindR (slice_of data offset (offset + 32)) (\<lambda>bs. Ret (from_be_bytes bs))"

primrec pairing_points ::
  "('t, 'r) ext \<Rightarrow> byte list \<Rightarrow> nat list \<Rightarrow>
   ((nat \<times> nat) option \<times> ((nat \<times> nat) \<times> (nat \<times> nat)) option) list option res" where
  "pairing_points X data [] = Ret (Some [])"
| "pairing_points X data (i # is) =
     (let offset = i * 192 in
      bindR (u256_at data offset) (\<lambda>x. bindR (u256_at data (offset + 32)) (\<lambda>y.
      case g1_point X x y of
        None \<Rightarrow> Ret None
      | Some p \<Rightarrow>
          bindR (u256_at data (offset + 64)) (\<lambda>x_im. bindR (u256_at data (offset + 96)) (\<lambda>x_re.
          bindR (u256_at data (offset + 128)) (\<lambda>y_im. bindR (u256_at data (offset + 160)) (\<lambda>y_re.
          case g2_point X x_im x_re y_im y_re of
            None \<Rightarrow> Ret None
          | Some p2 \<Rightarrow>
              bindR (pairing_points X data is) (\<lambda>ps. Ret (map_option ((#) (p, p2)) ps))))))))) "

definition bool_word :: "bool \<Rightarrow> byte list" where
  "bool_word b = replicate 31 0 @ [if b then 1 else 0]"

definition bn_pairing :: "('t, 'r) ext \<Rightarrow> u256 \<Rightarrow> byte list \<Rightarrow> VersionId \<Rightarrow> exec_result res" where
  "bn_pairing X gas data v =
     (if length data mod 192 \<noteq> 0 then Ret (XErr 0 None)
      else
        let k = length data div 192 in
        take_gas gas
          (if Istanbul \<le> v then sat_add (sat_mul 34000 (of_nat k)) 45000
           else sat_add (sat_mul 80000 (of_nat k)) 100000)
          (\<lambda>return_gas.
           bindR (pairing_points X data [0..<k]) (\<lambda>ps.
           case ps of
             None \<Rightarrow> Ret (XErr 0 None)
           | Some points \<Rightarrow> Ret (XOk return_gas (bool_word (x_pairing_is_one X points))))))"

section \<open>The node's own precompiles\<close>

definition my_rsa :: "('t, 'r) ext \<Rightarrow> u256 \<Rightarrow> byte list \<Rightarrow> exec_result res" where
  "my_rsa X gas data =
     take_gas gas 168000 (\<lambda>return_gas.
     bindR (get_padded_data data 0 256) (\<lambda>signature_byte.
     bindR (get_padded_data data 256 256) (\<lambda>modulus_byte.
     bindR (get_padded_data data 512 32) (\<lambda>message_byte.
     bindR (get_padded_data data 544 (length data - 544)) (\<lambda>exponent_byte.
     case x_rsa_verify X (be_val modulus_byte) (be_val exponent_byte) message_byte signature_byte of
       None \<Rightarrow> Ret (XErr 0 None)
     | Some is_valid \<Rightarrow> Ret (XOk return_gas (bool_word is_valid)))))))"

primrec public_inputs :: "byte list \<Rightarrow> usize \<Rightarrow> nat list \<Rightarrow> byte list list res" where
  "public_inputs data pub_input_offset [] = Ret []"
| "public_inputs data pub_input_offset (i # is) =
     bindR (get_padded_data data (i * 32 + pub_input_offset) 32) (\<lambda>input_bytes.
     bindR (public_inputs data pub_input_offset is) (\<lambda>rest. Ret (input_bytes # rest)))"

definition my_groth16 :: "('t, 'r) ext \<Rightarrow> u256 \<Rightarrow> byte list \<Rightarrow> exec_result res" where
  "my_groth16 X gas data =
     (if data = [] then Ret (XErr 0 None)
      else
        bindR (get_padded_data data 0 32) (\<lambda>key_len_bytes.
        let key_len_u256 = from_be_bytes key_len_bytes; key_len = unat key_len_u256 in
        if key_len > usize_max then Ret (XErr 0 None)
        else if key_len > length data then Ret (XErr 0 None)
        else
          bindR (get_padded_data data 32 key_len) (\<lambda>key_bytes.
          let proof_offset = 32 + key_len; pub_input_offset = proof_offset + 256 in
          bindR (get_padded_data data pub_input_offset (length data - pub_input_offset)) (\<lambda>input_data.
          if length input_data mod 32 \<noteq> 0 then Ret (XErr 0 None)
          else
            let k = length input_data div 32 in
            take_gas gas (sat_add (sat_mul 34000 (of_nat k)) 45000) (\<lambda>return_gas.
            bindR (get_padded_data data proof_offset 256) (\<lambda>zk_data.
            bindR (u256_at zk_data 0) (\<lambda>ax. bindR (u256_at zk_data 32) (\<lambda>ay.
            bindR (u256_at zk_data 64) (\<lambda>x_im. bindR (u256_at zk_data 96) (\<lambda>x_re.
            bindR (u256_at zk_data 128) (\<lambda>y_im. bindR (u256_at zk_data 160) (\<lambda>y_re.
            bindR (u256_at zk_data 192) (\<lambda>cx. bindR (u256_at zk_data 224) (\<lambda>cy.
            case (g1_point X ax ay, g2_point X x_im x_re y_im y_re, g1_point X cx cy) of
              (Some point_a, Some point_b, Some point_c) \<Rightarrow>
                bindR (public_inputs data pub_input_offset [0..<k]) (\<lambda>inputs.
                case x_groth16_verify X key_bytes point_a point_b point_c inputs of
                  None \<Rightarrow> Ret (XErr 0 None)
                | Some is_valid \<Rightarrow> Ret (XOk return_gas (bool_word is_valid)))
            | _ \<Rightarrow> Ret (XErr 0 None)))))))))))))))"

primrec poseidon_elements :: "byte list \<Rightarrow> nat list \<Rightarrow> byte list list option res" where
  "poseidon_elements input_datas [] = Ret (Some [])"
| "poseidon_elements input_datas (i # is) =
     bindR (slice_of input_datas (i * 32) (i * 32 + 32)) (\<lambda>tmp.
     if from_be_bytes tmp \<ge> PRIME_P then Ret None
     else bindR (poseidon_elements input_datas is) (\<lambda>rest. Ret (map_option ((#) tmp) rest)))"

text \<open>\<open>data.len() - 1\<close> underflows on empty input, before the test for empty input.\<close>

definition my_poseidon :: "('t, 'r) ext \<Rightarrow> u256 \<Rightarrow> byte list \<Rightarrow> exec_result res" where
  "my_poseidon X gas data =
     (if length data < 1 then Panic
      else
        let input_datas_len = length data - 1 in
        if data = [] \<or> input_datas_len mod 32 \<noteq> 0 then Ret (XErr 0 None)
        else
          let k = input_datas_len div 32 in
          if \<not> (1 \<le> k \<and> k \<le> 12) then Ret (XErr 0 None)
          else
            take_gas gas (sat_add 30000 (5000 * of_nat k)) (\<lambda>return_gas.
            bindR (poseidon_elements (drop 1 data) [0..<k]) (\<lambda>els.
            case els of
              None \<Rightarrow> Ret (XErr 0 None)
            | Some elements \<Rightarrow>
                if data ! 0 = 0x01 then
                  bindR (unwrap (x_poseidon X elements)) (\<lambda>hash_result.
                  case hash_result of
                    None \<Rightarrow> Ret (XErr 0 None)
                  | Some result_bytes \<Rightarrow>
                      bindR (copy_slice (replicate 32 0) (32 - length result_bytes) 32 result_bytes)
                        (\<lambda>output. Ret (XOk return_gas output)))
                else Ret (XErr 0 None))))"

end
