(* ===== verification/Interpreter.thy ===== *)
theory Interpreter
  imports Opcodes Precompile
begin

text \<open>
  The mutually recursive core: \<open>message_call\<close> (\<open>src/src/leviathan/call.rs\<close>), \<open>contract_creation\<close>
  (\<open>src/src/leviathan/create.rs\<close>), the call and create opcodes and the dispatch of
  \<open>src/src/evm/execution.rs\<close>, and the loop \<open>evm_run\<close> of \<open>src/src/evm/evm.rs\<close>.

  The recursion is open: everything below takes the function \<open>run\<close> that executes a code, and
  \<open>evm_run\<close> ties the knot with fuel.  One unit of fuel is one iteration of the loop of \<open>evm_run\<close>,
  in this frame or in a sub-call; \<open>Gas_Bound\<close> shows that the gas of the machine bounds it.
\<close>

section \<open>Results\<close>

datatype run_result = ROk "byte list" | RErr "byte list option"

text \<open>\<open>Result<(U256, Vec<u8>, Option<Address>), (U256, Option<Vec<u8>>, Option<Address>)>\<close>.\<close>

datatype call_result = COk u256 "byte list" "address option" | CErr u256 "byte list option" "address option"

type_synonym ('t, 'r) runner =
  "exec_env \<Rightarrow> evm \<Rightarrow> leviathan \<Rightarrow> ('t, 'r) world_state \<Rightarrow> substate \<Rightarrow>
   (run_result \<times> evm \<times> leviathan \<times> ('t, 'r) world_state \<times> substate) res"

type_synonym ('t, 'r) call_state = "leviathan \<times> ('t, 'r) world_state \<times> substate"

section \<open>Message calls\<close>

text \<open>The roll-back of a failed call or creation: first the world state, then the substate.\<close>

definition undo_frame ::
  "leviathan \<Rightarrow> ('t, 'r) world_state \<Rightarrow> substate \<Rightarrow> ('t, 'r) call_state res" where
  "undo_frame lv ws ss =
     bindR (roleback lv ws) (\<lambda>(lv1, ws1).
     bindR (road_backup ss (lv_substate_backup lv1) (lv_version lv1)) (\<lambda>ss1.
     Ret (lv1, ws1, ss1)))"

text \<open>The balance transfer; \<open>False\<close> is the early return for a dead sender.\<close>

definition transfer_value ::
  "('t, 'r) ext \<Rightarrow> address \<Rightarrow> address \<Rightarrow> u256 \<Rightarrow> leviathan \<Rightarrow> ('t, 'r) world_state \<Rightarrow>
   (bool \<times> leviathan \<times> ('t, 'r) world_state) res" where
  "transfer_value X sender recipient eth lv ws =
     (if eth \<noteq> 0 then
        bindR (is_dead X (lv_version lv) ws sender) (\<lambda>(dead, ws1).
        if dead then Ret (False, lv, ws1)
        else
          bindR (ensure_account X (lv_version lv) recipient lv ws1) (\<lambda>(lv1, ws2).
          if sender \<noteq> recipient then
            bindR (journaled X (SendEth sender recipient eth) (transfer_eth sender recipient eth) lv1 ws2)
              (\<lambda>(lv2, ws3). Ret (True, lv2, ws3))
          else Ret (True, lv1, ws2)))
      else if lv_version lv < SpuriousDragon then
        bindR (ensure_account X (lv_version lv) recipient lv ws) (\<lambda>(lv1, ws1). Ret (True, lv1, ws1))
      else Ret (True, lv, ws))"

definition precompiled ::
  "('t, 'r) ext \<Rightarrow> VersionId \<Rightarrow> u256 \<Rightarrow> u256 \<Rightarrow> byte list \<Rightarrow> exec_result res option" where
  "precompiled X v contract_u256 gas_in data =
     (if contract_u256 = 1 then Some (ecrec X gas_in data)
      else if contract_u256 = 2 then Some (sha256 X gas_in data)
      else if contract_u256 = 3 then Some (precompile_ripemd160 X gas_in data)
      else if contract_u256 = 4 then Some (precompile_identity gas_in data)
      else if contract_u256 = 5 then
        Some (if Byzantium \<le> v then expmod X gas_in data v else Ret (XOk gas_in []))
      else if contract_u256 = 6 then
        Some (if Byzantium \<le> v then bn_add X gas_in data v else Ret (XOk gas_in []))
      else if contract_u256 = 7 then
        Some (if Byzantium \<le> v then bn_mul X gas_in data v else Ret (XOk gas_in []))
      else if contract_u256 = 8 then
        Some (if Byzantium \<le> v then bn_pairing X gas_in data v else Ret (XOk gas_in []))
      else if contract_u256 = 9 then Some Panic
      else if contract_u256 = 10 then Some (my_rsa X gas_in data)
      else if contract_u256 = 11 then Some (my_groth16 X gas_in data)
      else if contract_u256 = 12 then Some (my_poseidon X gas_in data)
      else None)"

definition run_contract ::
  "('t, 'r) ext \<Rightarrow> ('t, 'r) runner \<Rightarrow> address \<Rightarrow> exec_env \<Rightarrow> u256 \<Rightarrow> leviathan \<Rightarrow>
   ('t, 'r) world_state \<Rightarrow> substate \<Rightarrow> (exec_result \<times> ('t, 'r) call_state) res" where
  "run_contract X run contract env gas_in lv ws ss =
     (case precompiled X (lv_version lv) (into_word contract) gas_in (i_data env) of
        Some r \<Rightarrow> bindR r (\<lambda>result. Ret (result, lv, ws, ss))
      | None \<Rightarrow>
          bindR (get_code X ws contract) (\<lambda>(code, ws1).
          let env1 = env\<lparr>i_byte := unwrap_or code []\<rparr>;
              evm = (evm_new env1 (lv_version lv))\<lparr>e_gas := gas_in\<rparr> in
          bindR (run env1 evm lv ws1 ss) (\<lambda>(result, evm1, lv1, ws2, ss1).
          Ret ((case result of
                  ROk output \<Rightarrow> XOk (fst (return_gas evm1)) output
                | RErr (Some revert_data) \<Rightarrow> XErr (fst (return_gas evm1)) (Some revert_data)
                | RErr None \<Rightarrow> XErr 0 None), lv1, ws2, ss1))))"

definition message_call ::
  "('t, 'r) ext \<Rightarrow> ('t, 'r) runner \<Rightarrow> leviathan \<Rightarrow> ('t, 'r) world_state \<Rightarrow> substate \<Rightarrow>
   address \<Rightarrow> address \<Rightarrow> address \<Rightarrow> address \<Rightarrow> u256 \<Rightarrow> u256 \<Rightarrow> u256 \<Rightarrow> u256 \<Rightarrow> byte list \<Rightarrow> usize \<Rightarrow>
   bool \<Rightarrow> block_header \<Rightarrow> (call_result \<times> ('t, 'r) call_state) res" where
  "message_call X run lv ws ss sender origin recipient contract gas_in price eth apparent_value data
     depth sudo header =
     (let ss1 = ss\<lparr>a_access := push_new recipient (a_access ss)\<rparr>;
          lv1 = lv\<lparr>lv_substate_backup := backup ss1\<rparr>;
          ss2 = ss1\<lparr>a_touch := push_new recipient (a_touch ss1)\<rparr> in
      bindR (transfer_value X sender recipient eth lv1 ws) (\<lambda>(ok, lv2, ws1).
      if \<not> ok then Ret (CErr gas_in None None, lv2, ws1, ss2)
      else
        let env = \<lparr>i_address = recipient, i_origin = origin, i_gas_price = price, i_data = data,
              i_sender = sender, i_value = apparent_value, i_byte = [], i_block_header = header,
              i_depth = depth, i_permission = sudo\<rparr> in
        bindR (run_contract X run contract env gas_in lv2 ws1 ss2) (\<lambda>(result, lv3, ws2, ss3).
        case result of
          XOk g output \<Rightarrow> Ret (COk g output None, lv3, ws2, ss3)
        | XErr revert_gas (Some revert_data) \<Rightarrow>
            bindR (undo_frame lv3 ws2 ss3) (\<lambda>st. Ret (CErr revert_gas (Some revert_data) None, st))
        | XErr _ None \<Rightarrow>
            bindR (undo_frame lv3 ws2 ss3) (\<lambda>st. Ret (CErr 0 None None, st)))))"

section \<open>Contract creation\<close>

definition usize_mul :: "usize \<Rightarrow> usize \<Rightarrow> usize res" where
  "usize_mul a b = (if a * b \<le> usize_max then Ret (a * b) else Panic)"

text \<open>The preimage of the address: RLP of sender and nonce, or the 85 bytes of \<open>CREATE2\<close>.\<close>

definition address_preimage ::
  "('t, 'r) ext \<Rightarrow> ('t, 'r) world_state \<Rightarrow> address \<Rightarrow> byte list \<Rightarrow> u256 option \<Rightarrow>
   (byte list \<times> ('t, 'r) world_state) res" where
  "address_preimage X ws sender init_code salt =
     (case salt of
        None \<Rightarrow>
          bindR (get_nonce X ws sender) (\<lambda>(n, ws1).
          bindR (unwrap n) (\<lambda>n1.
          if n1 = 0 then Panic
          else
            let nonce = n1 - 1;
                payload_length = x_rlp_bytes_len X (address_bytes sender) + x_rlp_u64_len X nonce in
            Ret (x_rlp_header X payload_length @ x_rlp_bytes X (address_bytes sender) @
                 x_rlp_u64 X nonce, ws1)))
      | Some s \<Rightarrow>
          Ret (0xff # address_bytes sender @ to_be_bytes s @
               to_be_bytes (x_keccak256 X init_code), ws))"

definition is_collision ::
  "('t, 'r) ext \<Rightarrow> ('t, 'r) world_state \<Rightarrow> address \<Rightarrow> (bool \<times> ('t, 'r) world_state) res" where
  "is_collision X ws addr =
     bindR (get_nonce X ws addr) (\<lambda>(n, ws1).
     bindR (get_code X ws1 addr) (\<lambda>(c, ws2).
     if unwrap_or n 0 \<noteq> 0 \<or> unwrap_or c [] \<noteq> [] then Ret (True, ws2)
     else bindR (is_storage_empty X ws2 addr) (\<lambda>(empty, ws3). Ret (\<not> empty, ws3))))"

text \<open>Nonce 1 for the new account, from EIP-161 on.\<close>

definition new_nonce ::
  "('t, 'r) ext \<Rightarrow> address \<Rightarrow> leviathan \<Rightarrow> ('t, 'r) world_state \<Rightarrow> (leviathan \<times> ('t, 'r) world_state) res"
where
  "new_nonce X addr lv ws =
     (if SpuriousDragon \<le> lv_version lv then journaled X (AddNonce addr) (inc_nonce addr) lv ws
      else Ret (lv, ws))"

text \<open>Endowment, empty storage root and empty code of the new account.\<close>

definition endow_account ::
  "('t, 'r) ext \<Rightarrow> address \<Rightarrow> address \<Rightarrow> u256 \<Rightarrow> leviathan \<Rightarrow> ('t, 'r) world_state \<Rightarrow>
   (leviathan \<times> ('t, 'r) world_state) res" where
  "endow_account X sender addr eth lv ws =
     bindR (ensure_account X (lv_version lv) addr lv ws) (\<lambda>(lv1, ws1).
     bindR (journaled X (SendEth sender addr eth) (transfer_eth sender addr eth) lv1 ws1) (\<lambda>(lv2, ws2).
     bindR (journaled X (ResetStorage addr 0) (reset_storage addr) lv2 ws2) (\<lambda>(lv3, ws3).
     journaled X (StoreCode addr []) (set_code addr []) lv3 ws3)))"

text \<open>\<open>False\<close> is the early return for a dead sender: what was done so far is not undone.\<close>

definition init_account ::
  "('t, 'r) ext \<Rightarrow> address \<Rightarrow> address \<Rightarrow> u256 \<Rightarrow> leviathan \<Rightarrow> ('t, 'r) world_state \<Rightarrow>
   (bool \<times> leviathan \<times> ('t, 'r) world_state) res" where
  "init_account X sender addr eth lv ws =
     bindR (ensure_account X (lv_version lv) addr lv ws) (\<lambda>(lv1, ws1).
     bindR (new_nonce X addr lv1 ws1) (\<lambda>(lv2, ws2).
     bindR (is_dead X (lv_version lv2) ws2 sender) (\<lambda>(dead, ws3).
     if dead then Ret (False, lv2, ws3)
     else bindR (endow_account X sender addr eth lv2 ws3) (\<lambda>(lv3, ws4). Ret (True, lv3, ws4)))))"

text \<open>The code deposit after a successful initialisation; \<open>None\<close> is an exceptional halt.\<close>

definition deposit_code ::
  "VersionId \<Rightarrow> address \<Rightarrow> u256 \<Rightarrow> byte list \<Rightarrow> ('t, 'r) world_state \<Rightarrow>
   (u256 \<times> ('t, 'r) world_state) option res" where
  "deposit_code v addr rest_gas output ws =
     bindR (usize_mul 200 (length output)) (\<lambda>d.
     let deposit_gas = of_nat d in
     if Homestead \<le> v then
       if deposit_gas > rest_gas then Ret None
       else if SpuriousDragon \<le> v \<and> length output > 24576 then Ret None
       else if London \<le> v \<and> output \<noteq> [] \<and> output ! 0 = 0xef then Ret None
       else bindR (set_code addr output ws) (\<lambda>ws1. Ret (Some (rest_gas - deposit_gas, ws1)))
     else if deposit_gas < rest_gas then
       bindR (set_code addr output ws) (\<lambda>ws1. Ret (Some (rest_gas - deposit_gas, ws1)))
     else Ret (Some (rest_gas, ws)))"

definition contract_creation ::
  "('t, 'r) ext \<Rightarrow> ('t, 'r) runner \<Rightarrow> leviathan \<Rightarrow> ('t, 'r) world_state \<Rightarrow> substate \<Rightarrow>
   address \<Rightarrow> address \<Rightarrow> u256 \<Rightarrow> u256 \<Rightarrow> u256 \<Rightarrow> byte list \<Rightarrow> usize \<Rightarrow> u256 option \<Rightarrow> bool \<Rightarrow>
   block_header \<Rightarrow> (call_result \<times> ('t, 'r) call_state) res" where
  "contract_creation X run lv ws ss sender origin gas_in price eth init_code depth salt sudo header =
     bindR (address_preimage X ws sender init_code salt) (\<lambda>(bytes, ws1).
     let contract_address = from_word (x_keccak256 X bytes) in
     bindR (is_collision X ws1 contract_address) (\<lambda>(collision, ws2).
     if collision then Ret (CErr 0 None None, lv, ws2, ss)
     else
       let ss1 = ss\<lparr>a_access := push_new contract_address (a_access ss)\<rparr>;
           lv1 = lv\<lparr>lv_substate_backup := backup ss1\<rparr>;
           ss2 = ss1\<lparr>a_touch := push_new contract_address (a_touch ss1)\<rparr> in
       bindR (init_account X sender contract_address eth lv1 ws2) (\<lambda>(ok, lv2, ws3).
       if \<not> ok then Ret (CErr gas_in None None, lv2, ws3, ss2)
       else
         let env = \<lparr>i_address = contract_address, i_origin = origin, i_gas_price = price, i_data = [],
               i_sender = sender, i_value = eth, i_byte = init_code, i_block_header = header,
               i_depth = depth, i_permission = sudo\<rparr>;
             evm = (evm_new env (lv_version lv2))\<lparr>e_gas := gas_in\<rparr> in
         bindR (run env evm lv2 ws3 ss2) (\<lambda>(result, evm1, lv3, ws4, ss3).
         case result of
           ROk output \<Rightarrow>
             bindR (deposit_code (lv_version lv3) contract_address (fst (return_gas evm1)) output ws4)
               (\<lambda>dep.
             case dep of
               None \<Rightarrow> bindR (undo_frame lv3 ws4 ss3) (\<lambda>st. Ret (CErr 0 None None, st))
             | Some (g, ws5) \<Rightarrow> Ret (COk g [] (Some contract_address), lv3, ws5, ss3))
         | RErr (Some revert_data) \<Rightarrow>
             bindR (undo_frame lv3 ws4 ss3) (\<lambda>st.
             Ret (CErr (fst (return_gas evm1)) (Some revert_data) None, st))
         | RErr None \<Rightarrow>
             bindR (undo_frame lv3 ws4 ss3) (\<lambda>st. Ret (CErr 0 None None, st))))))"

section \<open>Call opcodes\<close>

text \<open>Memory growth for both ranges, then the input data.\<close>

definition call_input :: "usize \<Rightarrow> usize \<Rightarrow> usize \<Rightarrow> usize \<Rightarrow> evm \<Rightarrow> (byte list \<times> evm) res" where
  "call_input in_offset in_size out_offset out_size evm =
     (let in_end = (if in_size = 0 then 0 else usize_sat_add in_offset in_size);
          out_end = (if out_size = 0 then 0 else usize_sat_add out_offset out_size);
          max_end = max in_end out_end in
      bindR (if max_end > length (e_memory evm)
             then bindR (grow_memory max_end evm) (\<lambda>evm1. Ret (update_active_words evm1))
             else Ret evm) (\<lambda>evm1.
      if in_size > 0 then
        bindR (slice_of (e_memory evm1) in_offset (usize_sat_add in_offset in_size)) (\<lambda>data.
        Ret (data, evm1))
      else Ret ([], evm1)))"

definition write_output :: "usize \<Rightarrow> usize \<Rightarrow> byte list \<Rightarrow> evm \<Rightarrow> evm res" where
  "write_output out_offset out_size return_data evm =
     (let write_size = min out_size (length return_data) in
      if write_size > 0 then
        store_memory out_offset (usize_sat_add out_offset write_size) (take write_size return_data) evm
      else Ret evm)"

text \<open>What the four call opcodes do with the result of the sub-call.\<close>

definition finish_call ::
  "usize \<Rightarrow> usize \<Rightarrow> call_result \<Rightarrow> leviathan \<Rightarrow> evm \<Rightarrow> leviathan \<Rightarrow> (evm \<times> leviathan) res" where
  "finish_call out_offset out_size result child_leviathan evm lv =
     (case result of
        COk g return_data _ \<Rightarrow>
          bindR (write_output out_offset out_size return_data evm) (\<lambda>evm1.
          Ret (push 1 (evm1\<lparr>e_return_back := return_data, e_gas := e_gas evm1 + g\<rparr>),
               merge lv child_leviathan))
      | CErr g (Some return_data) _ \<Rightarrow>
          bindR (write_output out_offset out_size return_data evm) (\<lambda>evm1.
          Ret (push 0 (evm1\<lparr>e_return_back := return_data, e_gas := e_gas evm1 + g\<rparr>), lv))
      | CErr _ None _ \<Rightarrow> Ret (push 0 (evm\<lparr>e_return_back := []\<rparr>), lv))"

type_synonym ('t, 'r) op_state = "evm \<times> leviathan \<times> ('t, 'r) world_state \<times> substate"

text \<open>
  The common end of the four call opcodes: the failed pre-check that gives the gas back, or the
  sub-call on a fresh journal.
\<close>

definition call_body ::
  "('t, 'r) ext \<Rightarrow> ('t, 'r) runner \<Rightarrow> exec_env \<Rightarrow> bool \<Rightarrow> address \<Rightarrow> address \<Rightarrow> address \<Rightarrow> u256 \<Rightarrow>
   u256 \<Rightarrow> u256 \<Rightarrow> byte list \<Rightarrow> bool \<Rightarrow> usize \<Rightarrow> usize \<Rightarrow> evm \<Rightarrow> leviathan \<Rightarrow> ('t, 'r) world_state \<Rightarrow>
   substate \<Rightarrow> ('t, 'r) op_state res" where
  "call_body X run env is_balance sender recipient contract gas_in eth apparent_value data sudo
     out_offset out_size evm lv ws ss =
     (if is_balance \<or> i_depth env \<ge> 1024 then
        Ret (push 0 (evm\<lparr>e_gas := e_gas evm + gas_in\<rparr>), lv, ws, ss)
      else
        bindR (message_call X run (leviathan_new (e_version evm)) ws ss sender (i_origin env) recipient
          contract gas_in (i_gas_price env) eth apparent_value data (i_depth env + 1) sudo
          (i_block_header env))
          (\<lambda>(result, child, ws1, ss1).
        bindR (finish_call out_offset out_size result child evm lv) (\<lambda>(evm1, lv1).
        Ret (evm1, lv1, ws1, ss1))))"

definition call_opcode ::
  "('t, 'r) ext \<Rightarrow> ('t, 'r) runner \<Rightarrow> exec_env \<Rightarrow> evm \<Rightarrow> leviathan \<Rightarrow> ('t, 'r) world_state \<Rightarrow>
   substate \<Rightarrow> ('t, 'r) op_state res" where
  "call_opcode X run env evm lv ws ss =
     bindR (pop evm) (\<lambda>(_, evm1). bindR (pop evm1) (\<lambda>(to, evm2). bindR (pop evm2) (\<lambda>(value, evm3).
     bindR (pop evm3) (\<lambda>(io, evm4). bindR (pop evm4) (\<lambda>(is, evm5).
     bindR (pop evm5) (\<lambda>(oo, evm6). bindR (pop evm6) (\<lambda>(os, evm7).
     let to_address = from_word to in
     bindR (call_input (to_usize io) (to_usize is) (to_usize oo) (to_usize os) evm7) (\<lambda>(data, evm8).
     let ss1 = ss\<lparr>a_access := push_new to_address (a_access ss)\<rparr> in
     case e_child_gas_mem evm8 of
       None \<Rightarrow> Ret (push 0 evm8, lv, ws, ss1)
     | Some g \<Rightarrow>
         let child_gas = (if value > 0 then sat_add g 2300 else g);
             evm9 = evm8\<lparr>e_child_gas_mem := None\<rparr> in
         bindR (get_balance X ws (i_address env)) (\<lambda>(b, ws1).
         call_body X run env (unwrap_or b 0 < value) (i_address env) to_address to_address child_gas
           value value data (i_permission env) (to_usize oo) (to_usize os) evm9 lv ws1 ss1)))))))))"

definition callcode_opcode ::
  "('t, 'r) ext \<Rightarrow> ('t, 'r) runner \<Rightarrow> exec_env \<Rightarrow> evm \<Rightarrow> leviathan \<Rightarrow> ('t, 'r) world_state \<Rightarrow>
   substate \<Rightarrow> ('t, 'r) op_state res" where
  "callcode_opcode X run env evm lv ws ss =
     bindR (pop evm) (\<lambda>(_, evm1). bindR (pop evm1) (\<lambda>(to, evm2). bindR (pop evm2) (\<lambda>(value, evm3).
     bindR (pop evm3) (\<lambda>(io, evm4). bindR (pop evm4) (\<lambda>(is, evm5).
     bindR (pop evm5) (\<lambda>(oo, evm6). bindR (pop evm6) (\<lambda>(os, evm7).
     let to_address = from_word to in
     bindR (call_input (to_usize io) (to_usize is) (to_usize oo) (to_usize os) evm7) (\<lambda>(data, evm8).
     let ss1 = ss\<lparr>a_access := push_new to_address (a_access ss)\<rparr> in
     case e_child_gas_mem evm8 of
       None \<Rightarrow> Ret (push 0 evm8, lv, ws, ss1)
     | Some g \<Rightarrow>
         let evm9 = evm8\<lparr>e_child_gas_mem := None\<rparr>;
             child_gas = (if value > 0 then sat_add g 2300 else g) in
         bindR (get_balance X ws (i_address env)) (\<lambda>(b, ws1).
         call_body X run env (unwrap_or b 0 < value) (i_address env) (i_address env) to_address child_gas
           value value data (i_permission env) (to_usize oo) (to_usize os) evm9 lv ws1 ss1)))))))))"

definition delegatecall_opcode ::
  "('t, 'r) ext \<Rightarrow> ('t, 'r) runner \<Rightarrow> exec_env \<Rightarrow> evm \<Rightarrow> leviathan \<Rightarrow> ('t, 'r) world_state \<Rightarrow>
   substate \<Rightarrow> ('t, 'r) op_state res" where
  "delegatecall_opcode X run env evm lv ws ss =
     bindR (pop evm) (\<lambda>(_, evm1). bindR (pop evm1) (\<lambda>(to, evm2).
     bindR (pop evm2) (\<lambda>(io, evm4). bindR (pop evm4) (\<lambda>(is, evm5).
     bindR (pop evm5) (\<lambda>(oo, evm6). bindR (pop evm6) (\<lambda>(os, evm7).
     let to_address = from_word to in
     bindR (call_input (to_usize io) (to_usize is) (to_usize oo) (to_usize os) evm7) (\<lambda>(data, evm8).
     case e_child_gas_mem evm8 of
       None \<Rightarrow> Ret (push 0 evm8, lv, ws, ss)
     | Some g \<Rightarrow>
         let ss1 = ss\<lparr>a_access := push_new to_address (a_access ss)\<rparr>;
             evm9 = evm8\<lparr>e_child_gas_mem := None\<rparr> in
         call_body X run env False (i_sender env) (i_address env) to_address g 0 (i_value env) data
           (i_permission env) (to_usize oo) (to_usize os) evm9 lv ws ss1)))))))"

definition staticcall_opcode ::
  "('t, 'r) ext \<Rightarrow> ('t, 'r) runner \<Rightarrow> exec_env \<Rightarrow> evm \<Rightarrow> leviathan \<Rightarrow> ('t, 'r) world_state \<Rightarrow>
   substate \<Rightarrow> ('t, 'r) op_state res" where
  "staticcall_opcode X run env evm lv ws ss =
     bindR (pop evm) (\<lambda>(_, evm1). bindR (pop evm1) (\<lambda>(to, evm2).
     bindR (pop evm2) (\<lambda>(io, evm4). bindR (pop evm4) (\<lambda>(is, evm5).
     bindR (pop evm5) (\<lambda>(oo, evm6). bindR (pop evm6) (\<lambda>(os, evm7).
     let to_address = from_word to in
     bindR (call_input (to_usize io) (to_usize is) (to_usize oo) (to_usize os) evm7) (\<lambda>(data, evm8).
     let ss1 = ss\<lparr>a_access := push_new to_address (a_access ss)\<rparr> in
     case e_child_gas_mem evm8 of
       None \<Rightarrow> Ret (push 0 evm8, lv, ws, ss1)
     | Some g \<Rightarrow>
         let evm9 = evm8\<lparr>e_child_gas_mem := None\<rparr> in
         call_body X run env False (i_address env) to_address to_address g 0 0 data
           False (to_usize oo) (to_usize os) evm9 lv ws ss1)))))))"

section \<open>Create opcodes\<close>

text \<open>The init code: memory is grown and counted only when the range is not yet covered.\<close>

definition init_code_input :: "usize \<Rightarrow> usize \<Rightarrow> evm \<Rightarrow> (byte list \<times> evm) res" where
  "init_code_input offset sz evm =
     (if sz > 0 then
        let required_size = usize_sat_add offset sz in
        bindR (if required_size > length (e_memory evm)
               then bindR (grow_memory required_size evm) (\<lambda>evm1. Ret (update_active_words evm1))
               else Ret evm) (\<lambda>evm1.
        bindR (slice_of (e_memory evm1) offset required_size) (\<lambda>data. Ret (data, evm1)))
      else Ret ([], evm))"

definition finish_create ::
  "call_result \<Rightarrow> leviathan \<Rightarrow> evm \<Rightarrow> leviathan \<Rightarrow> (evm \<times> leviathan) res" where
  "finish_create result child_leviathan evm lv =
     (case result of
        COk g _ (Some contract_address) \<Rightarrow>
          Ret (push (into_word contract_address) (evm\<lparr>e_gas := e_gas evm + g, e_return_back := []\<rparr>),
               merge lv child_leviathan)
      | CErr g (Some return_data) _ \<Rightarrow>
          Ret (push 0 (evm\<lparr>e_gas := e_gas evm + g, e_return_back := return_data\<rparr>), lv)
      | CErr _ None _ \<Rightarrow> Ret (push 0 evm, lv)
      | COk _ _ None \<Rightarrow> Panic)"

text \<open>The body shared by \<open>CREATE\<close> and \<open>CREATE2\<close> once the operands are popped.\<close>

definition create_body ::
  "('t, 'r) ext \<Rightarrow> ('t, 'r) runner \<Rightarrow> exec_env \<Rightarrow> u256 \<Rightarrow> usize \<Rightarrow> usize \<Rightarrow> u256 option \<Rightarrow> evm \<Rightarrow>
   leviathan \<Rightarrow> ('t, 'r) world_state \<Rightarrow> substate \<Rightarrow> ('t, 'r) op_state res" where
  "create_body X run env value offset sz salt evm lv ws ss =
     bindR (init_code_input offset sz evm) (\<lambda>(data, evm1).
     bindR (get_balance X ws (i_address env)) (\<lambda>(b, ws1).
     let is_balance = unwrap_or b 0 < value;
         is_deepth = i_depth env \<ge> 1024;
         is_code_size = (Shanghai \<le> e_version evm \<and> length data > 49152) in
     if is_balance \<or> is_deepth \<or> is_code_size then Ret (push 0 evm1, lv, ws1, ss)
     else
       bindR (journaled X (AddNonce (i_address env)) (inc_nonce (i_address env)) lv ws1) (\<lambda>(lv1, ws2).
       let child_gas = (if e_version evm < TangerineWhistle then e_gas evm1
             else e_gas evm1 - e_gas evm1 div 64);
           evm2 = evm1\<lparr>e_gas := sat_sub (e_gas evm1) child_gas\<rparr> in
       bindR (contract_creation X run (leviathan_new (e_version evm)) ws2 ss (i_address env)
         (i_origin env) child_gas (i_gas_price env) value data (i_depth env + 1) salt
         (i_permission env) (i_block_header env))
         (\<lambda>(result, child, ws3, ss1).
       bindR (finish_create result child evm2 lv1) (\<lambda>(evm3, lv2). Ret (evm3, lv2, ws3, ss1))))))"

definition create_opcode ::
  "('t, 'r) ext \<Rightarrow> ('t, 'r) runner \<Rightarrow> exec_env \<Rightarrow> evm \<Rightarrow> leviathan \<Rightarrow> ('t, 'r) world_state \<Rightarrow>
   substate \<Rightarrow> ('t, 'r) op_state res" where
  "create_opcode X run env evm lv ws ss =
     bindR (pop evm) (\<lambda>(value, evm1). bindR (pop evm1) (\<lambda>(offset, evm2). bindR (pop evm2) (\<lambda>(size, evm3).
     create_body X run env value (to_usize offset) (to_usize size) None evm3 lv ws ss)))"

definition create2_opcode ::
  "('t, 'r) ext \<Rightarrow> ('t, 'r) runner \<Rightarrow> exec_env \<Rightarrow> evm \<Rightarrow> leviathan \<Rightarrow> ('t, 'r) world_state \<Rightarrow>
   substate \<Rightarrow> ('t, 'r) op_state res" where
  "create2_opcode X run env evm lv ws ss =
     bindR (pop evm) (\<lambda>(value, evm1). bindR (pop evm1) (\<lambda>(offset, evm2). bindR (pop evm2) (\<lambda>(size, evm3).
     bindR (pop evm3) (\<lambda>(salt, evm4).
     create_body X run env value (to_usize offset) (to_usize size) (Some salt) evm4 lv ws ss))))"

section \<open>Dispatch\<close>

definition advance_pc :: "nat \<Rightarrow> evm \<Rightarrow> evm res" where
  "advance_pc opcode evm =
     (if opcode = 0x56 then
        bindR (pop evm) (\<lambda>(d, evm1). Ret (evm1\<lparr>e_pc := to_usize d\<rparr>))
      else if opcode = 0x57 then
        bindR (pop evm) (\<lambda>(d, evm1). bindR (pop evm1) (\<lambda>(f, evm2).
        if to_usize f \<noteq> 0 then Ret (evm2\<lparr>e_pc := to_usize d\<rparr>)
        else Ret (evm2\<lparr>e_pc := e_pc evm2 + 1\<rparr>)))
      else if 0x60 \<le> opcode \<and> opcode \<le> 0x7f then
        Ret (evm\<lparr>e_pc := e_pc evm + opcode - 0x5e\<rparr>)
      else Ret (evm\<lparr>e_pc := e_pc evm + 1\<rparr>))"

text \<open>The opcodes that change only the machine.\<close>

definition is_machine_op :: "nat \<Rightarrow> bool" where
  "is_machine_op opcode \<longleftrightarrow>
     (0x01 \<le> opcode \<and> opcode \<le> 0x0b) \<or> (0x10 \<le> opcode \<and> opcode \<le> 0x1d) \<or> opcode = 0x20 \<or>
     opcode = 0x35 \<or> opcode = 0x37 \<or> opcode = 0x39 \<or> opcode = 0x3e \<or>
     (0x50 \<le> opcode \<and> opcode \<le> 0x53) \<or> (0x56 \<le> opcode \<and> opcode \<le> 0x5b) \<or>
     (0x5f \<le> opcode \<and> opcode \<le> 0x9f)"

definition machine_op :: "('t, 'r) ext \<Rightarrow> nat \<Rightarrow> exec_env \<Rightarrow> evm \<Rightarrow> evm res" where
  "machine_op X opcode env evm =
     (if 0x01 \<le> opcode \<and> opcode \<le> 0x0b then arithmetic_opcodes opcode evm
      else if 0x10 \<le> opcode \<and> opcode \<le> 0x1d then comparison_bitwise_opcodes opcode evm
      else if opcode = 0x20 then keccak256_opcode X evm
      else if opcode = 0x35 then calldataload_opcode env evm
      else if opcode = 0x37 then calldatacopy_opcode env evm
      else if opcode = 0x39 then codecopy_opcode env evm
      else if opcode = 0x3e then returndatacopy_opcode evm
      else if opcode = 0x50 then bindR (pop evm) (\<lambda>(_, evm1). Ret evm1)
      else if opcode = 0x51 then mload_opcode evm
      else if opcode = 0x52 then mstore_opcode evm
      else if opcode = 0x53 then mstore8_opcode evm
      else if opcode = 0x56 \<or> opcode = 0x57 then Ret evm
      else if opcode = 0x58 then Ret (push (of_nat (e_pc evm - 1)) evm)
      else if opcode = 0x59 then Ret (push (of_nat (length (e_memory evm))) evm)
      else if opcode = 0x5a then Ret (push (e_gas evm) evm)
      else if opcode = 0x5b then Ret evm
      else if opcode = 0x5f then Ret (push 0 evm)
      else if 0x60 \<le> opcode \<and> opcode \<le> 0x7f then push_opcode opcode env evm
      else if 0x80 \<le> opcode \<and> opcode \<le> 0x8f then dup_opcode opcode evm
      else if 0x90 \<le> opcode \<and> opcode \<le> 0x9f then swap_opcode opcode evm
      else Panic)"

text \<open>\<open>Some True\<close> is \<open>REVERT\<close>, \<open>Some False\<close> a normal halt, \<open>None\<close> continues.\<close>

definition dispatch ::
  "('t, 'r) ext \<Rightarrow> ('t, 'r) runner \<Rightarrow> nat \<Rightarrow> exec_env \<Rightarrow> evm \<Rightarrow> leviathan \<Rightarrow> ('t, 'r) world_state \<Rightarrow>
   substate \<Rightarrow> (bool option \<times> ('t, 'r) op_state) res" where
  "dispatch X run opcode env evm lv ws ss =
     (if opcode = 0x00 then Ret (Some False, evm\<lparr>e_return_back := []\<rparr>, lv, ws, ss)
      else if is_machine_op opcode then
        bindR (machine_op X opcode env evm) (\<lambda>evm1. Ret (None, evm1, lv, ws, ss))
      else if (0x30 \<le> opcode \<and> opcode \<le> 0x34) \<or> opcode = 0x36 \<or> opcode = 0x38 \<or> opcode = 0x3a \<or>
              opcode = 0x3b \<or> opcode = 0x3d \<or> opcode = 0x3f then
        bindR (environmental_info_opcode X opcode env evm ws ss) (\<lambda>(evm1, ws1, ss1).
        Ret (None, evm1, lv, ws1, ss1))
      else if opcode = 0x3c then
        bindR (extcodecopy_opcode X evm ws ss) (\<lambda>(evm1, ws1, ss1). Ret (None, evm1, lv, ws1, ss1))
      else if 0x40 \<le> opcode \<and> opcode \<le> 0x48 then
        bindR (block_info_opcode X opcode env evm ws) (\<lambda>(evm1, ws1). Ret (None, evm1, lv, ws1, ss))
      else if opcode = 0x54 then
        bindR (sload_opcode X env evm ws ss) (\<lambda>(evm1, ws1, ss1). Ret (None, evm1, lv, ws1, ss1))
      else if opcode = 0x55 then
        bindR (sstore_opcode X env evm lv ws ss) (\<lambda>st. Ret (None, st))
      else if 0xa0 \<le> opcode \<and> opcode \<le> 0xa4 then
        bindR (log_opcode opcode env evm ss) (\<lambda>(evm1, ss1). Ret (None, evm1, lv, ws, ss1))
      else if opcode = 0xf0 then bindR (create_opcode X run env evm lv ws ss) (\<lambda>st. Ret (None, st))
      else if opcode = 0xf1 then bindR (call_opcode X run env evm lv ws ss) (\<lambda>st. Ret (None, st))
      else if opcode = 0xf2 then bindR (callcode_opcode X run env evm lv ws ss) (\<lambda>st. Ret (None, st))
      else if opcode = 0xf4 then
        bindR (delegatecall_opcode X run env evm lv ws ss) (\<lambda>st. Ret (None, st))
      else if opcode = 0xf5 then bindR (create2_opcode X run env evm lv ws ss) (\<lambda>st. Ret (None, st))
      else if opcode = 0xf3 then
        bindR (return_opcode evm) (\<lambda>evm1. Ret (Some False, evm1, lv, ws, ss))
      else if opcode = 0xfa then
        bindR (staticcall_opcode X run env evm lv ws ss) (\<lambda>st. Ret (None, st))
      else if opcode = 0xfd then
        bindR (return_opcode evm) (\<lambda>evm1. Ret (Some True, evm1, lv, ws, ss))
      else if opcode = 0xff then
        bindR (selfdestruct_opcode X env evm lv ws ss) (\<lambda>st. Ret (Some False, st))
      else Panic)"

definition execution ::
  "('t, 'r) ext \<Rightarrow> ('t, 'r) runner \<Rightarrow> nat \<Rightarrow> exec_env \<Rightarrow> evm \<Rightarrow> leviathan \<Rightarrow> ('t, 'r) world_state \<Rightarrow>
   substate \<Rightarrow> (bool option \<times> ('t, 'r) op_state) res" where
  "execution X run opcode env evm lv ws ss =
     bindR (gas X opcode ss env evm ws) (\<lambda>(gas_cost, evm1, ws1).
     bindR (advance_pc opcode (evm1\<lparr>e_gas := sat_sub (e_gas evm1) gas_cost\<rparr>)) (\<lambda>evm2.
     dispatch X run opcode env evm2 lv ws1 ss))"

section \<open>The loop\<close>

definition current_opcode :: "byte list \<Rightarrow> usize \<Rightarrow> nat" where
  "current_opcode code pc = (if length code \<le> pc then 0x00 else unat (code ! pc))"

definition evm_iter :: "('t, 'r) ext \<Rightarrow> ('t, 'r) runner \<Rightarrow> ('t, 'r) runner" where
  "evm_iter X run env evm lv ws ss =
     (let opcode = current_opcode (i_byte env) (e_pc evm) in
      bindR (is_safe X opcode ss env evm ws) (\<lambda>(safe, evm1, ws1).
      if \<not> safe then Ret (RErr None, evm1, lv, ws1, ss)
      else
        bindR (gas X opcode ss env evm1 ws1) (\<lambda>(_, evm2, ws2).
        bindR (execution X run opcode env evm2 lv ws2 ss) (\<lambda>(result, evm3, lv1, ws3, ss1).
        case result of
          Some True \<Rightarrow> Ret (RErr (Some (e_return_back evm3)), evm3, lv1, ws3, ss1)
        | Some False \<Rightarrow> Ret (ROk (e_return_back evm3), evm3, lv1, ws3, ss1)
        | None \<Rightarrow> run env evm3 lv1 ws3 ss1))))"

primrec evm_run :: "('t, 'r) ext \<Rightarrow> nat \<Rightarrow> ('t, 'r) runner" where
  "evm_run X 0 = (\<lambda>env evm lv ws ss. OutOfFuel)"
| "evm_run X (Suc n) = evm_iter X (evm_run X n)"

section \<open>Case analysis over the dispatch\<close>

lemma dispatch_cases:
  assumes "dispatch X run opcode env evm lv ws ss = Ret (r, evm', lv', ws', ss')"
  obtains
    (stop) "opcode = 0x00" "r = Some False"
      "evm' = evm\<lparr>e_return_back := []\<rparr>" "lv' = lv" "ws' = ws" "ss' = ss"
  | (machine) "is_machine_op opcode" "r = None"
      "machine_op X opcode env evm = Ret evm'" "lv' = lv" "ws' = ws" "ss' = ss"
  | (environmental) "(0x30 \<le> opcode \<and> opcode \<le> 0x34) \<or> opcode = 0x36 \<or> opcode = 0x38 \<or>
        opcode = 0x3a \<or> opcode = 0x3b \<or> opcode = 0x3d \<or> opcode = 0x3f" "r = None"
      "environmental_info_opcode X opcode env evm ws ss = Ret (evm', ws', ss')" "lv' = lv"
  | (extcodecopy) "opcode = 0x3c" "r = None"
      "extcodecopy_opcode X evm ws ss = Ret (evm', ws', ss')" "lv' = lv"
  | (block) "0x40 \<le> opcode \<and> opcode \<le> 0x48" "r = None"
      "block_info_opcode X opcode env evm ws = Ret (evm', ws')" "lv' = lv" "ss' = ss"
  | (sload) "opcode = 0x54" "r = None"
      "sload_opcode X env evm ws ss = Ret (evm', ws', ss')" "lv' = lv"
  | (sstore) "opcode = 0x55" "r = None"
      "sstore_opcode X env evm lv ws ss = Ret (evm', lv', ws', ss')"
  | (log) "0xa0 \<le> opcode \<and> opcode \<le> 0xa4" "r = None"
      "log_opcode opcode env evm ss = Ret (evm', ss')" "lv' = lv" "ws' = ws"
  | (create) "opcode = 0xf0" "r = None"
      "create_opcode X run env evm lv ws ss = Ret (evm', lv', ws', ss')"
  | (call) "opcode = 0xf1" "r = None"
      "call_opcode X run env evm lv ws ss = Ret (evm', lv', ws', ss')"
  | (callcode) "opcode = 0xf2" "r = None"
      "callcode_opcode X run env evm lv ws ss = Ret (evm', lv', ws', ss')"
  | (delegatecall) "opcode = 0xf4" "r = None"
      "delegatecall_opcode X run env evm lv ws ss = Ret (evm', lv', ws', ss')"
  | (create2) "opcode = 0xf5" "r = None"
      "create2_opcode X run env evm lv ws ss = Ret (evm', lv', ws', ss')"
  | (return) "opcode = 0xf3" "r = Some False"
      "return_opcode evm = Ret evm'" "lv' = lv" "ws' = ws" "ss' = ss"
  | (staticcall) "opcode = 0xfa" "r = None"
      "staticcall_opcode X run env evm lv ws ss = Ret (evm', lv', ws', ss')"
  | (revert) "opcode = 0xfd" "r = Some True"
      "return_opcode evm = Ret evm'" "lv' = lv" "ws' = ws" "ss' = ss"
  | (selfdestruct) "opcode = 0xff" "r = Some False"
      "selfdestruct_opcode X env evm lv ws ss = Ret (evm', lv', ws', ss')"
  using assms unfolding dispatch_def
  apply (split if_split_asm)
  subgoal premises p by (rule p(1)) (use p(18-) in auto)
  apply (split if_split_asm)
  subgoal premises p by (rule p(2)) (use p(18-) in auto)
  apply (split if_split_asm)
  subgoal premises p by (rule p(3)) (use p(18-) in auto)
  apply (split if_split_asm)
  subgoal premises p by (rule p(4)) (use p(18-) in auto)
  apply (split if_split_asm)
  subgoal premises p by (rule p(5)) (use p(18-) in auto)
  apply (split if_split_asm)
  subgoal premises p by (rule p(6)) (use p(18-) in auto)
  apply (split if_split_asm)
  subgoal premises p by (rule p(7)) (use p(18-) in auto)
  apply (split if_split_asm)
  subgoal premises p by (rule p(8)) (use p(18-) in auto)
  apply (split if_split_asm)
  subgoal premises p by (rule p(9)) (use p(18-) in auto)
  apply (split if_split_asm)
  subgoal premises p by (rule p(10)) (use p(18-) in auto)
  apply (split if_split_asm)
  subgoal premises p by (rule p(11)) (use p(18-) in auto)
  apply (split if_split_asm)
  subgoal premises p by (rule p(12)) (use p(18-) in auto)
  apply (split if_split_asm)
  subgoal premises p by (rule p(13)) (use p(18-) in auto)
  apply (split if_split_asm)
  subgoal premises p by (rule p(14)) (use p(18-) in auto)
  apply (split if_split_asm)
  subgoal premises p by (rule p(15)) (use p(18-) in auto)
  apply (split if_split_asm)
  subgoal premises p by (rule p(16)) (use p(18-) in auto)
  apply (split if_split_asm)
  subgoal premises p by (rule p(17)) (use p(18-) in auto)
  apply simp
  done

section \<open>Case analysis over the call opcodes\<close>

text \<open>
  A call opcode that returns has popped its operands, read its input and either found no child gas
  or run the common body.
\<close>

lemma call_opcode_cases:
  assumes "call_opcode X run env evm lv ws ss = Ret st"
  obtains g0 to val io isz oo osz rest data evm8 ss1 where
    "e_stack evm = g0 # to # val # io # isz # oo # osz # rest"
    "call_input (to_usize io) (to_usize isz) (to_usize oo) (to_usize osz) (evm\<lparr>e_stack := rest\<rparr>) = Ret (data, evm8)"
    "ss1 = ss\<lparr>a_access := push_new (from_word to) (a_access ss)\<rparr>"
    "(e_child_gas_mem evm8 = None \<and> st = (push 0 evm8, lv, ws, ss1)) \<or>
     (\<exists>g b ws1. e_child_gas_mem evm8 = Some g \<and> get_balance X ws (i_address env) = Ret (b, ws1) \<and>
        call_body X run env (unwrap_or b 0 < val) (i_address env) (from_word to) (from_word to)
          (if val > 0 then sat_add g 2300 else g) val val data (i_permission env)
          (to_usize oo) (to_usize osz) (evm8\<lparr>e_child_gas_mem := None\<rparr>) lv ws1 ss1 = Ret st)"
  using assms unfolding call_opcode_def Let_def
  by (elim RetE) (fastforce simp: pop_eq_Ret split: option.splits)

lemma callcode_opcode_cases:
  assumes "callcode_opcode X run env evm lv ws ss = Ret st"
  obtains g0 to val io isz oo osz rest data evm8 ss1 where
    "e_stack evm = g0 # to # val # io # isz # oo # osz # rest"
    "call_input (to_usize io) (to_usize isz) (to_usize oo) (to_usize osz) (evm\<lparr>e_stack := rest\<rparr>) = Ret (data, evm8)"
    "ss1 = ss\<lparr>a_access := push_new (from_word to) (a_access ss)\<rparr>"
    "(e_child_gas_mem evm8 = None \<and> st = (push 0 evm8, lv, ws, ss1)) \<or>
     (\<exists>g b ws1. e_child_gas_mem evm8 = Some g \<and> get_balance X ws (i_address env) = Ret (b, ws1) \<and>
        call_body X run env (unwrap_or b 0 < val) (i_address env) (i_address env) (from_word to)
          (if val > 0 then sat_add g 2300 else g) val val data (i_permission env)
          (to_usize oo) (to_usize osz) (evm8\<lparr>e_child_gas_mem := None\<rparr>) lv ws1 ss1 = Ret st)"
  using assms unfolding callcode_opcode_def Let_def
  by (elim RetE) (fastforce simp: pop_eq_Ret split: option.splits)

lemma delegatecall_opcode_cases:
  assumes "delegatecall_opcode X run env evm lv ws ss = Ret st"
  obtains g0 to io isz oo osz rest data evm8 ss1 where
    "e_stack evm = g0 # to # io # isz # oo # osz # rest"
    "call_input (to_usize io) (to_usize isz) (to_usize oo) (to_usize osz) (evm\<lparr>e_stack := rest\<rparr>) = Ret (data, evm8)"
    "ss1 = ss\<lparr>a_access := push_new (from_word to) (a_access ss)\<rparr>"
    "(e_child_gas_mem evm8 = None \<and> st = (push 0 evm8, lv, ws, ss)) \<or>
     (\<exists>g. e_child_gas_mem evm8 = Some g \<and>
        call_body X run env False (i_sender env) (i_address env) (from_word to) g 0 (i_value env) data
          (i_permission env) (to_usize oo) (to_usize osz) (evm8\<lparr>e_child_gas_mem := None\<rparr>) lv ws ss1 = Ret st)"
  using assms unfolding delegatecall_opcode_def Let_def
  by (elim RetE) (fastforce simp: pop_eq_Ret split: option.splits)

lemma staticcall_opcode_cases:
  assumes "staticcall_opcode X run env evm lv ws ss = Ret st"
  obtains g0 to io isz oo osz rest data evm8 ss1 where
    "e_stack evm = g0 # to # io # isz # oo # osz # rest"
    "call_input (to_usize io) (to_usize isz) (to_usize oo) (to_usize osz) (evm\<lparr>e_stack := rest\<rparr>) = Ret (data, evm8)"
    "ss1 = ss\<lparr>a_access := push_new (from_word to) (a_access ss)\<rparr>"
    "(e_child_gas_mem evm8 = None \<and> st = (push 0 evm8, lv, ws, ss1)) \<or>
     (\<exists>g. e_child_gas_mem evm8 = Some g \<and>
        call_body X run env False (i_address env) (from_word to) (from_word to) g 0 0 data
          False (to_usize oo) (to_usize osz) (evm8\<lparr>e_child_gas_mem := None\<rparr>) lv ws ss1 = Ret st)"
  using assms unfolding staticcall_opcode_def Let_def
  by (elim RetE) (fastforce simp: pop_eq_Ret split: option.splits)

end
