(* ===== verification/Effects.thy ===== *)
theory Effects
  imports Interpreter
begin

text \<open>
  What each opcode handler does to the machine: the number of stack elements it pops and pushes
  (the contract that \<open>SAFE_TABLE\<close> states), the elements below them, and the invariant that the
  memory is a whole number of words counted by \<open>active_words\<close>.
\<close>

section \<open>Effects\<close>

definition stack_effect :: "nat \<Rightarrow> nat \<Rightarrow> evm \<Rightarrow> evm \<Rightarrow> bool" where
  "stack_effect p q evm evm' \<longleftrightarrow>
     p \<le> length (e_stack evm) \<and> length (e_stack evm') + p = length (e_stack evm) + q \<and>
     drop q (e_stack evm') = drop p (e_stack evm)"

text \<open>The registers a handler without sub-call leaves alone.\<close>

definition same_registers :: "evm \<Rightarrow> evm \<Rightarrow> bool" where
  "same_registers evm evm' \<longleftrightarrow>
     e_gas evm' = e_gas evm \<and> e_pc evm' = e_pc evm \<and> e_version evm' = e_version evm \<and>
     e_safe_jump evm' = e_safe_jump evm \<and> e_child_gas_mem evm' = e_child_gas_mem evm"

definition effect :: "nat \<Rightarrow> nat \<Rightarrow> evm \<Rightarrow> evm \<Rightarrow> bool" where
  "effect p q evm evm' \<longleftrightarrow>
     stack_effect p q evm evm' \<and> same_registers evm evm' \<and> (mem_inv evm \<longrightarrow> mem_inv evm')"

lemmas effect_defs = effect_def stack_effect_def same_registers_def

definition mem_words :: "evm \<Rightarrow> bool" where
  "mem_words evm \<longleftrightarrow> 32 dvd length (e_memory evm) \<and> length (e_memory evm) \<le> isize_max"

lemma mem_inv_words: "mem_inv evm \<Longrightarrow> mem_words evm"
  by (simp add: mem_inv_def mem_words_def)

lemma mem_inv_update [simp]: "mem_inv (update_active_words evm) \<longleftrightarrow> mem_words evm"
  by (auto simp: mem_inv_def mem_words_def update_active_words_def) (metis dvd_triv_left)

lemma update_active_words_sel [simp]:
  "e_stack (update_active_words evm) = e_stack evm"
  "e_gas (update_active_words evm) = e_gas evm"
  "e_pc (update_active_words evm) = e_pc evm"
  "e_memory (update_active_words evm) = e_memory evm"
  "e_return_back (update_active_words evm) = e_return_back evm"
  "e_safe_jump (update_active_words evm) = e_safe_jump evm"
  "e_version (update_active_words evm) = e_version evm"
  "e_child_gas_mem (update_active_words evm) = e_child_gas_mem evm"
  by (simp_all add: update_active_words_def)

lemma mem_inv_updates [simp]:
  "mem_inv (evm\<lparr>e_stack := s\<rparr>) = mem_inv evm"
  "mem_inv (evm\<lparr>e_gas := g\<rparr>) = mem_inv evm"
  "mem_inv (evm\<lparr>e_pc := p\<rparr>) = mem_inv evm"
  "mem_inv (evm\<lparr>e_return_back := b\<rparr>) = mem_inv evm"
  "mem_inv (evm\<lparr>e_child_gas_mem := c\<rparr>) = mem_inv evm"
  "mem_inv (push v evm) = mem_inv evm"
  by (simp_all add: mem_inv_def push_def)

lemma mem_words_updates [simp]:
  "mem_words (evm\<lparr>e_stack := s\<rparr>) = mem_words evm"
  "mem_words (evm\<lparr>e_gas := g\<rparr>) = mem_words evm"
  "mem_words (evm\<lparr>e_return_back := b\<rparr>) = mem_words evm"
  "mem_words (push v evm) = mem_words evm"
  by (simp_all add: mem_words_def push_def)

lemma grow_memory_mem_words:
  assumes "grow_memory n evm = Ret evm'" "mem_words evm"
  shows "mem_words evm'"
  using assms(1)
proof (cases rule: grow_memory_cases)
  case keep
  with assms(2) show ?thesis by simp
next
  case grow
  with rounded_ge [of n] show ?thesis by (auto simp: mem_words_def rounded_def)
qed

lemma same_registers_refl [simp, intro]: "same_registers evm evm"
  by (simp add: same_registers_def)

lemma same_registers_trans [trans]:
  "same_registers a b \<Longrightarrow> same_registers b c \<Longrightarrow> same_registers a c"
  by (simp add: same_registers_def)

lemma same_registers_updates [simp]:
  "same_registers evm (update_active_words evm') = same_registers evm evm'"
  "same_registers evm (push v evm') = same_registers evm evm'"
  "same_registers evm (evm'\<lparr>e_stack := s\<rparr>) = same_registers evm evm'"
  "same_registers evm (evm'\<lparr>e_return_back := b\<rparr>) = same_registers evm evm'"
  "same_registers (evm\<lparr>e_stack := s\<rparr>) evm' = same_registers evm evm'"
  by (simp_all add: same_registers_def)

text \<open>A step of a handler that only works on the memory.\<close>

definition mem_step :: "evm \<Rightarrow> evm \<Rightarrow> bool" where
  "mem_step evm evm' \<longleftrightarrow> same_registers evm evm' \<and> e_stack evm' = e_stack evm \<and>
     e_return_back evm' = e_return_back evm \<and> (mem_words evm \<longrightarrow> mem_words evm')"

lemma mem_step_refl [simp]: "mem_step evm evm"
  by (simp add: mem_step_def)

lemma mem_step_trans [trans]: "mem_step a b \<Longrightarrow> mem_step b c \<Longrightarrow> mem_step a c"
  by (auto simp: mem_step_def intro: same_registers_trans)

lemma grow_memory_step: "grow_memory n evm = Ret evm' \<Longrightarrow> mem_step evm evm'"
  by (simp add: mem_step_def same_registers_def grow_memory_sel grow_memory_mem_words)

lemma read_memory_step: "read_memory off sz evm = Ret (d, evm') \<Longrightarrow> mem_step evm evm'"
  by (auto simp: read_memory_def Let_def split: if_splits intro: grow_memory_step)

lemma store_memory_keeps:
  assumes "store_memory p n bs evm = Ret evm'"
  shows "mem_step evm evm'" "length (e_memory evm') = length (e_memory evm)"
    "e_active_words evm' = e_active_words evm"
proof -
  from assms obtain m where m: "copy_slice (e_memory evm) p n bs = Ret m"
    and evm': "evm' = evm\<lparr>e_memory := m\<rparr>"
    by (auto simp: store_memory_def)
  have len: "length m = length (e_memory evm)"
    using m by (rule length_copy_slice)
  then show "mem_step evm evm'" "length (e_memory evm') = length (e_memory evm)"
    "e_active_words evm' = e_active_words evm"
    by (simp_all add: evm' mem_step_def same_registers_def mem_words_def)
qed

lemma grow_store_step:
  "grow_memory n evm = Ret evm1 \<Longrightarrow> store_memory p n' bs evm1 = Ret evm' \<Longrightarrow> mem_step evm evm'"
  by (rule mem_step_trans [OF grow_memory_step store_memory_keeps(1)])

lemma copy_data_step: "copy_data d dst off sz evm = Ret evm' \<Longrightarrow> mem_step evm evm'"
  by (auto simp: copy_data_def Let_def split: if_splits intro: grow_store_step)

lemmas mem_steps = grow_memory_step read_memory_step grow_store_step copy_data_step

text \<open>Pop, work on the memory, count the words, push the result if there is one.\<close>

lemma mem_step_effect:
  assumes "mem_step (evm\<lparr>e_stack := drop p (e_stack evm)\<rparr>) evm1" "p \<le> length (e_stack evm)"
  shows "effect p 0 evm (update_active_words evm1)"
    and "effect p (Suc 0) evm (update_active_words (push v evm1))"
    and "effect p 0 evm (update_active_words (evm1\<lparr>e_return_back := b\<rparr>))"
  using assms by (auto simp: mem_step_def effect_def stack_effect_def dest: mem_inv_words)

section \<open>Machine opcodes\<close>

lemma unop_effect: "unop f evm = Ret evm' \<Longrightarrow> effect 1 1 evm evm'"
  and binop_effect: "binop g evm = Ret evm' \<Longrightarrow> effect 2 1 evm evm'"
  and ternop_effect: "ternop h evm = Ret evm' \<Longrightarrow> effect 3 1 evm evm'"
  by (auto simp: unop_def binop_def ternop_def effect_defs res_simps)

lemma arithmetic_effect:
  "arithmetic_opcodes opcode evm = Ret evm' \<Longrightarrow>
   effect (if opcode = 8 \<or> opcode = 9 then 3 else 2) 1 evm evm'"
  by (auto simp: arithmetic_opcodes_def split: if_splits dest: binop_effect ternop_effect)

lemma comparison_effect:
  "comparison_bitwise_opcodes opcode evm = Ret evm' \<Longrightarrow>
   effect (if opcode = 0x15 \<or> opcode = 0x19 then 1 else 2) 1 evm evm'"
  by (auto simp: comparison_bitwise_opcodes_def split: if_splits dest: binop_effect unop_effect)

lemma keccak256_effect: "keccak256_opcode X evm = Ret evm' \<Longrightarrow> effect 2 1 evm evm'"
  by (auto simp: keccak256_opcode_def res_simps
      intro!: mem_step_effect) (blast intro: mem_steps)+

lemma mload_effect: "mload_opcode evm = Ret evm' \<Longrightarrow> effect 1 1 evm evm'"
  by (auto simp: mload_opcode_def Let_def pop_eq_Ret
      intro!: mem_step_effect) (blast intro: mem_steps)+

lemma mstore_effect: "mstore_opcode evm = Ret evm' \<Longrightarrow> effect 2 0 evm evm'"
  and mstore8_effect: "mstore8_opcode evm = Ret evm' \<Longrightarrow> effect 2 0 evm evm'"
  by (auto simp: mstore_opcode_def mstore8_opcode_def Let_def pop_eq_Ret
      intro!: mem_step_effect) (blast intro: mem_steps)+

lemma copy_effects:
  "calldatacopy_opcode env evm = Ret evm' \<Longrightarrow> effect 3 0 evm evm'"
  "codecopy_opcode env evm = Ret evm' \<Longrightarrow> effect 3 0 evm evm'"
  by (auto simp: calldatacopy_opcode_def codecopy_opcode_def pop_eq_Ret
      intro!: mem_step_effect) (blast intro: mem_steps)+

lemma extcodecopy_effect:
  "extcodecopy_opcode X evm ws ss = Ret (evm', ws', ss') \<Longrightarrow> effect 4 0 evm evm'"
  by (auto simp: extcodecopy_opcode_def Let_def pop_eq_Ret
      intro!: mem_step_effect) (blast intro: mem_steps)+

lemma returndatacopy_effect: "returndatacopy_opcode evm = Ret evm' \<Longrightarrow> effect 3 0 evm evm'"
  by (auto simp: returndatacopy_opcode_def Let_def pop_eq_Ret split: if_splits
      intro!: mem_step_effect) (blast intro: mem_steps)+

lemma calldataload_effect: "calldataload_opcode env evm = Ret evm' \<Longrightarrow> effect 1 1 evm evm'"
  by (auto simp: calldataload_opcode_def Let_def effect_defs res_simps split: if_splits)

lemma push_effect: "push_opcode opcode env evm = Ret evm' \<Longrightarrow> effect 0 1 evm evm'"
  by (auto simp: push_opcode_def Let_def effect_defs split: if_splits)

lemma dup_effect:
  "dup_opcode opcode evm = Ret evm' \<Longrightarrow> effect (opcode - 0x80 + 1) (opcode - 0x80 + 2) evm evm'"
  by (auto simp: dup_opcode_def effect_defs res_simps)

lemma swap_effect:
  "swap_opcode opcode evm = Ret evm' \<Longrightarrow> effect (opcode - 0x90 + 2) (opcode - 0x90 + 2) evm evm'"
  by (auto simp: swap_opcode_def Let_def effect_defs split: if_splits)

lemma return_effect: "return_opcode evm = Ret evm' \<Longrightarrow> effect 2 0 evm evm'"
  by (auto simp: return_opcode_def pop_eq_Ret
      intro!: mem_step_effect) (blast intro: mem_steps)+

lemma pop_topics_effect: "pop_topics n evm = Ret (ts, evm') \<Longrightarrow> effect n 0 evm evm'"
proof (induction n arbitrary: evm ts)
  case 0
  then show ?case by (simp add: effect_defs)
next
  case (Suc n)
  then obtain t evm1 ts' where *: "pop evm = Ret (t, evm1)" "pop_topics n evm1 = Ret (ts', evm')" by auto
  from * Suc.IH [OF *(2)] show ?case by (auto simp: effect_defs pop_eq_Ret)
qed

lemma log_effect:
  "log_opcode opcode env evm ss = Ret (evm', ss') \<Longrightarrow> effect (opcode - 0xa0 + 2) 0 evm evm'"
  by (auto simp: log_opcode_def effect_defs mem_step_def pop_eq_Ret
      dest!: pop_topics_effect read_memory_step dest: mem_inv_words)

section \<open>State-reading opcodes\<close>

lemma environmental_effect:
  "environmental_info_opcode X opcode env evm ws ss = Ret (evm', ws', ss') \<Longrightarrow>
   effect (if opcode = 0x31 \<or> opcode = 0x3b \<or> opcode = 0x3f then 1 else 0) 1 evm evm'"
  by (auto simp: environmental_info_opcode_def Let_def effect_defs res_simps split: if_splits)

lemma block_info_effect:
  "block_info_opcode X opcode env evm ws = Ret (evm', ws') \<Longrightarrow> opcode \<noteq> 0x40 \<Longrightarrow> effect 0 1 evm evm'"
  by (auto simp: block_info_opcode_def Let_def effect_defs res_simps split: if_splits)

lemma blockhash_effect:
  "block_info_opcode X 0x40 env evm ws = Ret (evm', ws') \<Longrightarrow>
   effect 1 0 evm evm' \<or> effect 1 1 evm evm'"
  by (auto simp: block_info_opcode_def Let_def effect_defs res_simps split: if_splits)

lemma sload_effect: "sload_opcode X env evm ws ss = Ret (evm', ws', ss') \<Longrightarrow> effect 1 1 evm evm'"
  by (auto simp: sload_opcode_def effect_defs res_simps)

lemma sstore_effect:
  "sstore_opcode X env evm lv ws ss = Ret (evm', lv', ws', ss') \<Longrightarrow> effect 2 0 evm evm'"
  by (auto simp: sstore_opcode_def Let_def effect_defs res_simps)

lemma selfdestruct_effect:
  "selfdestruct_opcode X env evm lv ws ss = Ret (evm', lv', ws', ss') \<Longrightarrow> effect 1 0 evm evm'"
  by (auto simp: selfdestruct_opcode_def Let_def effect_defs res_simps)

section \<open>Machine opcodes together\<close>

lemma SAFE_TABLE_arithmetic:
  assumes "0x01 \<le> opcode \<and> opcode \<le> 0x0b"
  shows "SAFE_TABLE opcode = (if opcode = 8 \<or> opcode = 9 then 3 else 2, 1)"
proof -
  have "opcode = 1 \<or> opcode = 2 \<or> opcode = 3 \<or> opcode = 4 \<or> opcode = 5 \<or>
      opcode = 6 \<or> opcode = 7 \<or> opcode = 8 \<or> opcode = 9 \<or> opcode = 10 \<or>
      opcode = 11"
    using assms by presburger
  then show ?thesis by (elim disjE) (simp_all add: SAFE_TABLE_def)
qed

lemma SAFE_TABLE_comparison:
  assumes "0x10 \<le> opcode \<and> opcode \<le> 0x1d"
  shows "SAFE_TABLE opcode = (if opcode = 0x15 \<or> opcode = 0x19 then 1 else 2, 1)"
proof -
  have "opcode = 16 \<or> opcode = 17 \<or> opcode = 18 \<or> opcode = 19 \<or> opcode = 20 \<or>
      opcode = 21 \<or> opcode = 22 \<or> opcode = 23 \<or> opcode = 24 \<or> opcode = 25 \<or>
      opcode = 26 \<or> opcode = 27 \<or> opcode = 28 \<or> opcode = 29"
    using assms by presburger
  then show ?thesis by (elim disjE) (simp_all add: SAFE_TABLE_def)
qed

lemma SAFE_TABLE_stack:
  "0x60 \<le> opcode \<and> opcode \<le> 0x7f \<Longrightarrow> SAFE_TABLE opcode = (0, 1)"
  "0x80 \<le> opcode \<and> opcode \<le> 0x8f \<Longrightarrow> SAFE_TABLE opcode = (opcode - 0x80 + 1, opcode - 0x80 + 2)"
  "0x90 \<le> opcode \<and> opcode \<le> 0x9f \<Longrightarrow> SAFE_TABLE opcode = (opcode - 0x90 + 2, opcode - 0x90 + 2)"
  by (simp_all add: SAFE_TABLE_def)

lemma SAFE_TABLE_machine:
  "SAFE_TABLE 0x20 = (2, 1)" "SAFE_TABLE 0x35 = (1, 1)" "SAFE_TABLE 0x37 = (3, 0)"
  "SAFE_TABLE 0x39 = (3, 0)" "SAFE_TABLE 0x3e = (3, 0)" "SAFE_TABLE 0x50 = (1, 0)"
  "SAFE_TABLE 0x51 = (1, 1)" "SAFE_TABLE 0x52 = (2, 0)" "SAFE_TABLE 0x53 = (2, 0)"
  "SAFE_TABLE 0x58 = (0, 1)" "SAFE_TABLE 0x59 = (0, 1)" "SAFE_TABLE 0x5a = (0, 1)"
  "SAFE_TABLE 0x5b = (0, 0)" "SAFE_TABLE 0x5f = (0, 1)"
  by (simp_all add: SAFE_TABLE_def)

lemma simple_effects:
  "pop evm = Ret (v, evm') \<Longrightarrow> effect 1 0 evm evm'"
  "effect 0 1 evm (push v evm)"
  "effect 0 0 evm evm"
  by (auto simp: effect_defs pop_eq_Ret)

lemma machine_op_effect:
  assumes "machine_op X opcode env evm = Ret evm'" "opcode \<noteq> 0x56" "opcode \<noteq> 0x57"
  shows "effect (fst (SAFE_TABLE opcode)) (snd (SAFE_TABLE opcode)) evm evm'"
  using assms unfolding machine_op_def
  apply (split if_split_asm)
  subgoal by (auto simp: SAFE_TABLE_arithmetic dest: arithmetic_effect)
  apply (split if_split_asm)
  subgoal by (auto simp: SAFE_TABLE_comparison dest: comparison_effect)
  apply (split if_split_asm)
  subgoal by (auto simp: SAFE_TABLE_machine dest: keccak256_effect)
  apply (split if_split_asm)
  subgoal by (auto simp: SAFE_TABLE_machine dest: calldataload_effect)
  apply (split if_split_asm)
  subgoal by (auto simp: SAFE_TABLE_machine dest: copy_effects)
  apply (split if_split_asm)
  subgoal by (auto simp: SAFE_TABLE_machine dest: copy_effects)
  apply (split if_split_asm)
  subgoal by (auto simp: SAFE_TABLE_machine dest: returndatacopy_effect)
  apply (split if_split_asm)
  subgoal by (auto simp: SAFE_TABLE_machine dest: simple_effects(1))
  apply (split if_split_asm)
  subgoal by (auto simp: SAFE_TABLE_machine dest: mload_effect)
  apply (split if_split_asm)
  subgoal by (auto simp: SAFE_TABLE_machine dest: mstore_effect)
  apply (split if_split_asm)
  subgoal by (auto simp: SAFE_TABLE_machine dest: mstore8_effect)
  apply (split if_split_asm)
  subgoal by simp
  apply (split if_split_asm)
  subgoal by (auto simp: SAFE_TABLE_machine simple_effects [unfolded One_nat_def])
  apply (split if_split_asm)
  subgoal by (auto simp: SAFE_TABLE_machine simple_effects [unfolded One_nat_def])
  apply (split if_split_asm)
  subgoal by (auto simp: SAFE_TABLE_machine simple_effects [unfolded One_nat_def])
  apply (split if_split_asm)
  subgoal by (auto simp: SAFE_TABLE_machine simple_effects [unfolded One_nat_def])
  apply (split if_split_asm)
  subgoal by (auto simp: SAFE_TABLE_machine simple_effects [unfolded One_nat_def])
  apply (split if_split_asm)
  subgoal by (auto simp: SAFE_TABLE_stack dest: push_effect)
  apply (split if_split_asm)
  subgoal by (auto simp: SAFE_TABLE_stack dest: dup_effect)
  apply (split if_split_asm)
  subgoal by (auto simp: SAFE_TABLE_stack dest: swap_effect)
  apply simp
  done

section \<open>Calls and creations\<close>

text \<open>The effect of an opcode that makes a sub-call: gas and the recorded child gas change too.\<close>

definition op_effect :: "nat \<Rightarrow> nat \<Rightarrow> evm \<Rightarrow> evm \<Rightarrow> bool" where
  "op_effect p q evm evm' \<longleftrightarrow>
     stack_effect p q evm evm' \<and> e_pc evm' = e_pc evm \<and> e_version evm' = e_version evm \<and>
     e_safe_jump evm' = e_safe_jump evm \<and> (mem_inv evm \<longrightarrow> mem_inv evm')"

lemma effect_op_effect: "effect p q evm evm' \<Longrightarrow> op_effect p q evm evm'"
  by (simp add: effect_def op_effect_def same_registers_def)

lemma call_input_keeps:
  assumes "call_input io is oo os evm = Ret (d, evm')"
  shows "same_registers evm evm' \<and> e_stack evm' = e_stack evm \<and> (mem_inv evm \<longrightarrow> mem_inv evm')"
  using assms
  by (auto simp: call_input_def Let_def mem_step_def split: if_splits
      dest!: grow_memory_step dest: mem_inv_words)

lemma init_code_input_keeps:
  assumes "init_code_input off sz evm = Ret (d, evm')"
  shows "same_registers evm evm' \<and> e_stack evm' = e_stack evm \<and> (mem_inv evm \<longrightarrow> mem_inv evm')"
  using assms
  by (auto simp: init_code_input_def Let_def mem_step_def split: if_splits
      dest!: grow_memory_step dest: mem_inv_words)

lemma write_output_keeps:
  assumes "write_output off sz d evm = Ret evm'"
  shows "same_registers evm evm' \<and> e_stack evm' = e_stack evm \<and> (mem_inv evm \<longrightarrow> mem_inv evm')"
  using assms
  using store_memory_keeps [of off "usize_sat_add off (min sz (length d))" "take (min sz (length d)) d" evm evm']
  by (auto simp: write_output_def Let_def mem_step_def mem_inv_def split: if_splits)

lemma finish_call_effect:
  "finish_call oo os r child evm lv = Ret (evm', lv') \<Longrightarrow> op_effect 0 1 evm evm'"
  by (auto simp: finish_call_def op_effect_def stack_effect_def same_registers_def
      split: call_result.splits option.splits dest!: write_output_keeps)

lemma finish_create_effect:
  "finish_create r child evm lv = Ret (evm', lv') \<Longrightarrow> op_effect 0 1 evm evm'"
  by (auto simp: finish_create_def op_effect_def stack_effect_def
      split: call_result.splits option.splits)

lemmas op_effect_defs = op_effect_def stack_effect_def same_registers_def

lemma call_body_effect:
  "call_body X run env nb s r c g e av d p oo os evm lv ws ss = Ret (evm', lv', ws', ss') \<Longrightarrow>
   op_effect 0 1 evm evm'"
  by (auto simp: call_body_def op_effect_def stack_effect_def split: if_splits dest: finish_call_effect)

text \<open>From the state after the input was read back to the state before the pops.\<close>

lemma call_op_effect:
  assumes "e_stack evm = xs @ rest" "length xs = p"
    and "call_input io isz oo os (evm\<lparr>e_stack := rest\<rparr>) = Ret (data, evm8)"
    and "evm' = push 0 evm8 \<or> op_effect 0 1 (evm8\<lparr>e_child_gas_mem := None\<rparr>) evm'"
  shows "op_effect p 1 evm evm'"
  using assms(1,2,4) call_input_keeps [OF assms(3)]
  by (auto simp: op_effect_def stack_effect_def same_registers_def)

lemma call_opcode_effect:
  assumes "call_opcode X run env evm lv ws ss = Ret (evm', lv', ws', ss')"
  shows "op_effect 7 1 evm evm'"
  using assms
proof (cases rule: call_opcode_cases)
  case (1 g0 to val io isz oo osz rest data evm8 ss1)
  show ?thesis
    by (rule call_op_effect [OF _ _ 1(2), of "[g0, to, val, io, isz, oo, osz]"])
      (use 1 in \<open>auto dest: call_body_effect\<close>)
qed

lemma callcode_opcode_effect:
  assumes "callcode_opcode X run env evm lv ws ss = Ret (evm', lv', ws', ss')"
  shows "op_effect 7 1 evm evm'"
  using assms
proof (cases rule: callcode_opcode_cases)
  case (1 g0 to val io isz oo osz rest data evm8 ss1)
  show ?thesis
    by (rule call_op_effect [OF _ _ 1(2), of "[g0, to, val, io, isz, oo, osz]"])
      (use 1 in \<open>auto dest: call_body_effect\<close>)
qed

lemma delegatecall_opcode_effect:
  assumes "delegatecall_opcode X run env evm lv ws ss = Ret (evm', lv', ws', ss')"
  shows "op_effect 6 1 evm evm'"
  using assms
proof (cases rule: delegatecall_opcode_cases)
  case (1 g0 to io isz oo osz rest data evm8 ss1)
  show ?thesis
    by (rule call_op_effect [OF _ _ 1(2), of "[g0, to, io, isz, oo, osz]"])
      (use 1 in \<open>auto dest: call_body_effect\<close>)
qed

lemma staticcall_opcode_effect:
  assumes "staticcall_opcode X run env evm lv ws ss = Ret (evm', lv', ws', ss')"
  shows "op_effect 6 1 evm evm'"
  using assms
proof (cases rule: staticcall_opcode_cases)
  case (1 g0 to io isz oo osz rest data evm8 ss1)
  show ?thesis
    by (rule call_op_effect [OF _ _ 1(2), of "[g0, to, io, isz, oo, osz]"])
      (use 1 in \<open>auto dest: call_body_effect\<close>)
qed

lemma create_body_effect:
  "create_body X run env value off sz salt evm lv ws ss = Ret (evm', lv', ws', ss') \<Longrightarrow>
   op_effect 0 1 evm evm'"
  by (auto simp: create_body_def Let_def op_effect_defs split: if_splits
      dest!: init_code_input_keeps finish_create_effect)

lemma create_opcode_effect:
  "create_opcode X run env evm lv ws ss = Ret (evm', lv', ws', ss') \<Longrightarrow> op_effect 3 1 evm evm'"
  by (auto simp: create_opcode_def pop_eq_Ret op_effect_defs dest!: create_body_effect)

lemma create2_opcode_effect:
  "create2_opcode X run env evm lv ws ss = Ret (evm', lv', ws', ss') \<Longrightarrow> op_effect 4 1 evm evm'"
  by (auto simp: create2_opcode_def pop_eq_Ret op_effect_defs dest!: create_body_effect)

section \<open>Every opcode\<close>

lemmas state_op_effects = environmental_effect [THEN effect_op_effect]
  extcodecopy_effect [THEN effect_op_effect] block_info_effect [THEN effect_op_effect]
  sload_effect [THEN effect_op_effect] sstore_effect [THEN effect_op_effect]
  log_effect [THEN effect_op_effect] return_effect [THEN effect_op_effect]
  selfdestruct_effect [THEN effect_op_effect] create_opcode_effect call_opcode_effect
  callcode_opcode_effect delegatecall_opcode_effect create2_opcode_effect staticcall_opcode_effect

text \<open>
  The branch of \<open>BLOCKHASH\<close> for recent blocks pushes nothing, and the jumps pop their operands while
  the program counter is advanced, so these three opcodes are treated apart.
\<close>

lemma SAFE_TABLE_env:
  assumes "(0x30 \<le> opcode \<and> opcode \<le> 0x34) \<or> opcode = 0x36 \<or> opcode = 0x38 \<or> opcode = 0x3a \<or>
    opcode = 0x3b \<or> opcode = 0x3d \<or> opcode = 0x3f"
  shows "SAFE_TABLE opcode = (if opcode = 0x31 \<or> opcode = 0x3b \<or> opcode = 0x3f then 1 else 0, 1)"
proof -
  have "opcode \<in> {0x30, 0x31, 0x32, 0x33, 0x34, 0x36, 0x38, 0x3a, 0x3b, 0x3d, 0x3f}"
    using assms by auto
  then show ?thesis by (elim insertE emptyE) (simp_all add: SAFE_TABLE_def)
qed

lemma SAFE_TABLE_block:
  assumes "0x40 \<le> opcode \<and> opcode \<le> 0x48" "opcode \<noteq> 0x40"
  shows "SAFE_TABLE opcode = (0, 1)"
proof -
  have "opcode \<in> {0x41, 0x42, 0x43, 0x44, 0x45, 0x46, 0x47, 0x48}"
    using assms by auto
  then show ?thesis by (elim insertE emptyE) (simp_all add: SAFE_TABLE_def)
qed

lemma SAFE_TABLE_log:
  assumes "0xa0 \<le> opcode \<and> opcode \<le> 0xa4"
  shows "SAFE_TABLE opcode = (opcode - 0xa0 + 2, 0)"
proof -
  have "opcode \<in> {0xa0, 0xa1, 0xa2, 0xa3, 0xa4}"
    using assms by auto
  then show ?thesis by (elim insertE emptyE) (simp_all add: SAFE_TABLE_def)
qed

lemma SAFE_TABLE_state:
  "SAFE_TABLE 0x3c = (4, 0)" "SAFE_TABLE 0x54 = (1, 1)" "SAFE_TABLE 0x55 = (2, 0)"
  "SAFE_TABLE 0xf0 = (3, 1)" "SAFE_TABLE 0xf1 = (7, 1)" "SAFE_TABLE 0xf2 = (7, 1)"
  "SAFE_TABLE 0xf3 = (2, 0)" "SAFE_TABLE 0xf4 = (6, 1)" "SAFE_TABLE 0xf5 = (4, 1)"
  "SAFE_TABLE 0xfa = (6, 1)" "SAFE_TABLE 0xfd = (2, 0)" "SAFE_TABLE 0xff = (1, 0)"
  by (simp_all add: SAFE_TABLE_def)

lemma dispatch_effect:
  assumes "dispatch X run opcode env evm lv ws ss = Ret (r, evm', lv', ws', ss')"
    and "opcode \<noteq> 0x40" "opcode \<noteq> 0x56" "opcode \<noteq> 0x57"
  shows "op_effect (fst (SAFE_TABLE opcode)) (snd (SAFE_TABLE opcode)) evm evm'"
  using assms(1)
proof (cases rule: dispatch_cases)
  case stop
  then show ?thesis by (simp add: op_effect_defs SAFE_TABLE_def)
next
  case machine
  with assms(2-) show ?thesis by (auto intro: effect_op_effect machine_op_effect)
next
  case environmental
  then show ?thesis by (auto simp: SAFE_TABLE_env dest: state_op_effects)
next
  case block
  with assms(2-) show ?thesis by (auto simp: SAFE_TABLE_block dest: state_op_effects)
next
  case log
  then show ?thesis by (auto simp: SAFE_TABLE_log dest: state_op_effects)
qed (auto simp: SAFE_TABLE_state dest: state_op_effects)

end
