(* ===== verification/Gas_Step.thy ===== *)
theory Gas_Step
  imports Effects
begin

text \<open>
  The gas function called repeatedly.  The interpreter computes the cost of an instruction four
  times: twice in \<open>is_safe\<close>, once for tracing, once in \<open>execution\<close>.  From the second call on
  neither the cost nor the state changes, so the cost that \<open>is_safe\<close> compared with the remaining
  gas is the cost that \<open>execution\<close> charges.
\<close>

section \<open>Getters are stationary\<close>

lemma with_account_again:
  assumes "with_account X ws a f g d = Ret (r, ws1)" "same_store ws1 ws2" "ws_cache ws2 a = ws_cache ws1 a"
  shows "\<exists>r'. with_account X ws2 a f g d = Ret (r', ws2)"
  using assms(1)
proof (cases rule: with_account_cases)
  case (cached acc)
  with assms(3) show ?thesis by (simp add: with_account_def)
next
  case absent
  with assms(2,3) contain_mpt_cong [OF assms(2), of X a] show ?thesis
    by (simp add: with_account_def)
next
  case (loaded m)
  then have "ws_cache ws1 a \<noteq> None" by (auto dest: add_cache_cached)
  with assms(3) show ?thesis by (auto simp: with_account_def)
qed

lemma is_empty_again:
  assumes "is_empty X ws a = Ret (r, ws1)"
  shows "\<exists>r'. is_empty X ws1 a = Ret (r', ws1)"
proof (cases "ws_cache ws1 a")
  case None
  then have "ws1 = ws" using assms
    by (auto simp: is_empty_def split: option.splits dest: add_cache_cached)
  with assms show ?thesis by simp
next
  case (Some acc)
  then show ?thesis by (simp add: is_empty_def)
qed

lemma is_dead_again:
  "is_dead X v ws a = Ret (r, ws1) \<Longrightarrow> \<exists>r'. is_dead X v ws1 a = Ret (r', ws1)"
  by (auto simp: is_dead_def intro: is_empty_again with_account_again)

lemma is_physically_exist_again:
  "is_physically_exist X ws a = Ret (r, ws1) \<Longrightarrow> same_store ws1 ws2 \<Longrightarrow>
   ws_cache ws2 a = ws_cache ws1 a \<Longrightarrow> \<exists>r'. is_physically_exist X ws2 a = Ret (r', ws2)"
  unfolding is_physically_exist_def by (rule with_account_again)

lemma is_physically_exist_loads:
  "is_physically_exist X ws a = Ret (r, ws1) \<Longrightarrow> ws_cache ws b \<noteq> None \<or> b \<noteq> a \<or> ws_cache ws1 b = None \<Longrightarrow>
   same_store ws ws1 \<and> ws_cache ws1 b = ws_cache ws b"
  unfolding is_physically_exist_def
  by (erule with_account_cases) (auto simp: add_cache_def same_store_def)

lemma storage_lookup_again:
  assumes "storage_lookup X ws a acc k = Ret (r, ws1)" "ws_cache ws a = Some acc"
  obtains acc1 r' where "ws_cache ws1 a = Some acc1" "storage_lookup X ws1 a acc1 k = Ret (r', ws1)"
proof -
  have "ws1 = ws \<or>
      (\<exists>w. ws1 = add_account a (acc\<lparr>acc_storage := (acc_storage acc)(k := w)\<rparr>) ws \<and> w \<noteq> None)"
    using assms(1)
    by (auto simp: storage_lookup_def add_account_def split: option.splits if_splits)
  then consider "ws1 = ws"
    | w where "ws1 = add_account a (acc\<lparr>acc_storage := (acc_storage acc)(k := w)\<rparr>) ws" "w \<noteq> None"
    by blast
  then show thesis
  proof cases
    case 1
    with assms show thesis by (intro that) auto
  next
    case 2
    then show thesis
      by (intro that [of "acc\<lparr>acc_storage := (acc_storage acc)(k := w)\<rparr>" w])
        (auto simp: storage_lookup_def)
  qed
qed

lemma cached_physically: "ws_cache ws a = Some acc \<Longrightarrow> is_physically_exist X ws a = Ret (True, ws)"
  by (simp add: is_physically_exist_def with_account_def)

lemma get_storage_value_again:
  assumes "get_storage_value X ws a k = Ret (r, ws1)"
  shows "\<exists>r'. get_storage_value X ws1 a k = Ret (r', ws1)"
proof -
  from assms obtain b ws0 where p: "is_physically_exist X ws a = Ret (b, ws0)"
    and q: "(case ws_cache ws0 a of None \<Rightarrow> Ret (None, ws0)
             | Some acc \<Rightarrow> storage_lookup X ws0 a acc k) = Ret (r, ws1)"
    by (auto simp: get_storage_value_def)
  show ?thesis
  proof (cases "ws_cache ws0 a")
    case None
    with q have "ws1 = ws0" by simp
    with None is_physically_exist_again [OF p, of ws0] show ?thesis
      by (auto simp: get_storage_value_def)
  next
    case (Some acc)
    with q have "storage_lookup X ws0 a acc k = Ret (r, ws1)" by simp
    from storage_lookup_again [OF this Some] obtain acc1 r' where
      "ws_cache ws1 a = Some acc1" "storage_lookup X ws1 a acc1 k = Ret (r', ws1)" .
    then show ?thesis by (simp add: get_storage_value_def cached_physically)
  qed
qed

section \<open>The gas function is stationary\<close>

definition forget_child :: "u256 option \<Rightarrow> evm \<Rightarrow> evm" where
  "forget_child m evm = evm\<lparr>e_child_gas_mem := m\<rparr>"

lemma forget_child_sel [simp]:
  "e_gas (forget_child m evm) = e_gas evm"
  "e_stack (forget_child m evm) = e_stack evm"
  "e_memory (forget_child m evm) = e_memory evm"
  "e_version (forget_child m evm) = e_version evm"
  "e_pc (forget_child m evm) = e_pc evm"
  "e_safe_jump (forget_child m evm) = e_safe_jump evm"
  "e_return_back (forget_child m evm) = e_return_back evm"
  "e_active_words (forget_child m evm) = e_active_words evm"
  "e_child_gas_mem (forget_child m evm) = m"
  "mem_inv (forget_child m evm) = mem_inv evm"
  "forget_child m (forget_child n evm) = forget_child m evm"
  "forget_child (e_child_gas_mem evm) evm = evm"
  by (simp_all add: forget_child_def)

lemma peek_forget [simp]: "peek (forget_child m evm) n = peek evm n"
  by (simp add: peek_def)

lemma extension_cost_forget [simp]:
  "extension_cost (forget_child m evm) off sz = extension_cost evm off sz"
  by (simp add: extension_cost_def)

lemma charge_call_forget [simp]:
  "charge_call (forget_child m evm) base limit = charge_call evm base limit"
  by (simp add: charge_call_def forget_child_def)

lemma gas_call_forget [simp]: "gas_call X ss (forget_child m evm) ws = gas_call X ss evm ws"
  and gas_callcode_forget [simp]: "gas_callcode ss (forget_child m evm) = gas_callcode ss evm"
  and gas_delegatecall_forget [simp]: "gas_delegatecall ss (forget_child m evm) = gas_delegatecall ss evm"
  by (simp_all add: gas_call_def gas_callcode_def gas_delegatecall_def Let_def cong: if_cong)

text \<open>What a call of the gas function may change.\<close>

lemma charge_call_frame: "charge_call evm base limit = (c, evm1) \<Longrightarrow> \<exists>m. evm1 = forget_child m evm"
  by (auto simp: charge_call_def Let_def forget_child_def)

lemma call_create_cost_reads: "call_create_cost X v value a ws = Ret (c, ws1) \<Longrightarrow> reads X ws ws1"
  by (auto simp: call_create_cost_def Let_def split: if_splits intro: is_dead_reads)

lemma call_create_cost_again:
  "call_create_cost X v value a ws = Ret (c, ws1) \<Longrightarrow> \<exists>c2. call_create_cost X v value a ws1 = Ret (c2, ws1)"
  using is_dead_again [of X v ws a]
  by (fastforce simp: call_create_cost_def Let_def split: if_splits)

lemma gas_call_frame:
  "gas_call X ss evm ws = Ret (c, evm1, ws1) \<Longrightarrow> (\<exists>m. evm1 = forget_child m evm) \<and> reads X ws ws1"
  by (auto simp: gas_call_def Let_def split: prod.splits dest!: call_create_cost_reads charge_call_frame)

lemma gas_sstore_frame: "gas_sstore X ss env evm ws = Ret (c, ws1) \<Longrightarrow> reads X ws ws1"
  by (auto simp: gas_sstore_def intro: get_storage_value_reads)

lemma selfdestruct_create_cost_reads:
  "selfdestruct_create_cost X v b a ws = Ret (c, ws1) \<Longrightarrow> reads X ws ws1"
  by (auto simp: selfdestruct_create_cost_def split: if_splits intro: getters_reads)

lemma gas_selfdestruct_frame: "gas_selfdestruct X env evm ws = Ret (c, ws1) \<Longrightarrow> reads X ws ws1"
  by (auto simp: gas_selfdestruct_def split: if_splits
      intro: reads_trans [OF getters_reads(3) selfdestruct_create_cost_reads])

lemma gas_cases:
  assumes "gas X opcode ss env evm ws = Ret (c, evm1, ws1)"
  obtains
    (const) "GAS_TABLE opcode \<noteq> 255" "c = of_nat (GAS_TABLE opcode)" "evm1 = evm" "ws1 = ws"
  | (sstore) "opcode = 0x55" "gas_sstore X ss env evm ws = Ret (c, ws1)" "evm1 = evm"
  | (call) "opcode = 0xf1" "gas_call X ss evm ws = Ret (c, evm1, ws1)"
  | (callcode) "opcode = 0xf2" "gas_callcode ss evm = Ret (c, evm1)" "ws1 = ws"
  | (delegatecall) "opcode = 0xf4 \<or> opcode = 0xfa" "gas_delegatecall ss evm = Ret (c, evm1)" "ws1 = ws"
  | (selfdestruct) "opcode = 0xff" "gas_selfdestruct X env evm ws = Ret (c, ws1)" "evm1 = evm"
  | (simple) "GAS_TABLE opcode = 255" "opcode \<notin> {0x55, 0xf1, 0xf2, 0xf4, 0xfa, 0xff}"
      "gas_simple opcode ss env evm = Ret c" "evm1 = evm" "ws1 = ws"
proof (cases "GAS_TABLE opcode = 255")
  case False
  with assms have "c = of_nat (GAS_TABLE opcode)" "evm1 = evm" "ws1 = ws"
    by (simp_all add: gas_def)
  with False show ?thesis by (rule const)
next
  case True
  consider "opcode = 0x55" | "opcode = 0xf1" | "opcode = 0xf2" | "opcode = 0xf4 \<or> opcode = 0xfa"
    | "opcode = 0xff" | "opcode \<notin> {0x55, 0xf1, 0xf2, 0xf4, 0xfa, 0xff}"
    by blast
  then show ?thesis
  proof cases
    case 1
    with assms True have "gas_sstore X ss env evm ws = Ret (c, ws1)" "evm1 = evm"
      by (auto simp: gas_def)
    with 1 show ?thesis by (rule sstore)
  next
    case 2
    with assms True have "gas_call X ss evm ws = Ret (c, evm1, ws1)"
      by (simp add: gas_def)
    with 2 show ?thesis by (rule call)
  next
    case 3
    with assms True have "gas_callcode ss evm = Ret (c, evm1)" "ws1 = ws"
      by (auto simp: gas_def)
    with 3 show ?thesis by (rule callcode)
  next
    case 4
    with assms True have "gas_delegatecall ss evm = Ret (c, evm1)" "ws1 = ws"
      by (auto simp: gas_def)
    with 4 show ?thesis by (rule delegatecall)
  next
    case 5
    with assms True have "gas_selfdestruct X env evm ws = Ret (c, ws1)" "evm1 = evm"
      by (auto simp: gas_def)
    with 5 show ?thesis by (rule selfdestruct)
  next
    case 6
    with assms True have "gas_simple opcode ss env evm = Ret c" "evm1 = evm" "ws1 = ws"
      by (auto simp: gas_def)
    with True 6 show ?thesis by (rule simple)
  qed
qed

lemma gas_frame:
  assumes "gas X opcode ss env evm ws = Ret (c, evm1, ws1)"
  shows "(\<exists>m. evm1 = forget_child m evm) \<and> reads X ws ws1"
proof -
  have self: "\<exists>m. evm = forget_child m evm" by (metis forget_child_sel(12))
  show ?thesis
    using assms
  proof (cases rule: gas_cases)
    case callcode
    then show ?thesis by (auto simp: gas_callcode_def Let_def intro: charge_call_frame)
  next
    case delegatecall
    then show ?thesis by (auto simp: gas_delegatecall_def Let_def intro: charge_call_frame)
  qed (use self in \<open>auto dest: gas_call_frame gas_sstore_frame gas_selfdestruct_frame\<close>)
qed

text \<open>From the second call on the gas function is stationary.\<close>

lemma gas_call_again:
  assumes "gas_call X ss evm ws = Ret (c, evm1, ws1)"
  shows "\<exists>c2 evm2. gas_call X ss evm1 ws1 = Ret (c2, evm2, ws1)"
proof -
  obtain m where evm1: "evm1 = forget_child m evm" using gas_call_frame [OF assms] by auto
  have "\<exists>c2 evm2. gas_call X ss evm ws1 = Ret (c2, evm2, ws1)"
    using assms unfolding gas_call_def Let_def
    by (elim RetE) (fastforce split: prod.splits dest: call_create_cost_again)
  then show ?thesis by (simp add: evm1)
qed

lemma get_balance_again:
  "get_balance X ws a = Ret (r, ws1) \<Longrightarrow> same_store ws1 ws2 \<Longrightarrow> ws_cache ws2 a = ws_cache ws1 a \<Longrightarrow>
   \<exists>r'. get_balance X ws2 a = Ret (r', ws2)"
  unfolding get_balance_def by (rule with_account_again)

text \<open>Loading a second account keeps what the first load found.\<close>

lemma is_physically_exist_keeps:
  assumes "get_balance X ws a = Ret (r, ws1)" "is_physically_exist X ws1 b = Ret (e, ws2)"
  shows "ws_cache ws2 a = ws_cache ws1 a"
  using assms(2) unfolding is_physically_exist_def
proof (cases rule: with_account_cases)
  case (loaded m)
  then have "b \<noteq> a \<or> ws_cache ws1 a = None" by auto
  moreover have "\<not> (b = a \<and> ws_cache ws1 a = None)"
  proof
    assume *: "b = a \<and> ws_cache ws1 a = None"
    from assms(1) show False unfolding get_balance_def
    proof (cases rule: with_account_cases)
      case absent
      with * loaded show False by (auto simp: contain_mpt_cong)
    qed (use * in \<open>auto dest: add_cache_cached\<close>)
  qed
  ultimately show ?thesis using loaded by (auto simp: add_cache_def)
qed auto

lemma unwrap_or_Some_idem: "unwrap_or r d = x \<Longrightarrow> unwrap_or (Some x) d = x"
  by simp

lemma gas_selfdestruct_again:
  assumes "gas_selfdestruct X env evm ws = Ret (c, ws1)"
  shows "\<exists>c2. gas_selfdestruct X env evm ws1 = Ret (c2, ws1)"
proof (cases "e_version evm < TangerineWhistle")
  case True
  with assms show ?thesis by (simp add: gas_selfdestruct_def)
next
  case False
  with assms obtain data b ws0 cc where d: "peek evm 0 = Ret data"
    and b: "get_balance X ws (i_address env) = Ret (b, ws0)"
    and sd: "selfdestruct_create_cost X (e_version evm) (unwrap_or b 0) (from_word data) ws0 = Ret (cc, ws1)"
    by (auto simp: gas_selfdestruct_def)
  have rd: "reads X ws0 ws1" by (rule selfdestruct_create_cost_reads [OF sd])
  have same: "ws_cache ws1 (i_address env) = ws_cache ws0 (i_address env)"
    using sd by (auto simp: selfdestruct_create_cost_def split: if_splits
        dest: is_physically_exist_keeps [OF b])
  from get_balance_again [OF b reads_same_store [OF rd] same] obtain b' where
    b': "get_balance X ws1 (i_address env) = Ret (b', ws1)" by auto
  have "view X ws1 = view X ws"
    using reads_view [OF rd] reads_view [OF getters_reads(3) [OF b]] by simp
  then have "b' = b" using get_balance_view [OF b] get_balance_view [OF b'] by simp
  then have "\<exists>c2. selfdestruct_create_cost X (e_version evm) (unwrap_or b' 0) (from_word data) ws1 = Ret (c2, ws1)"
    using sd is_physically_exist_again [of X ws0 "from_word data" _ ws1 ws1]
    by (fastforce simp: selfdestruct_create_cost_def split: if_splits)
  with False d b' show ?thesis by (auto simp: gas_selfdestruct_def)
qed

lemma gas_again:
  assumes "gas X opcode ss env evm ws = Ret (c, evm1, ws1)"
  shows "\<exists>c2 evm2. gas X opcode ss env evm1 ws1 = Ret (c2, evm2, ws1) \<and>
    gas X opcode ss env evm2 ws1 = Ret (c2, evm2, ws1)"
  using assms
proof (cases rule: gas_cases)
  case call
  then obtain c2 evm2 where *: "gas_call X ss evm1 ws1 = Ret (c2, evm2, ws1)"
    using gas_call_again by blast
  then obtain m where "evm2 = forget_child m evm1" using gas_call_frame by blast
  with * call show ?thesis by (simp add: gas_def GAS_TABLE_def)
next
  case callcode
  then obtain m where m: "evm1 = forget_child m evm" using gas_frame [OF assms] by blast
  with callcode show ?thesis by (simp add: gas_def GAS_TABLE_def)
next
  case delegatecall
  then obtain m where m: "evm1 = forget_child m evm" using gas_frame [OF assms] by blast
  from delegatecall(1) show ?thesis
    by (rule disjE) (use delegatecall(2,3) m in \<open>simp_all add: gas_def GAS_TABLE_def\<close>)
next
  case sstore
  then obtain c2 where "gas_sstore X ss env evm ws1 = Ret (c2, ws1)"
    by (fastforce simp: gas_sstore_def dest: get_storage_value_again)
  with sstore show ?thesis by (simp add: gas_def GAS_TABLE_def)
next
  case selfdestruct
  then obtain c2 where "gas_selfdestruct X env evm ws1 = Ret (c2, ws1)"
    using gas_selfdestruct_again by blast
  with selfdestruct show ?thesis by (simp add: gas_def GAS_TABLE_def)
qed (use assms in auto)

section \<open>Safe instructions\<close>

text \<open>
  Everything \<open>is_safe\<close> established when it answers yes: the machine and the state it returns, the
  cost \<open>c\<close> that every later call of the gas function will report, and the checks that passed.
\<close>

definition safe_op ::
  "('t, 'r) ext \<Rightarrow> nat \<Rightarrow> substate \<Rightarrow> exec_env \<Rightarrow> evm \<Rightarrow> ('t, 'r) world_state \<Rightarrow> u256 \<Rightarrow> evm \<Rightarrow>
   ('t, 'r) world_state \<Rightarrow> bool" where
  "safe_op X opcode ss env evm ws c evm1 ws1 \<longleftrightarrow>
     (\<exists>m. evm1 = forget_child m evm) \<and> reads X ws ws1 \<and>
     gas X opcode ss env evm1 ws1 = Ret (c, evm1, ws1) \<and> c \<le> e_gas evm \<and>
     fst (SAFE_TABLE opcode) \<noteq> 255 \<and> \<not> fork_disabled (e_version evm) opcode \<and>
     fst (SAFE_TABLE opcode) \<le> length (e_stack evm) \<and>
     length (e_stack evm) + snd (SAFE_TABLE opcode) - fst (SAFE_TABLE opcode) \<le> 1024 \<and>
     is_safe_jump opcode evm1 = Ret True \<and> is_safe_returndata opcode evm1 = Ret True \<and>
     is_safe_static opcode env evm1 = Ret True \<and>
     (Istanbul \<le> e_version evm \<and> opcode = 0x55 \<longrightarrow> 2300 < e_gas evm)"

text \<open>How far the check went: not to the price, or past it with the outcome of each later test.\<close>

lemma is_safe_bounds:
  assumes "is_safe X opcode ss env evm ws = Ret (ok, evm1, ws1)"
  obtains (invalid) "\<not> ok" "evm1 = evm" "ws1 = ws"
  | (priced) c evmA wsA where "gas X opcode ss env evm ws = Ret (c, evmA, wsA)"
      "fst (SAFE_TABLE opcode) \<noteq> 255" "\<not> fork_disabled (e_version evm) opcode"
      "fst (SAFE_TABLE opcode) \<le> length (e_stack evm)"
      "length (e_stack evm) + snd (SAFE_TABLE opcode) - fst (SAFE_TABLE opcode) \<le> 1024"
      "e_gas evmA < c \<Longrightarrow> \<not> ok \<and> evm1 = evmA \<and> ws1 = wsA"
      "\<And>c2 evm2. c \<le> e_gas evmA \<Longrightarrow> gas X opcode ss env evmA wsA = Ret (c2, evm2, wsA) \<Longrightarrow>
         evm1 = evm2 \<and> ws1 = wsA \<and>
         (ok \<longrightarrow> c2 \<le> e_gas evm2 \<and> is_safe_jump opcode evm2 = Ret True \<and>
            is_safe_returndata opcode evm2 = Ret True \<and> is_safe_static opcode env evm2 = Ret True \<and>
            (Istanbul \<le> e_version evm2 \<and> opcode = 0x55 \<longrightarrow> 2300 < e_gas evm2))"
proof (cases "fst (SAFE_TABLE opcode) = 255 \<or> fork_disabled (e_version evm) opcode \<or>
    length (e_stack evm) < fst (SAFE_TABLE opcode) \<or>
    length (e_stack evm) + snd (SAFE_TABLE opcode) - fst (SAFE_TABLE opcode) > 1024")
  case True
  then have "is_safe X opcode ss env evm ws = Ret (False, evm, ws)" by (auto simp: is_safe_def Let_def)
  with assms show ?thesis by (intro invalid) simp_all
next
  case False
  then have valid: "fst (SAFE_TABLE opcode) \<noteq> 255" "\<not> fork_disabled (e_version evm) opcode"
    "\<not> length (e_stack evm) < fst (SAFE_TABLE opcode)"
    "\<not> length (e_stack evm) + snd (SAFE_TABLE opcode) - fst (SAFE_TABLE opcode) > 1024" by auto
  note s = assms [unfolded is_safe_def Let_def valid [THEN if_not_P]]
  from s obtain c evmA wsA where g: "gas X opcode ss env evm ws = Ret (c, evmA, wsA)" by auto
  note s = s [unfolded g bindR.simps prod.case]
  show ?thesis
    by (rule priced [OF g]) (use valid s in \<open>auto split: if_splits\<close>)
qed

lemma is_safe_cases:
  assumes "is_safe X opcode ss env evm ws = Ret (ok, evm1, ws1)"
  obtains (unsafe) m where "\<not> ok" "evm1 = forget_child m evm" "reads X ws ws1"
  | (safe) c where "ok" "safe_op X opcode ss env evm ws c evm1 ws1"
  using assms
proof (cases rule: is_safe_bounds)
  case invalid
  then show ?thesis by (intro unsafe [of "e_child_gas_mem evm"]) auto
next
  case (priced c1 evmA wsA)
  from gas_frame [OF priced(1)] obtain m where A: "evmA = forget_child m evm" "reads X ws wsA" by auto
  from gas_again [OF priced(1)] obtain c2 evm2 where g2: "gas X opcode ss env evmA wsA = Ret (c2, evm2, wsA)"
    and g3: "gas X opcode ss env evm2 wsA = Ret (c2, evm2, wsA)" by auto
  from gas_frame [OF g2] A obtain m' where B: "evm2 = forget_child m' evm" by auto
  show ?thesis
  proof (cases "c1 \<le> e_gas evmA")
    case False
    with priced(6) A show ?thesis by (intro unsafe [of m]) auto
  next
    case True
    note end_of = priced(7) [OF True g2]
    show ?thesis
    proof (cases ok)
      case True
      with end_of A B g3 priced(2-5) show ?thesis by (intro safe [of c2]) (auto simp: safe_op_def)
    next
      case False
      with end_of A B show ?thesis by (intro unsafe [of m']) simp_all
    qed
  qed
qed

section \<open>One iteration\<close>

text \<open>The state in which the opcode of a safe instruction runs: gas charged, counter advanced.\<close>

definition charged :: "nat \<Rightarrow> u256 \<Rightarrow> evm \<Rightarrow> evm res" where
  "charged opcode c evm = advance_pc opcode (evm\<lparr>e_gas := e_gas evm - c\<rparr>)"

lemma execution_safe:
  assumes "safe_op X opcode ss env evm ws c evm1 ws1"
  shows "execution X run opcode env evm1 lv ws1 ss =
    bindR (charged opcode c evm1) (\<lambda>evm2. dispatch X run opcode env evm2 lv ws1 ss)"
proof -
  have "c \<le> e_gas evm1" using assms by (auto simp: safe_op_def)
  then have "sat_sub (e_gas evm1) c = e_gas evm1 - c"
    by (simp add: sat_sub_def not_less [symmetric])
  with assms show ?thesis by (simp add: execution_def charged_def safe_op_def)
qed

lemma evm_iter_safe:
  assumes "opcode = current_opcode (i_byte env) (e_pc evm)"
    and "is_safe X opcode ss env evm ws = Ret (True, evm1, ws1)" "safe_op X opcode ss env evm ws c evm1 ws1"
  shows "evm_iter X run env evm lv ws ss =
    bindR (charged opcode c evm1) (\<lambda>evm2.
    bindR (dispatch X run opcode env evm2 lv ws1 ss) (\<lambda>(result, evm3, lv1, ws3, ss1).
        case result of
          Some True \<Rightarrow> Ret (RErr (Some (e_return_back evm3)), evm3, lv1, ws3, ss1)
        | Some False \<Rightarrow> Ret (ROk (e_return_back evm3), evm3, lv1, ws3, ss1)
        | None \<Rightarrow> run env evm3 lv1 ws3 ss1))"
proof -
  from assms(3) have "gas X opcode ss env evm1 ws1 = Ret (c, evm1, ws1)" by (simp add: safe_op_def)
  with assms(1,2) execution_safe [OF assms(3)] show ?thesis
    by (simp add: evm_iter_def bindR_assoc Let_def)
qed

lemma evm_iter_cases:
  assumes "evm_iter X run env evm lv ws ss = Ret (r, evm', lv', ws', ss')"
  obtains (unsafe) m where "r = RErr None" "evm' = forget_child m evm" "lv' = lv" "reads X ws ws'" "ss' = ss"
  | (halt) opcode c evm1 ws1 evm2 b where "opcode = current_opcode (i_byte env) (e_pc evm)"
      "safe_op X opcode ss env evm ws c evm1 ws1" "charged opcode c evm1 = Ret evm2"
      "dispatch X run opcode env evm2 lv ws1 ss = Ret (Some b, evm', lv', ws', ss')"
      "r = (if b then RErr (Some (e_return_back evm')) else ROk (e_return_back evm'))"
  | (continue) opcode c evm1 ws1 evm2 evm3 lv1 ws3 ss1 where
      "opcode = current_opcode (i_byte env) (e_pc evm)"
      "safe_op X opcode ss env evm ws c evm1 ws1" "charged opcode c evm1 = Ret evm2"
      "dispatch X run opcode env evm2 lv ws1 ss = Ret (None, evm3, lv1, ws3, ss1)"
      "run env evm3 lv1 ws3 ss1 = Ret (r, evm', lv', ws', ss')"
proof -
  define opcode where "opcode = current_opcode (i_byte env) (e_pc evm)"
  from assms obtain ok evm1 ws1 where s: "is_safe X opcode ss env evm ws = Ret (ok, evm1, ws1)"
    by (auto simp: evm_iter_def Let_def opcode_def)
  from s show ?thesis
  proof (cases rule: is_safe_cases)
    case (unsafe m)
    with assms s have "r = RErr None" "evm' = evm1" "lv' = lv" "ws' = ws1" "ss' = ss"
      by (simp_all add: evm_iter_def Let_def opcode_def [symmetric])
    with unsafe show ?thesis by (intro that(1) [of m]) simp_all
  next
    case (safe c)
    with s have "is_safe X opcode ss env evm ws = Ret (True, evm1, ws1)" by simp
    with safe(2) have "bindR (charged opcode c evm1) (\<lambda>evm2.
      bindR (dispatch X run opcode env evm2 lv ws1 ss) (\<lambda>(result, evm3, lv1, ws3, ss1).
        case result of
          Some True \<Rightarrow> Ret (RErr (Some (e_return_back evm3)), evm3, lv1, ws3, ss1)
        | Some False \<Rightarrow> Ret (ROk (e_return_back evm3), evm3, lv1, ws3, ss1)
        | None \<Rightarrow> run env evm3 lv1 ws3 ss1)) = Ret (r, evm', lv', ws', ss')"
      using assms evm_iter_safe [OF opcode_def, of X ss ws evm1 ws1 c run lv] by simp
    then obtain evm2 result evm3 lv1 ws3 ss1 where d: "charged opcode c evm1 = Ret evm2"
      "dispatch X run opcode env evm2 lv ws1 ss = Ret (result, evm3, lv1, ws3, ss1)"
      and e: "(case result of
          Some True \<Rightarrow> Ret (RErr (Some (e_return_back evm3)), evm3, lv1, ws3, ss1)
        | Some False \<Rightarrow> Ret (ROk (e_return_back evm3), evm3, lv1, ws3, ss1)
        | None \<Rightarrow> run env evm3 lv1 ws3 ss1) = Ret (r, evm', lv', ws', ss')"
      by auto
    show ?thesis
    proof (cases result)
      case None
      with d e show ?thesis by (intro that(3) [OF opcode_def safe(2) d(1)]) simp_all
    next
      case (Some b)
      with d e show ?thesis
        by (intro that(2) [OF opcode_def safe(2) d(1), of b]) (auto split: bool.splits)
    qed
  qed
qed

section \<open>Exhausted fuel comes only from sub-runs\<close>

lemma gas_simple_no_fuel [simp]: "gas_simple opcode ss env evm \<noteq> OutOfFuel"
  by (simp add: gas_simple_def gas_exp_def gas_keccak256_def gas_balance_def gas_extcodesize_def
      gas_extcodehash_def gas_copy_def gas_extcodecopy_def gas_mload_def gas_mstore8_def gas_sload_def
      gas_log_def gas_create_def gas_return_def gas_create2_def no_fuel Let_def)

lemma gas_no_fuel [simp]: "gas X opcode ss env evm ws \<noteq> OutOfFuel"
  by (simp add: gas_def gas_sstore_def gas_call_def gas_callcode_def gas_delegatecall_def
      gas_selfdestruct_def call_create_cost_def selfdestruct_create_cost_def no_fuel Let_def
      split: prod.split)

lemma is_safe_no_fuel [simp]: "is_safe X opcode ss env evm ws \<noteq> OutOfFuel"
  by (simp add: is_safe_def is_safe_jump_def is_safe_returndata_def is_safe_static_def no_fuel Let_def
      split: prod.split)

lemma advance_pc_no_fuel [simp]: "advance_pc opcode evm \<noteq> OutOfFuel"
  by (simp add: advance_pc_def no_fuel split: prod.split)

end
