(* ===== verification/Gas_Bound.thy ===== *)
theory Gas_Bound
  imports Gas_Step
begin

text \<open>
  Gas bounds the execution.  Every instruction that does not halt costs at least one unit of gas, a
  sub-call receives less gas than its caller had and returns no more than it received, so a machine
  with gas \<open>g\<close> runs for at most \<open>g\<close> further iterations, sub-calls included: fuel beyond \<open>g\<close> is never
  exhausted.
\<close>

section \<open>Lower bounds on costs\<close>

text \<open>The largest amount of gas for which no saturating addition of costs saturates.\<close>

definition gas_ok :: "u256 \<Rightarrow> bool" where
  "gas_ok g \<longleftrightarrow> unat g < 2 ^ 256 - 1"

lemma gas_ok_mono: "gas_ok g \<Longrightarrow> unat h \<le> unat g \<Longrightarrow> gas_ok h"
  by (simp add: gas_ok_def)

lemma le_unat: "(a :: u256) \<le> b \<longleftrightarrow> unat a \<le> unat b"
  by (rule word_le_nat_alt)

lemma GAS_TABLE_less: "GAS_TABLE opcode < 256"
  by (simp add: GAS_TABLE_def)

lemma unat_of_nat_small: "n < 2 ^ 256 \<Longrightarrow> unat (of_nat n :: u256) = n"
  by (simp add: unat_of_nat)

lemma sstore_cost_pos: "100 \<le> unat (sstore_cost v kc key cur new)"
  by (auto simp: sstore_cost_def Let_def unat_word_ariths version_order split: option.split)

text \<open>
  Elimination rules that walk down a table without collecting the conditions already passed.
\<close>

lemma if_eqE: "(if c then x else y) = v \<Longrightarrow> (c \<Longrightarrow> x = v \<Longrightarrow> P) \<Longrightarrow> (y = v \<Longrightarrow> P) \<Longrightarrow> P"
  by (cases c) auto
lemma if_fst_neqE: "fst (if c then x else y) \<noteq> v \<Longrightarrow> (c \<Longrightarrow> fst x \<noteq> v \<Longrightarrow> P) \<Longrightarrow> (fst y \<noteq> v \<Longrightarrow> P) \<Longrightarrow> P"
  by (cases c) auto

lemma GAS_TABLE_dynamic:
  assumes "GAS_TABLE opcode = 255"
  shows "opcode \<in> {0x0a, 0x20, 0x31, 0x37, 0x39, 0x3b, 0x3c, 0x3e, 0x3f} \<or>
    0x51 \<le> opcode \<and> opcode \<le> 0x55 \<or> 0xa0 \<le> opcode \<and> opcode \<le> 0xa4 \<or>
    0xf0 \<le> opcode \<and> opcode \<le> 0xff"
  using assms unfolding GAS_TABLE_def by (elim if_eqE) simp_all

lemma SAFE_TABLE_high:
  assumes "0xf0 \<le> opcode \<and> opcode \<le> 0xff" "fst (SAFE_TABLE opcode) \<noteq> 255"
  shows "opcode \<in> {0xf0, 0xf1, 0xf2, 0xf3, 0xf4, 0xf5, 0xfa, 0xfd, 0xff}"
  using assms(2,1) unfolding SAFE_TABLE_def by (elim if_fst_neqE) simp_all

lemma if_neqI: "(c \<Longrightarrow> x \<noteq> v) \<Longrightarrow> (\<not> c \<Longrightarrow> y \<noteq> v) \<Longrightarrow> (if c then x else y) \<noteq> v"
  by simp

lemma GAS_TABLE_range:
  assumes "0x10 \<le> opcode \<and> opcode \<le> 0x1d \<or> 0x32 \<le> opcode \<and> opcode \<le> 0x34 \<or>
    0x58 \<le> opcode \<and> opcode \<le> 0x5a \<or> opcode = 0x5f \<or> 0x60 \<le> opcode \<and> opcode \<le> 0x9f \<or>
    0xa0 \<le> opcode \<and> opcode \<le> 0xa4" "opcode \<noteq> 0"
  shows "GAS_TABLE opcode \<noteq> 0"
  using assms unfolding GAS_TABLE_def by (intro if_neqI) (rule numeral_neq_zero one_neq_zero | blast)+

lemma GAS_TABLE_set:
  assumes "opcode \<in> {0x01, 0x02, 0x03, 0x04, 0x05, 0x06, 0x07, 0x41, 0x42, 0x43, 0x44, 0x45, 0x46, 0x47, 0x48}"
  shows "GAS_TABLE opcode \<noteq> 0"
  using assms by (elim insertE emptyE) (simp_all add: GAS_TABLE_def)

lemma range_sets:
  "0x01 \<le> opcode \<and> opcode \<le> 0x07 \<Longrightarrow> opcode \<in> {0x01, 0x02, 0x03, 0x04, 0x05, 0x06, 0x07 :: nat}"
  "0x41 \<le> opcode \<and> opcode \<le> 0x48 \<Longrightarrow> opcode \<in> {0x41, 0x42, 0x43, 0x44, 0x45, 0x46, 0x47, 0x48 :: nat}"
  by (simp_all, presburger+)

lemma GAS_TABLE_pos: "fst (SAFE_TABLE opcode) \<noteq> 255 \<Longrightarrow> opcode \<noteq> 0 \<Longrightarrow> GAS_TABLE opcode \<noteq> 0"
  unfolding SAFE_TABLE_def
  by (elim if_fst_neqE)
     ((rule GAS_TABLE_set, drule range_sets, blast) | (rule GAS_TABLE_range, simp, assumption) |
      (simp only: GAS_TABLE_def, simp))+

lemma is_account_access_pos: "100 \<le> unat (is_account_access d ss)"
  by (simp add: is_account_access_def)

lemma sat_add_pos: "0 < unat b \<Longrightarrow> 0 < unat (sat_add a b)" "0 < unat a \<Longrightarrow> 0 < unat (sat_add a b)"
  by (simp_all add: unat_sat_add)

lemma gas_arms_pos:
  "gas_exp evm = Ret c \<Longrightarrow> 0 < unat c"
  "gas_keccak256 evm = Ret c \<Longrightarrow> 0 < unat c"
  "gas_copy evm = Ret c \<Longrightarrow> 0 < unat c"
  "gas_mload evm = Ret c \<Longrightarrow> 0 < unat c"
  "gas_mstore8 evm = Ret c \<Longrightarrow> 0 < unat c"
  "gas_log opcode evm = Ret c \<Longrightarrow> 0 < unat c"
  "gas_create evm = Ret c \<Longrightarrow> 0 < unat c"
  "gas_create2 evm = Ret c \<Longrightarrow> 0 < unat c"
  by (auto simp: gas_exp_def gas_keccak256_def gas_copy_def gas_mload_def gas_mstore8_def gas_log_def
      gas_create_def gas_create2_def Let_def intro!: sat_add_pos(1))

lemma gas_access_arms_pos:
  "gas_balance ss evm = Ret c \<Longrightarrow> 0 < unat c"
  "gas_extcodesize ss evm = Ret c \<Longrightarrow> 0 < unat c"
  "gas_extcodehash ss evm = Ret c \<Longrightarrow> 0 < unat c"
  "gas_extcodecopy ss evm = Ret c \<Longrightarrow> 0 < unat c"
  "gas_sload ss env evm = Ret c \<Longrightarrow> 0 < unat c"
proof -
  have acc: "0 < unat (is_account_access d ss)" for d
    using is_account_access_pos [of d ss] by simp
  show "gas_balance ss evm = Ret c \<Longrightarrow> 0 < unat c" "gas_extcodesize ss evm = Ret c \<Longrightarrow> 0 < unat c"
    "gas_extcodehash ss evm = Ret c \<Longrightarrow> 0 < unat c"
    using acc by (auto simp: gas_balance_def gas_extcodesize_def gas_extcodehash_def split: if_split_asm)
  show "gas_extcodecopy ss evm = Ret c \<Longrightarrow> 0 < unat c"
    by (auto simp: gas_extcodecopy_def Let_def intro!: sat_add_pos(2) acc)
  show "gas_sload ss env evm = Ret c \<Longrightarrow> 0 < unat c"
    by (auto simp: gas_sload_def split: option.split)
qed

lemma gas_simple_pos:
  assumes "gas_simple opcode ss env evm = Ret c" "GAS_TABLE opcode = 255"
    and "opcode \<notin> {0x55, 0xf1, 0xf2, 0xf4, 0xfa, 0xff}" "opcode \<noteq> 0xf3" "opcode \<noteq> 0xfd"
    and "fst (SAFE_TABLE opcode) \<noteq> 255"
  shows "0 < unat c"
proof -
  have "0x51 \<le> opcode \<and> opcode \<le> 0x55 \<Longrightarrow> opcode \<in> {0x51, 0x52, 0x53, 0x54, 0x55}"
    and "0xa0 \<le> opcode \<and> opcode \<le> 0xa4 \<Longrightarrow> opcode \<in> {0xa0, 0xa1, 0xa2, 0xa3, 0xa4}"
    by auto
  with GAS_TABLE_dynamic [OF assms(2)] SAFE_TABLE_high [OF _ assms(6)] assms(3-5)
  have "opcode \<in> {0x0a, 0x20, 0x31, 0x3b, 0x3f, 0x37, 0x39, 0x3e, 0x3c, 0x51, 0x52, 0x53, 0x54,
      0xa0, 0xa1, 0xa2, 0xa3, 0xa4, 0xf0, 0xf5}"
    by blast
  then show ?thesis
    using assms(1)
    by (elim insertE emptyE) (simp_all add: gas_simple_def gas_arms_pos gas_access_arms_pos)
qed

section \<open>Charges of the call opcodes\<close>

lemma call_access_cost_ge: "40 \<le> unat (call_access_cost v a ss)"
  using is_account_access_pos [of a ss] by (simp add: call_access_cost_def)

lemma call_create_cost_ge:
  "call_create_cost X v val a ws = Ret (cc, ws1) \<Longrightarrow> val \<noteq> 0 \<Longrightarrow> 9000 \<le> unat cc"
  by (auto simp: call_create_cost_def Let_def nat_word split: if_splits)

text \<open>\<open>paid c evm1 b\<close>: the charge \<open>c\<close> is the recorded child gas plus \<open>b\<close>, without saturation.\<close>

definition paid :: "u256 \<Rightarrow> evm \<Rightarrow> nat \<Rightarrow> bool" where
  "paid c evm1 b \<longleftrightarrow> (\<exists>g. e_child_gas_mem evm1 = Some g \<and> unat c = unat g + b)"

lemma charge_call_paid:
  "charge_call evm base limit = (c, evm1) \<Longrightarrow> gas_ok c \<Longrightarrow> paid c evm1 (unat base)"
  by (auto simp: charge_call_def Let_def paid_def gas_ok_def nat_word)

lemma base_cost_ge:
  "40 \<le> unat (sat_add (sat_add e (call_access_cost v a ss)) cc)"
  "9000 \<le> unat cc \<Longrightarrow> 9000 \<le> unat (sat_add (sat_add e (call_access_cost v a ss)) cc)"
  "40 \<le> unat (sat_add e (call_access_cost v a ss))"
  using call_access_cost_ge [of v a ss] by (simp_all add: nat_word)

lemma gas_call_paid:
  assumes "gas_call X ss evm ws = Ret (c, evm1, ws1)" "gas_ok c"
  shows "\<exists>b \<ge> 40. paid c evm1 b \<and> (e_stack evm ! 2 \<noteq> 0 \<longrightarrow> 9000 \<le> b)"
proof -
  from assms(1) obtain x a val e cc where val: "peek evm 2 = Ret val"
    and cc: "call_create_cost X (e_version evm) val a ws = Ret (cc, ws1)"
    and p: "\<exists>limit. charge_call evm (sat_add (sat_add e (call_access_cost (e_version evm) x ss)) cc) limit = (c, evm1)"
    by (fastforce simp: gas_call_def Let_def split: prod.splits)
  from val have "val = e_stack evm ! 2" by (simp add: peek_eq_Ret)
  with call_create_cost_ge [OF cc] have "e_stack evm ! 2 \<noteq> 0 \<longrightarrow> 9000 \<le> unat cc" by simp
  with p charge_call_paid [OF _ assms(2)] base_cost_ge show ?thesis by blast
qed

lemma gas_callcode_paid:
  assumes "gas_callcode ss evm = Ret (c, evm1)" "gas_ok c"
  shows "\<exists>b \<ge> 40. paid c evm1 b \<and> (e_stack evm ! 2 \<noteq> 0 \<longrightarrow> 9000 \<le> b)"
proof -
  from assms(1) obtain x val e where val: "peek evm 2 = Ret val"
    and p: "\<exists>limit. charge_call evm (sat_add (sat_add e (call_access_cost (e_version evm) x ss))
        (if val \<noteq> 0 then sat_add 0 9000 else 0)) limit = (c, evm1)"
    by (auto simp: gas_callcode_def Let_def)
  from val have "val = e_stack evm ! 2" by (simp add: peek_eq_Ret)
  then have "e_stack evm ! 2 \<noteq> 0 \<longrightarrow> 9000 \<le> unat (if val \<noteq> 0 then sat_add 0 9000 else 0)"
    by (simp add: nat_word)
  with p charge_call_paid [OF _ assms(2)] base_cost_ge show ?thesis by blast
qed

lemma gas_delegatecall_paid:
  assumes "gas_delegatecall ss evm = Ret (c, evm1)" "gas_ok c"
  shows "\<exists>b \<ge> 40. paid c evm1 b"
proof -
  from assms(1) obtain x e where
    p: "\<exists>limit. charge_call evm (sat_add e (call_access_cost (e_version evm) x ss)) limit = (c, evm1)"
    by (auto simp: gas_delegatecall_def Let_def)
  with charge_call_paid [OF _ assms(2)] base_cost_ge(3) show ?thesis by blast
qed

text \<open>The charge of a safe call opcode covers the child gas and, with a value, the stipend.\<close>

lemma safe_call_paid:
  assumes "safe_op X opcode ss env evm ws c evm1 ws1" "gas_ok (e_gas evm)"
    and "opcode \<in> {0xf1, 0xf2, 0xf4, 0xfa}"
  shows "\<exists>b \<ge> 40. paid c evm1 b \<and> (opcode \<in> {0xf1, 0xf2} \<and> e_stack evm ! 2 \<noteq> 0 \<longrightarrow> 9000 \<le> b)"
proof -
  from assms(1) obtain m where g: "gas X opcode ss env evm1 ws1 = Ret (c, evm1, ws1)"
    and c: "c \<le> e_gas evm" and evm1: "evm1 = forget_child m evm" by (auto simp: safe_op_def)
  from c assms(2) have ok: "gas_ok c" by (simp add: gas_ok_mono le_unat)
  have table: "GAS_TABLE opcode = 255"
    using assms(3) by (elim insertE emptyE) (simp_all add: GAS_TABLE_def)
  have st: "e_stack evm1 = e_stack evm" by (simp add: evm1)
  from g show ?thesis
  proof (cases rule: gas_cases)
    case call
    with gas_call_paid [OF call(2) ok] st show ?thesis by auto
  next
    case callcode
    with gas_callcode_paid [OF callcode(2) ok] st show ?thesis by auto
  next
    case delegatecall
    with gas_delegatecall_paid [OF delegatecall(2) ok] show ?thesis by auto
  qed (use assms(3) table in auto)
qed

section \<open>Progress in gas\<close>

text \<open>Every instruction that lets the loop continue costs gas.\<close>

lemma safe_op_cost_pos:
  assumes "safe_op X opcode ss env evm ws c evm1 ws1" "gas_ok (e_gas evm)"
    and "opcode \<notin> {0x00, 0xf3, 0xfd, 0xff}"
  shows "0 < unat c"
proof -
  from assms(1) have g: "gas X opcode ss env evm1 ws1 = Ret (c, evm1, ws1)"
    and v: "fst (SAFE_TABLE opcode) \<noteq> 255" by (simp_all add: safe_op_def)
  have calls: "opcode \<in> {0xf1, 0xf2, 0xf4, 0xfa} \<Longrightarrow> 0 < unat c"
    using safe_call_paid [OF assms(1,2)] by (auto simp: paid_def)
  from g show ?thesis
  proof (cases rule: gas_cases)
    case const
    then show ?thesis
      using GAS_TABLE_pos [OF v] GAS_TABLE_less [of opcode] assms(3)
      by (simp add: unat_of_nat_small)
  next
    case sstore
    then obtain kc key cur new where "c = sstore_cost (e_version evm1) kc key cur new"
      by (auto simp: gas_sstore_def)
    then show ?thesis
      using sstore_cost_pos [of "e_version evm1" kc key cur new] by simp
  next
    case simple
    then show ?thesis using gas_simple_pos assms(3) v by auto
  qed (use calls assms(3) in auto)
qed

section \<open>Precompiled contracts\<close>

text \<open>A precompile keeps the gas it does not use, or fails without gas and without data.\<close>

definition settles :: "exec_result \<Rightarrow> u256 \<Rightarrow> bool" where
  "settles r g \<longleftrightarrow> (case r of XOk h _ \<Rightarrow> unat h \<le> unat g | XErr h d \<Rightarrow> h = 0 \<and> d = None)"

lemma settles_simps [simp]:
  "settles (XOk h d) g \<longleftrightarrow> unat h \<le> unat g"
  "settles (XErr h e) g \<longleftrightarrow> h = 0 \<and> e = None"
  by (simp_all add: settles_def)

lemma take_gas_settles:
  assumes "take_gas g u k = Ret r" "\<And>r. k (g - u) = Ret r \<Longrightarrow> settles r (g - u)"
  shows "settles r g"
proof (cases "g < u")
  case True
  with assms(1) show ?thesis by (auto simp: take_gas_def)
next
  case False
  then have "unat (g - u) \<le> unat g" by (simp add: unat_sub_le not_less)
  moreover from False assms have "settles r (g - u)" by (simp add: take_gas_def)
  ultimately show ?thesis by (auto simp: settles_def split: exec_result.splits)
qed

lemma precompile_settles:
  "ecrec X g d = Ret r \<Longrightarrow> settles r g"
  "sha256 X g d = Ret r \<Longrightarrow> settles r g"
  "precompile_ripemd160 X g d = Ret r \<Longrightarrow> settles r g"
  "precompile_identity g d = Ret r \<Longrightarrow> settles r g"
  "bn_add X g d v = Ret r \<Longrightarrow> settles r g"
  "bn_mul X g d v = Ret r \<Longrightarrow> settles r g"
  "my_rsa X g d = Ret r \<Longrightarrow> settles r g"
  unfolding ecrec_def sha256_def precompile_ripemd160_def precompile_identity_def bn_add_def bn_mul_def
    my_rsa_def
  by (erule take_gas_settles; auto simp: Let_def split: if_splits option.splits)+

lemma expmod_settles: "expmod X g d v = Ret r \<Longrightarrow> settles r g"
  unfolding expmod_def
  by (auto simp: Let_def split: if_splits elim!: take_gas_settles)

lemma bn_pairing_settles: "bn_pairing X g d v = Ret r \<Longrightarrow> settles r g"
  unfolding bn_pairing_def Let_def
  by (auto split: if_split_asm option.splits elim!: take_gas_settles)

lemma my_groth16_settles: "my_groth16 X g d = Ret r \<Longrightarrow> settles r g"
  unfolding my_groth16_def Let_def
  by (auto split: if_splits option.splits elim!: take_gas_settles)

lemma my_poseidon_settles: "my_poseidon X g d = Ret r \<Longrightarrow> settles r g"
  unfolding my_poseidon_def Let_def
  by (auto split: if_splits option.splits elim!: take_gas_settles)

lemma precompiled_settles:
  "precompiled X v c g d = Some (Ret r) \<Longrightarrow> settles r g"
  unfolding precompiled_def
  by (auto split: if_split_asm dest: precompile_settles expmod_settles bn_pairing_settles
      my_groth16_settles my_poseidon_settles)

end
