(* ===== verification/Runner.thy ===== *)
theory Runner
  imports Gas_Bound
begin

text \<open>
  The contract of the function that executes code.  The locale \<open>runner\<close> states what the call and
  create opcodes rely on when they run a sub-call: the gas does not grow, the journal is only
  extended, the substate only grows, the backing store stays.  Under this contract \<open>message_call\<close>,
  \<open>contract_creation\<close>, every opcode and one iteration of the loop keep the same promises, so the
  contract holds of \<open>evm_run\<close> for every amount of fuel, and with more fuel than gas the run ends.
\<close>

section \<open>Frames of the state operations\<close>

text \<open>The journal is extended; everything else stays.\<close>

definition lv_ext :: "leviathan \<Rightarrow> leviathan \<Rightarrow> bool" where
  "lv_ext lv lv' \<longleftrightarrow> lv_version lv' = lv_version lv \<and> lv_substate_backup lv' = lv_substate_backup lv \<and>
     lv_eth_call lv' = lv_eth_call lv \<and> lv_return_data lv' = lv_return_data lv \<and>
     (\<exists>J. lv_journal lv' = J @ lv_journal lv)"

lemma lv_ext_refl [simp, intro]: "lv_ext lv lv"
  by (simp add: lv_ext_def)

lemma lv_ext_trans [trans]: "lv_ext a b \<Longrightarrow> lv_ext b c \<Longrightarrow> lv_ext a c"
  unfolding lv_ext_def by (metis append_assoc)

lemma lv_ext_merge [simp, intro]: "lv_ext lv (merge lv child)"
  by (simp add: lv_ext_def merge_def)

lemma action_push_frame:
  assumes "action_push X act lv ws = Ret (lv', ws')"
  shows "lv_ext lv lv' \<and> reads X ws ws'"
  using assms
  by (cases act) (auto simp: action_push_def lv_ext_def intro: get_storage_value_reads getters_reads)

lemma setters_store:
  "update_cached a f ws = Ret ws' \<Longrightarrow> same_store ws ws'"
  "add_balance a v ws = Ret ws' \<Longrightarrow> same_store ws ws'"
  "inc_nonce a ws = Ret ws' \<Longrightarrow> same_store ws ws'"
  "dec_nonce a ws = Ret ws' \<Longrightarrow> same_store ws ws'"
  "set_storage a k v ws = Ret ws' \<Longrightarrow> same_store ws ws'"
  "remove_storage a k ws = Ret ws' \<Longrightarrow> same_store ws ws'"
  "set_code a c ws = Ret ws' \<Longrightarrow> same_store ws ws'"
  "reset_storage a ws = Ret ws' \<Longrightarrow> same_store ws ws'"
  "reset_balance a ws = Ret ws' \<Longrightarrow> same_store ws ws'"
  by (auto simp: add_balance_def inc_nonce_def dec_nonce_def set_storage_def remove_storage_def
      set_code_def reset_storage_def reset_balance_def update_cached_def split: if_splits)

lemma send_eth_store: "send_eth a b e ws = Ret (ok, ws') \<Longrightarrow> same_store ws ws'"
  by (auto simp: send_eth_def Let_def split: if_splits dest!: setters_store(2)
      intro: same_store_trans [OF same_store_add_account])

lemma transfer_eth_store: "transfer_eth a b e ws = Ret ws' \<Longrightarrow> same_store ws ws'"
  by (auto simp: transfer_eth_def dest: send_eth_store)

lemma undo_action_store: "undo_action act ws = Ret ws' \<Longrightarrow> same_store ws ws'"
  by (cases act)
     (auto simp: undo_action_def split: if_splits intro: setters_store transfer_eth_store)

lemma undo_actions_store: "undo_actions acts ws = Ret ws' \<Longrightarrow> same_store ws ws'"
  by (induction acts arbitrary: ws) (auto intro: same_store_trans dest: undo_action_store)

lemma ensure_account_frame:
  assumes "ensure_account X v a lv ws = Ret (lv', ws')"
  shows "lv_ext lv lv' \<and> same_store ws ws'"
proof -
  from assms obtain dead ws1 where d: "is_dead X v ws a = Ret (dead, ws1)"
    and e: "(if dead then
       bindR (is_physically_exist X ws1 a) (\<lambda>(ex, ws2).
       if \<not> ex then action_push X (AccountCreation a) lv (add_account a (account_new X) ws2)
       else Ret (lv, ws2))
     else Ret (lv, ws1)) = Ret (lv', ws')"
    by (auto simp: ensure_account_def)
  have s1: "same_store ws ws1" using is_dead_reads [OF d] by (rule reads_same_store)
  consider "lv' = lv" "ws' = ws1"
    | ex where "is_physically_exist X ws1 a = Ret (ex, ws')" "lv' = lv"
    | ex ws2 where "is_physically_exist X ws1 a = Ret (ex, ws2)"
        "action_push X (AccountCreation a) lv (add_account a (account_new X) ws2) = Ret (lv', ws')"
    using e by (auto split: if_splits)
  then show ?thesis
  proof cases
    case 1
    with s1 show ?thesis by simp
  next
    case 2
    with s1 show ?thesis by (auto dest: getters_reads(1) reads_same_store intro: same_store_trans)
  next
    case 3
    have "same_store ws1 ws2" using 3(1) by (auto dest: getters_reads(1) reads_same_store)
    moreover have "same_store ws2 ws'"
      using action_push_frame [OF 3(2)] by (auto dest: reads_same_store intro: same_store_trans [OF same_store_add_account])
    ultimately show ?thesis using s1 action_push_frame [OF 3(2)] by (auto intro: same_store_trans)
  qed
qed

lemma journaled_frame:
  assumes "journaled X act f lv ws = Ret (lv', ws')" "\<And>ws ws'. f ws = Ret ws' \<Longrightarrow> same_store ws ws'"
  shows "lv_ext lv lv' \<and> same_store ws ws'"
  using assms
  by (auto simp: journaled_def dest!: action_push_frame dest: reads_same_store intro: same_store_trans)

lemma journaled_frames:
  "journaled X act (transfer_eth b c e) lv ws = Ret (lv', ws') \<Longrightarrow> lv_ext lv lv' \<and> same_store ws ws'"
  "journaled X act (inc_nonce b) lv ws = Ret (lv', ws') \<Longrightarrow> lv_ext lv lv' \<and> same_store ws ws'"
  "journaled X act (set_storage b k v) lv ws = Ret (lv', ws') \<Longrightarrow> lv_ext lv lv' \<and> same_store ws ws'"
  "journaled X act (remove_storage b k) lv ws = Ret (lv', ws') \<Longrightarrow> lv_ext lv lv' \<and> same_store ws ws'"
  "journaled X act (set_code b d) lv ws = Ret (lv', ws') \<Longrightarrow> lv_ext lv lv' \<and> same_store ws ws'"
  "journaled X act (reset_storage b) lv ws = Ret (lv', ws') \<Longrightarrow> lv_ext lv lv' \<and> same_store ws ws'"
  "journaled X act (reset_balance b) lv ws = Ret (lv', ws') \<Longrightarrow> lv_ext lv lv' \<and> same_store ws ws'"
  by (erule journaled_frame, erule transfer_eth_store setters_store)+

lemma frame_trans:
  "lv_ext lv lv1 \<and> same_store ws ws1 \<Longrightarrow> lv_ext lv1 lv2 \<and> same_store ws1 ws2 \<Longrightarrow>
   lv_ext lv lv2 \<and> same_store ws ws2"
  by (auto intro: lv_ext_trans same_store_trans)

lemma reads_frame:
  "reads X ws ws1 \<Longrightarrow> lv_ext lv lv2 \<and> same_store ws1 ws2 \<Longrightarrow> lv_ext lv lv2 \<and> same_store ws ws2"
  by (auto dest: reads_same_store intro: same_store_trans)

lemma transfer_value_cases:
  assumes "transfer_value X s r e lv ws = Ret (ok, lv', ws')"
  obtains (zero) "e = 0" "ok" "SpuriousDragon \<le> lv_version lv" "lv' = lv" "ws' = ws"
  | (old) "e = 0" "ok" "ensure_account X (lv_version lv) r lv ws = Ret (lv', ws')"
      "lv_version lv < SpuriousDragon"
  | (dead) "e \<noteq> 0" "\<not> ok" "lv' = lv" "is_dead X (lv_version lv) ws s = Ret (True, ws')"
  | (self) ws1 where "e \<noteq> 0" "ok" "s = r" "is_dead X (lv_version lv) ws s = Ret (False, ws1)"
      "ensure_account X (lv_version lv) r lv ws1 = Ret (lv', ws')"
  | (transfer) ws1 lv1 ws2 where "e \<noteq> 0" "ok" "s \<noteq> r"
      "is_dead X (lv_version lv) ws s = Ret (False, ws1)"
      "ensure_account X (lv_version lv) r lv ws1 = Ret (lv1, ws2)"
      "journaled X (SendEth s r e) (transfer_eth s r e) lv1 ws2 = Ret (lv', ws')"
proof (cases "e = 0")
  case True
  with assms have "ok" and "if lv_version lv < SpuriousDragon
      then ensure_account X (lv_version lv) r lv ws = Ret (lv', ws') else lv' = lv \<and> ws' = ws"
    by (auto simp: transfer_value_def split: if_splits)
  with True show ?thesis
    by (cases "lv_version lv < SpuriousDragon") (auto intro: zero old)
next
  case e: False
  with assms obtain d ws1 where d: "is_dead X (lv_version lv) ws s = Ret (d, ws1)"
    and rest: "(if d then Ret (False, lv, ws1) else
          bindR (ensure_account X (lv_version lv) r lv ws1) (\<lambda>(lv1, ws2).
          if s \<noteq> r then
            bindR (journaled X (SendEth s r e) (transfer_eth s r e) lv1 ws2)
              (\<lambda>(lv2, ws3). Ret (True, lv2, ws3))
          else Ret (True, lv1, ws2))) = Ret (ok, lv', ws')"
    by (auto simp: transfer_value_def)
  show ?thesis
  proof (cases d)
    case True
    with rest have "\<not> ok" "lv' = lv" "ws' = ws1" by simp_all
    with e d True show ?thesis by (intro dead) simp_all
  next
    case False
    with rest obtain lv1 ws2 where en: "ensure_account X (lv_version lv) r lv ws1 = Ret (lv1, ws2)"
      and tl: "(if s \<noteq> r then
            bindR (journaled X (SendEth s r e) (transfer_eth s r e) lv1 ws2)
              (\<lambda>(lv2, ws3). Ret (True, lv2, ws3))
          else Ret (True, lv1, ws2)) = Ret (ok, lv', ws')" by auto
    show ?thesis
    proof (cases "s = r")
      case True
      with tl have "ok" "lv' = lv1" "ws' = ws2" by simp_all
      with e d en False True show ?thesis by (intro self) simp_all
    next
      case ne: False
      with tl have "ok" "journaled X (SendEth s r e) (transfer_eth s r e) lv1 ws2 = Ret (lv', ws')"
        by auto
      with e d en False ne show ?thesis by (intro transfer) simp_all
    qed
  qed
qed

lemma transfer_value_frame:
  assumes "transfer_value X s r e lv ws = Ret (ok, lv', ws')"
  shows "lv_ext lv lv' \<and> same_store ws ws'"
  using assms
proof (cases rule: transfer_value_cases)
  case dead
  then show ?thesis by (auto dest: is_dead_reads reads_same_store)
next
  case (self ws1)
  then show ?thesis by (metis is_dead_reads reads_frame ensure_account_frame)
next
  case (transfer ws1 lv1 ws2)
  show ?thesis
    by (rule reads_frame [OF is_dead_reads [OF transfer(4)]],
        rule frame_trans [OF ensure_account_frame [OF transfer(5)] journaled_frames(1) [OF transfer(6)]])
qed (auto dest: ensure_account_frame)

lemma new_nonce_frame: "new_nonce X a lv ws = Ret (lv', ws') \<Longrightarrow> lv_ext lv lv' \<and> same_store ws ws'"
  by (auto simp: new_nonce_def split: if_splits dest: journaled_frames)

lemma endow_account_frame:
  "endow_account X s a e lv ws = Ret (lv', ws') \<Longrightarrow> lv_ext lv lv' \<and> same_store ws ws'"
  unfolding endow_account_def
  by (auto dest!: ensure_account_frame journaled_frames intro: lv_ext_trans same_store_trans)

lemma init_account_frame:
  assumes "init_account X s a e lv ws = Ret (ok, lv', ws')"
  shows "lv_ext lv lv' \<and> same_store ws ws'"
proof -
  from assms obtain lv1 ws1 lv2 ws2 dead ws3
    where a: "ensure_account X (lv_version lv) a lv ws = Ret (lv1, ws1)"
    and b: "new_nonce X a lv1 ws1 = Ret (lv2, ws2)"
    and c: "is_dead X (lv_version lv2) ws2 s = Ret (dead, ws3)"
    and d: "(if dead then Ret (False, lv2, ws3)
      else bindR (endow_account X s a e lv2 ws3) (\<lambda>(lv3, ws4). Ret (True, lv3, ws4))) = Ret (ok, lv', ws')"
    by (auto simp: init_account_def)
  have "lv_ext lv2 lv' \<and> same_store ws3 ws'"
    using d by (auto split: if_splits dest: endow_account_frame)
  then have "lv_ext lv2 lv' \<and> same_store ws2 ws'"
    by (rule reads_frame [OF is_dead_reads [OF c]])
  with frame_trans [OF ensure_account_frame [OF a] new_nonce_frame [OF b]] show ?thesis
    by (rule frame_trans)
qed

section \<open>Frames of the opcodes without sub-calls\<close>

definition op_frame ::
  "leviathan \<Rightarrow> ('t, 'r) world_state \<Rightarrow> substate \<Rightarrow> leviathan \<Rightarrow> ('t, 'r) world_state \<Rightarrow> substate \<Rightarrow> bool"
where
  "op_frame lv ws ss lv' ws' ss' \<longleftrightarrow> lv_ext lv lv' \<and> same_store ws ws' \<and> grown ss ss'"

lemma op_frame_refl [simp, intro]: "op_frame lv ws ss lv ws ss"
  by (simp add: op_frame_def)

lemma op_frame_trans [trans]:
  "op_frame lv ws ss lv1 ws1 ss1 \<Longrightarrow> op_frame lv1 ws1 ss1 lv2 ws2 ss2 \<Longrightarrow> op_frame lv ws ss lv2 ws2 ss2"
  unfolding op_frame_def by (blast intro: lv_ext_trans same_store_trans grown_trans)

lemma op_frame_reads: "reads X ws ws' \<Longrightarrow> grown ss ss' \<Longrightarrow> op_frame lv ws ss lv ws' ss'"
  by (simp add: op_frame_def reads_same_store)

lemma environmental_frame:
  "environmental_info_opcode X opcode env evm ws ss = Ret (evm', ws', ss') \<Longrightarrow>
   reads X ws ws' \<and> grown ss ss'"
  by (auto simp: environmental_info_opcode_def Let_def split: if_splits intro: getters_reads)

lemma extcodecopy_frame:
  "extcodecopy_opcode X evm ws ss = Ret (evm', ws', ss') \<Longrightarrow> reads X ws ws' \<and> grown ss ss'"
  by (auto simp: extcodecopy_opcode_def Let_def intro: getters_reads)

lemma block_info_frame: "block_info_opcode X opcode env evm ws = Ret (evm', ws') \<Longrightarrow> reads X ws ws'"
  by (auto simp: block_info_opcode_def Let_def split: if_splits intro: getters_reads)

lemma sload_frame:
  "sload_opcode X env evm ws ss = Ret (evm', ws', ss') \<Longrightarrow> reads X ws ws' \<and> grown ss ss'"
  by (auto simp: sload_opcode_def intro: get_storage_value_reads)

lemma sstore_refund_grown: "sstore_refund v a b c ss = Ret ss' \<Longrightarrow> grown ss ss'"
  unfolding sstore_refund_def
  by (auto split: if_split_asm dest!: grown_add_reimburse intro: grown_trans)

lemma sstore_frame:
  assumes "sstore_opcode X env evm lv ws ss = Ret (evm', lv', ws', ss')"
  shows "op_frame lv ws ss lv' ws' ss'"
proof -
  from assms obtain key val pv ws1 ss1 ss2 where
    g: "get_storage_value X ws (i_address env) key = Ret (pv, ws1)"
    and ss1: "ss1 = access_storage_insert (i_address env) key (unwrap_or pv 0) ss"
    and r: "\<exists>v0. sstore_refund (e_version evm) v0 (unwrap_or pv 0) val ss1 = Ret ss'"
    and j: "journaled X (Sstorage (i_address env) key 0)
       (if val = 0 then remove_storage (i_address env) key else set_storage (i_address env) key val) lv ws1
       = Ret (lv', ws')"
    by (auto simp: sstore_opcode_def Let_def) blast
  have "grown ss ss'"
    using r sstore_refund_grown grown_access_storage_insert unfolding ss1 by (blast intro: grown_trans)
  moreover have "lv_ext lv lv' \<and> same_store ws1 ws'"
    using j by (cases "val = 0") (auto dest: journaled_frames)
  ultimately show ?thesis
    using get_storage_value_reads [OF g]
    by (auto simp: op_frame_def dest: reads_same_store intro: same_store_trans)
qed

lemma log_frame: "log_opcode opcode env evm ss = Ret (evm', ss') \<Longrightarrow> grown ss ss'"
  by (auto simp: log_opcode_def)

lemma selfdestruct_transfer_frame:
  "selfdestruct_transfer X v a b e lv ws = Ret (lv', ws') \<Longrightarrow> lv_ext lv lv' \<and> same_store ws ws'"
  by (auto simp: selfdestruct_transfer_def split: if_splits
      dest!: ensure_account_frame journaled_frames intro: lv_ext_trans same_store_trans)

lemma selfdestruct_frame:
  assumes "selfdestruct_opcode X env evm lv ws ss = Ret (evm', lv', ws', ss')"
  shows "op_frame lv ws ss lv' ws' ss'"
proof -
  from assms obtain ss1 a b ws1 bal where
    r: "(if e_version evm < London \<and> i_address env \<notin> set (a_des ss)
             then add_reimburse ss 24000 else Ret ss) = Ret ss1"
    and g: "get_balance X ws (i_address env) = Ret (b, ws1)"
    and t: "selfdestruct_transfer X (e_version evm) (i_address env) a bal lv ws1 = Ret (lv', ws')"
    and ss': "ss' = ss1\<lparr>a_touch := push_new a (a_touch ss1), a_des := a_des ss1 @ [i_address env]\<rparr>"
    by (auto simp: selfdestruct_opcode_def Let_def simp del: if_split_asm)
  have "grown ss ss1" using r by (auto split: if_splits dest: grown_add_reimburse)
  moreover have "grown ss1 ss'" unfolding ss' by (auto simp: grown_def push_new_def)
  ultimately show ?thesis
    using selfdestruct_transfer_frame [OF t] getters_reads(3) [OF g]
    by (auto simp: op_frame_def dest: reads_same_store intro: same_store_trans grown_trans)
qed

section \<open>The contract\<close>

primrec xgas :: "exec_result \<Rightarrow> u256" where
  "xgas (XOk g _) = g"
| "xgas (XErr g _) = g"

primrec cgas :: "call_result \<Rightarrow> u256" where
  "cgas (COk g _ _) = g"
| "cgas (CErr g _ _) = g"

lemma settles_xgas: "settles r g \<Longrightarrow> unat (xgas r) \<le> unat g"
  by (cases r) auto

lemma fst_return_gas [simp]: "fst (return_gas evm) = e_gas evm"
  by (simp add: return_gas_def)

lemma run_contract_cases:
  assumes "run_contract X run c env g lv ws ss = Ret (r, lv', ws', ss')"
  obtains (precompile) "precompiled X (lv_version lv) (into_word c) g (i_data env) = Some (Ret r)"
      "lv' = lv" "ws' = ws" "ss' = ss"
  | (code) code ws1 env1 evm0 res evm1 where
      "precompiled X (lv_version lv) (into_word c) g (i_data env) = None"
      "get_code X ws c = Ret (code, ws1)" "env1 = env\<lparr>i_byte := unwrap_or code []\<rparr>"
      "evm0 = (evm_new env1 (lv_version lv))\<lparr>e_gas := g\<rparr>"
      "run env1 evm0 lv ws1 ss = Ret (res, evm1, lv', ws', ss')"
      "r = (case res of
                  ROk output \<Rightarrow> XOk (fst (return_gas evm1)) output
                | RErr (Some revert_data) \<Rightarrow> XErr (fst (return_gas evm1)) (Some revert_data)
                | RErr None \<Rightarrow> XErr 0 None)"
proof (cases "precompiled X (lv_version lv) (into_word c) g (i_data env)")
  case (Some p)
  with assms have "p = Ret r" "lv' = lv" "ws' = ws" "ss' = ss"
    by (auto simp: run_contract_def)
  with Some show ?thesis by (intro precompile) simp_all
next
  case None
  with assms obtain code ws1 where c: "get_code X ws c = Ret (code, ws1)"
    by (auto simp: run_contract_def)
  let ?env = "env\<lparr>i_byte := unwrap_or code []\<rparr>"
  from None assms c obtain res evm1 where
    "run ?env ((evm_new ?env (lv_version lv))\<lparr>e_gas := g\<rparr>) lv ws1 ss = Ret (res, evm1, lv', ws', ss')"
    "r = (case res of
                  ROk output \<Rightarrow> XOk (fst (return_gas evm1)) output
                | RErr (Some revert_data) \<Rightarrow> XErr (fst (return_gas evm1)) (Some revert_data)
                | RErr None \<Rightarrow> XErr 0 None)"
    by (auto simp: run_contract_def Let_def)
  with None c show ?thesis by (intro code [OF _ _ refl refl])
qed

lemma undo_frame_cases:
  assumes "undo_frame lv ws ss = Ret (lv', ws', ss')"
  obtains "undo_actions (lv_journal lv) ws = Ret ws'" "lv' = lv\<lparr>lv_journal := []\<rparr>"
    "road_backup ss (lv_substate_backup lv) (lv_version lv) = Ret ss'"
  using assms by (auto simp: undo_frame_def roleback_def)

lemma address_preimage_reads: "address_preimage X ws s c salt = Ret (bs, ws') \<Longrightarrow> reads X ws ws'"
  by (auto simp: address_preimage_def Let_def split: option.splits if_splits intro: getters_reads)

lemma is_collision_reads: "is_collision X ws a = Ret (b, ws') \<Longrightarrow> reads X ws ws'"
  by (auto simp: is_collision_def split: if_splits
      intro: reads_trans [OF reads_trans [OF getters_reads(5) getters_reads(4)] getters_reads(2)]
      reads_trans [OF getters_reads(5) getters_reads(4)])

lemma deposit_code_frame:
  "deposit_code v a g out ws = Ret (Some (g', ws')) \<Longrightarrow> same_store ws ws' \<and> unat g' \<le> unat g"
  by (auto simp: deposit_code_def Let_def not_less less_imp_le unat_sub_le split: if_splits
      dest: setters_store)

text \<open>The two ways in which a contract creation ends after its code ran.\<close>

lemma creation_result_cases:
  assumes "(case r of
           ROk output \<Rightarrow>
             bindR (deposit_code v a g output ws4)
               (\<lambda>dep.
             case dep of
               None \<Rightarrow> bindR (undo_frame lv3 ws4 ss3) (\<lambda>st. Ret (CErr 0 None None, st))
             | Some (g, ws5) \<Rightarrow> Ret (COk g [] (Some a), lv3, ws5, ss3))
         | RErr (Some revert_data) \<Rightarrow>
             bindR (undo_frame lv3 ws4 ss3) (\<lambda>st. Ret (CErr g (Some revert_data) None, st))
         | RErr None \<Rightarrow>
             bindR (undo_frame lv3 ws4 ss3) (\<lambda>st. Ret (CErr 0 None None, st))) = Ret (res, lv', ws', ss')"
  obtains (ok) out g' ws5 where "r = ROk out" "deposit_code v a g out ws4 = Ret (Some (g', ws5))"
      "res = COk g' [] (Some a)" "lv' = lv3" "ws' = ws5" "ss' = ss3"
  | (fail) "undo_frame lv3 ws4 ss3 = Ret (lv', ws', ss')" "\<exists>g' d. res = CErr g' d None" "unat (cgas res) \<le> unat g"
proof (cases r)
  case (ROk out)
  with assms obtain dep where d: "deposit_code v a g out ws4 = Ret dep"
    and e: "(case dep of
               None \<Rightarrow> bindR (undo_frame lv3 ws4 ss3) (\<lambda>st. Ret (CErr 0 None None, st))
             | Some (g, ws5) \<Rightarrow> Ret (COk g [] (Some a), lv3, ws5, ss3)) = Ret (res, lv', ws', ss')"
    by auto
  show ?thesis
  proof (cases dep)
    case None
    with e show ?thesis by (intro fail) auto
  next
    case (Some gw)
    then obtain g' ws5 where "dep = Some (g', ws5)" by (cases gw) auto
    with ROk d e show ?thesis by (intro ok) auto
  qed
next
  case (RErr d)
  with assms show ?thesis by (intro fail) (auto split: option.splits)
qed

text \<open>The states of a message call, from its start to its end.\<close>

lemma message_call_cases:
  fixes g :: u256
  assumes "message_call X run lv ws ss s o' r c g p e av d dep sudo h = Ret (res, lv', ws', ss')"
  obtains (dead) ss1 ss2 where "ss1 = ss\<lparr>a_access := push_new r (a_access ss)\<rparr>"
      "ss2 = ss1\<lparr>a_touch := push_new r (a_touch ss1)\<rparr>"
      "transfer_value X s r e (lv\<lparr>lv_substate_backup := backup ss1\<rparr>) ws = Ret (False, lv', ws')"
      "res = CErr g None None" "ss' = ss2"
  | (run) ss1 ss2 lv2 ws1 env result lv3 ws2 ss3 where "ss1 = ss\<lparr>a_access := push_new r (a_access ss)\<rparr>"
      "ss2 = ss1\<lparr>a_touch := push_new r (a_touch ss1)\<rparr>"
      "transfer_value X s r e (lv\<lparr>lv_substate_backup := backup ss1\<rparr>) ws = Ret (True, lv2, ws1)"
      "env = \<lparr>i_address = r, i_origin = o', i_gas_price = p, i_data = d,
              i_sender = s, i_value = av, i_byte = [], i_block_header = h,
              i_depth = dep, i_permission = sudo\<rparr>"
      "run_contract X run c env g lv2 ws1 ss2 = Ret (result, lv3, ws2, ss3)"
      "(\<exists>g' out. result = XOk g' out \<and> res = COk g' out None \<and> lv' = lv3 \<and> ws' = ws2 \<and> ss' = ss3) \<or>
       (\<exists>g' data. result = XErr g' data \<and> undo_frame lv3 ws2 ss3 = Ret (lv', ws', ss') \<and>
          res = CErr (if data = None then 0 else g') data None)"
proof -
  define ss1 where "ss1 = ss\<lparr>a_access := push_new r (a_access ss)\<rparr>"
  define ss2 where "ss2 = ss1\<lparr>a_touch := push_new r (a_touch ss1)\<rparr>"
  note defs = ss1_def [symmetric] ss2_def [symmetric]
  note m = assms [unfolded message_call_def Let_def defs]
  from m obtain ok lv2 ws1 where
    t: "transfer_value X s r e (lv\<lparr>lv_substate_backup := backup ss1\<rparr>) ws = Ret (ok, lv2, ws1)"
    by auto
  show ?thesis
  proof (cases ok)
    case False
    with m t show ?thesis by (intro dead [OF ss1_def ss2_def]) simp_all
  next
    case True
    define env where "env = \<lparr>i_address = r, i_origin = o', i_gas_price = p, i_data = d,
              i_sender = s, i_value = av, i_byte = [], i_block_header = h,
              i_depth = dep, i_permission = sudo\<rparr>"
    from True m t obtain result lv3 ws2 ss3 where
      rc: "run_contract X run c env g lv2 ws1 ss2 = Ret (result, lv3, ws2, ss3)"
      and res: "(case result of
          XOk g output \<Rightarrow> Ret (COk g output None, lv3, ws2, ss3)
        | XErr revert_gas (Some revert_data) \<Rightarrow>
            bindR (undo_frame lv3 ws2 ss3) (\<lambda>st. Ret (CErr revert_gas (Some revert_data) None, st))
        | XErr _ None \<Rightarrow>
            bindR (undo_frame lv3 ws2 ss3) (\<lambda>st. Ret (CErr 0 None None, st))) = Ret (res, lv', ws', ss')"
      by (auto simp: env_def)
    have "(\<exists>g' out. result = XOk g' out \<and> res = COk g' out None \<and> lv' = lv3 \<and> ws' = ws2 \<and> ss' = ss3) \<or>
       (\<exists>g' data. result = XErr g' data \<and> undo_frame lv3 ws2 ss3 = Ret (lv', ws', ss') \<and>
          res = CErr (if data = None then 0 else g') data None)"
      using res by (auto split: exec_result.splits option.splits)
    with t True env_def rc show ?thesis by (intro run [OF ss1_def ss2_def _ env_def]) simp_all
  qed
qed

text \<open>A contract creation from the moment its account exists.\<close>

definition creation_rest ::
  "('t, 'r) runner \<Rightarrow> address \<Rightarrow> u256 \<Rightarrow> exec_env \<Rightarrow> substate \<Rightarrow> leviathan \<Rightarrow> ('t, 'r) world_state \<Rightarrow>
   (call_result \<times> leviathan \<times> ('t, 'r) world_state \<times> substate) res" where
  "creation_rest run a g env ss lv ws =
     bindR (run env ((evm_new env (lv_version lv))\<lparr>e_gas := g\<rparr>) lv ws ss) (\<lambda>(result, evm1, lv3, ws4, ss3).
     case result of
       ROk output \<Rightarrow>
         bindR (deposit_code (lv_version lv3) a (e_gas evm1) output ws4) (\<lambda>dep.
         case dep of
           None \<Rightarrow> bindR (undo_frame lv3 ws4 ss3) (\<lambda>st. Ret (CErr 0 None None, st))
         | Some (g, ws5) \<Rightarrow> Ret (COk g [] (Some a), lv3, ws5, ss3))
     | RErr (Some revert_data) \<Rightarrow>
         bindR (undo_frame lv3 ws4 ss3) (\<lambda>st. Ret (CErr (e_gas evm1) (Some revert_data) None, st))
     | RErr None \<Rightarrow>
         bindR (undo_frame lv3 ws4 ss3) (\<lambda>st. Ret (CErr 0 None None, st)))"

lemma contract_creation_rest:
  fixes g :: u256
  assumes "address_preimage X ws s init salt = Ret (bytes, ws1)" "a = from_word (x_keccak256 X bytes)"
    "ss1 = ss\<lparr>a_access := push_new a (a_access ss)\<rparr>" "ss2 = ss1\<lparr>a_touch := push_new a (a_touch ss1)\<rparr>"
    "env = \<lparr>i_address = a, i_origin = o', i_gas_price = p, i_data = [], i_sender = s, i_value = e,
       i_byte = init, i_block_header = h, i_depth = dep, i_permission = sudo\<rparr>"
  shows "contract_creation X run lv ws ss s o' g p e init dep salt sudo h =
     bindR (is_collision X ws1 a) (\<lambda>(collision, ws2).
     if collision then Ret (CErr 0 None None, lv, ws2, ss)
     else
       bindR (init_account X s a e (lv\<lparr>lv_substate_backup := backup ss1\<rparr>) ws2) (\<lambda>(ok, lv2, ws3).
       if \<not> ok then Ret (CErr g None None, lv2, ws3, ss2) else creation_rest run a g env ss2 lv2 ws3))"
  unfolding contract_creation_def assms(1) bindR.simps prod.case creation_rest_def assms(2-5)
    Let_def fst_return_gas ..

lemma creation_rest_cases:
  assumes "creation_rest run a g env ss lv ws = Ret (res, lv', ws', ss')"
  obtains r evm1 lv3 ws4 ss3 where
    "run env ((evm_new env (lv_version lv))\<lparr>e_gas := g\<rparr>) lv ws ss = Ret (r, evm1, lv3, ws4, ss3)"
    "(\<exists>out g'. r = ROk out \<and> deposit_code (lv_version lv3) a (e_gas evm1) out ws4 = Ret (Some (g', ws')) \<and>
        res = COk g' [] (Some a) \<and> lv' = lv3 \<and> ss' = ss3) \<or>
     (undo_frame lv3 ws4 ss3 = Ret (lv', ws', ss') \<and> (\<exists>g' d. res = CErr g' d None) \<and>
        unat (cgas res) \<le> unat (e_gas evm1))"
proof -
  note c = assms [unfolded creation_rest_def]
  from c obtain r evm1 lv3 ws4 ss3 where
    run: "run env ((evm_new env (lv_version lv))\<lparr>e_gas := g\<rparr>) lv ws ss = Ret (r, evm1, lv3, ws4, ss3)" by auto
  show ?thesis
    using c [unfolded run bindR.simps prod.case]
    by (cases rule: creation_result_cases) (intro that [OF run]; auto)+
qed

text \<open>The states of a contract creation.\<close>

lemma contract_creation_cases:
  fixes g :: u256
  assumes "contract_creation X run lv ws ss s o' g p e init dep salt sudo h = Ret (res, lv', ws', ss')"
  obtains (collision) bytes ws1 a where "address_preimage X ws s init salt = Ret (bytes, ws1)"
      "a = from_word (x_keccak256 X bytes)" "is_collision X ws1 a = Ret (True, ws')"
      "res = CErr 0 None None" "lv' = lv" "ss' = ss"
  | (dead) bytes ws1 a ws2 ss1 ss2 where "address_preimage X ws s init salt = Ret (bytes, ws1)"
      "a = from_word (x_keccak256 X bytes)" "is_collision X ws1 a = Ret (False, ws2)"
      "ss1 = ss\<lparr>a_access := push_new a (a_access ss)\<rparr>" "ss2 = ss1\<lparr>a_touch := push_new a (a_touch ss1)\<rparr>"
      "init_account X s a e (lv\<lparr>lv_substate_backup := backup ss1\<rparr>) ws2 = Ret (False, lv', ws')"
      "res = CErr g None None" "ss' = ss2"
  | (run) bytes ws1 a ws2 ss1 ss2 lv2 ws3 env evm r evm1 lv3 ws4 ss3 where
      "address_preimage X ws s init salt = Ret (bytes, ws1)"
      "a = from_word (x_keccak256 X bytes)" "is_collision X ws1 a = Ret (False, ws2)"
      "ss1 = ss\<lparr>a_access := push_new a (a_access ss)\<rparr>" "ss2 = ss1\<lparr>a_touch := push_new a (a_touch ss1)\<rparr>"
      "init_account X s a e (lv\<lparr>lv_substate_backup := backup ss1\<rparr>) ws2 = Ret (True, lv2, ws3)"
      "env = \<lparr>i_address = a, i_origin = o', i_gas_price = p, i_data = [],
               i_sender = s, i_value = e, i_byte = init, i_block_header = h,
               i_depth = dep, i_permission = sudo\<rparr>"
      "evm = (evm_new env (lv_version lv2))\<lparr>e_gas := g\<rparr>"
      "run env evm lv2 ws3 ss2 = Ret (r, evm1, lv3, ws4, ss3)"
      "(\<exists>out g'. r = ROk out \<and> deposit_code (lv_version lv3) a (e_gas evm1) out ws4 = Ret (Some (g', ws')) \<and>
          res = COk g' [] (Some a) \<and> lv' = lv3 \<and> ss' = ss3) \<or>
       (undo_frame lv3 ws4 ss3 = Ret (lv', ws', ss') \<and> (\<exists>g' d. res = CErr g' d None) \<and>
          unat (cgas res) \<le> unat (e_gas evm1))"
proof -
  from assms obtain bytes ws1 where pre: "address_preimage X ws s init salt = Ret (bytes, ws1)"
    by (auto simp: contract_creation_def)
  define a where "a = from_word (x_keccak256 X bytes)"
  define ss1 where "ss1 = ss\<lparr>a_access := push_new a (a_access ss)\<rparr>"
  define ss2 where "ss2 = ss1\<lparr>a_touch := push_new a (a_touch ss1)\<rparr>"
  note eq = assms [unfolded contract_creation_rest [OF pre a_def ss1_def ss2_def refl]]
  from eq obtain coll ws2 where col: "is_collision X ws1 a = Ret (coll, ws2)" by auto
  show ?thesis
  proof (cases coll)
    case True
    with eq col show ?thesis by (intro collision [OF pre a_def]) auto
  next
    case nocoll: False
    with eq col obtain ok lv2 ws3 where
      i: "init_account X s a e (lv\<lparr>lv_substate_backup := backup ss1\<rparr>) ws2 = Ret (ok, lv2, ws3)" by auto
    show ?thesis
    proof (cases ok)
      case False
      with eq col nocoll i show ?thesis by (intro dead [OF pre a_def _ ss1_def ss2_def]) auto
    next
      case True
      define env where "env = \<lparr>i_address = a, i_origin = o', i_gas_price = p, i_data = [],
               i_sender = s, i_value = e, i_byte = init, i_block_header = h,
               i_depth = dep, i_permission = sudo\<rparr>"
      from True eq col nocoll i have "creation_rest run a g env ss2 lv2 ws3 = Ret (res, lv', ws', ss')"
        by (simp add: env_def)
      then show ?thesis
        by (rule creation_rest_cases)
          (use i True nocoll col in \<open>intro run [OF pre a_def _ ss1_def ss2_def _ env_def refl]; simp\<close>)
    qed
  qed
qed

lemma finish_call_frame:
  assumes "finish_call oo os res child evm lv = Ret (evm', lv')"
  shows "lv_ext lv lv' \<and> (e_gas evm' = e_gas evm \<or> e_gas evm' = e_gas evm + cgas res)"
  using assms
  by (auto simp: finish_call_def same_registers_def split: call_result.splits option.splits
      dest!: write_output_keeps)

lemma finish_create_frame:
  assumes "finish_create res child evm lv = Ret (evm', lv')"
  shows "lv_ext lv lv' \<and> (e_gas evm' = e_gas evm \<or> e_gas evm' = e_gas evm + cgas res)"
  using assms
  by (auto simp: finish_create_def split: call_result.splits option.splits)

locale runner =
  fixes X :: "('t, 'r) ext" and run :: "('t, 'r) runner"
  assumes run_gas: "run env evm lv ws ss = Ret (r, evm', lv', ws', ss') \<Longrightarrow> gas_ok (e_gas evm) \<Longrightarrow>
      unat (e_gas evm') \<le> unat (e_gas evm)"
    and run_frame: "run env evm lv ws ss = Ret (r, evm', lv', ws', ss') \<Longrightarrow> op_frame lv ws ss lv' ws' ss'"
begin

lemma run_contract_frame:
  assumes "run_contract X run c env g lv ws ss = Ret (r, lv', ws', ss')"
  shows "op_frame lv ws ss lv' ws' ss' \<and> (gas_ok g \<longrightarrow> unat (xgas r) \<le> unat g)"
  using assms
proof (cases rule: run_contract_cases)
  case precompile
  then show ?thesis by (auto intro: settles_xgas precompiled_settles)
next
  case (code code ws1 env1 evm0 res evm1)
  have "op_frame lv ws ss lv ws1 ss"
    using getters_reads(4) [OF code(2)] by (simp add: op_frame_def reads_same_store)
  then have "op_frame lv ws ss lv' ws' ss'"
    using run_frame [OF code(5)] by (rule op_frame_trans)
  moreover have "gas_ok g \<longrightarrow> unat (xgas r) \<le> unat g"
    using run_gas [OF code(5)] code(4,6) by (auto split: run_result.splits option.splits)
  ultimately show ?thesis by simp
qed

text \<open>
  A call either succeeds and hands over its extended journal, or fails: then its journal is undone
  and empty, and the substate is the backup of the state with the recipient marked as accessed.
\<close>

lemma undo_after:
  assumes "undo_frame lv2 ws2 ss2 = Ret (lv', ws', ss')" "op_frame lv1 ws1 ss1' lv2 ws2 ss2"
    and "grown ss1 ss1'" "lv_substate_backup lv1 = backup ss1"
  shows "same_store ws1 ws' \<and> grown ss1 ss'"
  using assms(1)
proof (cases rule: undo_frame_cases)
  case 1
  from assms(2) have "same_store ws1 ws2" "grown ss1' ss2" "lv_substate_backup lv2 = backup ss1"
    using assms(4) by (auto simp: op_frame_def lv_ext_def)
  with 1 assms(3) show ?thesis
    by (auto dest: undo_actions_store intro: same_store_trans grown_road_backup grown_trans)
qed

lemma message_call_frame:
  assumes "message_call X run lv ws ss s o' r c g p e av d dep sudo h = Ret (res, lv', ws', ss')"
  shows "same_store ws ws' \<and> grown ss ss' \<and> (gas_ok g \<longrightarrow> unat (cgas res) \<le> unat g)"
  using assms
proof (cases rule: message_call_cases)
  case (dead ss1 ss2)
  have "grown ss ss1" "grown ss1 ss2" unfolding dead(2) by (simp add: dead(1), rule grown_updates)
  with transfer_value_frame [OF dead(3)] dead show ?thesis by (auto intro: grown_trans)
next
  case (run ss1 ss2 lv2 ws1 env result lv3 ws2 ss3)
  have g12: "grown ss ss1" "grown ss1 ss2" unfolding run(2) by (simp add: run(1), rule grown_updates)
  note tf = transfer_value_frame [OF run(3)] and rf = run_contract_frame [OF run(5)]
  have bk: "lv_substate_backup lv2 = backup ss1" using tf by (auto simp: lv_ext_def)
  have gas: "unat (cgas res) \<le> unat (xgas result)" using run(6) by auto
  have "same_store ws1 ws' \<and> grown ss1 ss'"
    using run(6)
  proof (elim disjE exE conjE)
    fix g' out assume "ws' = ws2" "ss' = ss3"
    with rf g12 show ?thesis by (auto simp: op_frame_def intro: grown_trans)
  next
    fix g' data assume "undo_frame lv3 ws2 ss3 = Ret (lv', ws', ss')"
    from undo_after [OF this _ g12(2) bk] rf show ?thesis by blast
  qed
  with tf g12 rf gas show ?thesis by (auto intro: same_store_trans grown_trans order_trans)
qed

lemma contract_creation_frame:
  assumes "contract_creation X run lv ws ss s o' g p e init dep salt sudo h = Ret (res, lv', ws', ss')"
  shows "same_store ws ws' \<and> grown ss ss' \<and> (gas_ok g \<longrightarrow> unat (cgas res) \<le> unat g)"
  using assms
proof (cases rule: contract_creation_cases)
  case (collision bytes ws1 a)
  then show ?thesis
    using address_preimage_reads [OF collision(1)] is_collision_reads [OF collision(3)]
    by (auto dest: reads_same_store intro: same_store_trans)
next
  case (dead bytes ws1 a ws2 ss1 ss2)
  have "grown ss ss1" "grown ss1 ss2" unfolding dead(5) by (simp add: dead(4), rule grown_updates)
  with dead init_account_frame [OF dead(6)]
    address_preimage_reads [OF dead(1)] is_collision_reads [OF dead(3)] show ?thesis
    by (auto dest: reads_same_store intro: same_store_trans grown_trans)
next
  case (run bytes ws1 a ws2 ss1 ss2 lv2 ws3 env evm r evm1 lv3 ws4 ss3)
  have g12: "grown ss ss1" "grown ss1 ss2" unfolding run(5) by (simp add: run(4), rule grown_updates)
  have st: "same_store ws ws2"
    using address_preimage_reads [OF run(1)] is_collision_reads [OF run(3)]
    by (auto dest: reads_same_store intro: same_store_trans)
  note fi = init_account_frame [OF run(6)] and rf = run_frame [OF run(9)] and rg = run_gas [OF run(9)]
  have eg: "e_gas evm = g" by (simp add: run(8))
  have bk: "lv_substate_backup lv2 = backup ss1" using fi by (auto simp: lv_ext_def)
  have "same_store ws3 ws' \<and> grown ss1 ss' \<and> unat (cgas res) \<le> unat (e_gas evm1)"
    using run(10)
  proof (elim disjE exE conjE)
    fix out g' assume "deposit_code (lv_version lv3) a (e_gas evm1) out ws4 = Ret (Some (g', ws'))"
      "res = COk g' [] (Some a)" "ss' = ss3"
    with deposit_code_frame [OF this(1)] rf g12 show ?thesis
      by (auto simp: op_frame_def intro: same_store_trans grown_trans)
  next
    assume "undo_frame lv3 ws4 ss3 = Ret (lv', ws', ss')" "unat (cgas res) \<le> unat (e_gas evm1)"
    with undo_after [OF this(1) rf g12(2) bk] show ?thesis by blast
  qed
  with fi st g12 rg eg show ?thesis by (auto intro: same_store_trans grown_trans order_trans)
qed

text \<open>A call or creation changes only the journal and the backup of its \<open>LEVIATHAN\<close>.\<close>

lemma message_call_lv:
  assumes "message_call X run lv ws ss s o' r c g p e av d dep sudo h = Ret (res, lv', ws', ss')"
  shows "lv_version lv' = lv_version lv \<and> lv_eth_call lv' = lv_eth_call lv"
  using assms
proof (cases rule: message_call_cases)
  case (dead ss1 ss2)
  then show ?thesis using transfer_value_frame [OF dead(3)] by (simp add: lv_ext_def)
next
  case (run ss1 ss2 lv2 ws1 env result lv3 ws2 ss3)
  then show ?thesis
    using transfer_value_frame [OF run(3)] run_contract_frame [OF run(5)]
    by (auto simp: lv_ext_def op_frame_def elim!: undo_frame_cases)
qed

lemma contract_creation_lv:
  assumes "contract_creation X run lv ws ss s o' g p e init dep salt sudo h = Ret (res, lv', ws', ss')"
  shows "lv_version lv' = lv_version lv \<and> lv_eth_call lv' = lv_eth_call lv"
  using assms
proof (cases rule: contract_creation_cases)
  case (dead bytes ws1 a ws2 ss1 ss2)
  then show ?thesis using init_account_frame [OF dead(6)] by (simp add: lv_ext_def)
next
  case (run bytes ws1 a ws2 ss1 ss2 lv2 ws3 env evm r evm1 lv3 ws4 ss3)
  then show ?thesis
    using init_account_frame [OF run(6)] run_frame [OF run(9)]
    by (auto simp: lv_ext_def op_frame_def elim!: undo_frame_cases)
qed simp

text \<open>The four call opcodes share their body; the returned gas is at most the gas given.\<close>

lemma call_body_frame:
  assumes "call_body X run env nb s r c g e av d p oo os evm lv ws ss = Ret (evm', lv', ws', ss')"
  shows "op_frame lv ws ss lv' ws' ss' \<and>
    (gas_ok g \<longrightarrow> unat (e_gas evm) + unat g < 2 ^ 256 \<longrightarrow>
     unat (e_gas evm') \<le> unat (e_gas evm) + unat g)"
proof -
  consider (pre) "evm' = push 0 (evm\<lparr>e_gas := e_gas evm + g\<rparr>)" "lv' = lv" "ws' = ws" "ss' = ss"
    | (call) res child where
      "message_call X run (leviathan_new (e_version evm)) ws ss s (i_origin env) r c g (i_gas_price env)
         e av d (i_depth env + 1) p (i_block_header env) = Ret (res, child, ws', ss')"
      "finish_call oo os res child evm lv = Ret (evm', lv')"
    using assms by (auto simp: call_body_def split: if_splits)
  then show ?thesis
  proof cases
    case pre
    then show ?thesis by (simp add: unat_add_u256)
  next
    case call
    note mf = message_call_frame [OF call(1)] and ff = finish_call_frame [OF call(2)]
    then show ?thesis using mf ff by (auto simp: op_frame_def unat_add_u256)
  qed
qed

lemma create_body_frame:
  assumes "create_body X run env val off sz salt evm lv ws ss = Ret (evm', lv', ws', ss')"
  shows "op_frame lv ws ss lv' ws' ss' \<and>
    (gas_ok (e_gas evm) \<longrightarrow> unat (e_gas evm') \<le> unat (e_gas evm))"
proof -
  from assms obtain data evm1 b ws1 where i: "init_code_input off sz evm = Ret (data, evm1)"
    and b: "get_balance X ws (i_address env) = Ret (b, ws1)"
    by (auto simp: create_body_def)
  have eg: "e_gas evm1 = e_gas evm" using init_code_input_keeps [OF i] by (simp add: same_registers_def)
  have rd: "same_store ws ws1" using getters_reads(3) [OF b] by (rule reads_same_store)
  define cg where "cg = (if e_version evm < TangerineWhistle then e_gas evm1 else e_gas evm1 - e_gas evm1 div 64)"
  have cg: "cg \<le> e_gas evm1"
  proof -
    have "e_gas evm1 div 64 \<le> e_gas evm1" by (simp add: word_le_nat_alt unat_div)
    then show ?thesis by (simp add: cg_def word_le_nat_alt unat_sub_le)
  qed
  consider (pre) "evm' = push 0 evm1" "lv' = lv" "ws' = ws1" "ss' = ss"
    | (create) lv1 ws2 res child where
      "journaled X (AddNonce (i_address env)) (inc_nonce (i_address env)) lv ws1 = Ret (lv1, ws2)"
      "contract_creation X run (leviathan_new (e_version evm)) ws2 ss (i_address env)
         (i_origin env) cg (i_gas_price env) val data (i_depth env + 1) salt
         (i_permission env) (i_block_header env) = Ret (res, child, ws', ss')"
      "finish_create res child (evm1\<lparr>e_gas := sat_sub (e_gas evm1) cg\<rparr>) lv1 = Ret (evm', lv')"
    using assms i b by (auto simp: create_body_def Let_def cg_def split: if_splits)
  then show ?thesis
  proof cases
    case pre
    with rd eg show ?thesis by (simp add: op_frame_def)
  next
    case create
    note jf = journaled_frames(2) [OF create(1)] and cf = contract_creation_frame [OF create(2)]
      and ff = finish_create_frame [OF create(3)]
    have "op_frame lv ws ss lv' ws' ss'"
      using rd jf cf ff by (auto simp: op_frame_def intro: same_store_trans lv_ext_trans)
    moreover have "unat (e_gas evm') \<le> unat (e_gas evm)" if ok: "gas_ok (e_gas evm)"
    proof -
      from ok cg eg have "gas_ok cg" using gas_ok_mono by (simp add: word_le_nat_alt)
      with cf have "unat (cgas res) \<le> unat cg" by simp
      moreover have "unat (sat_sub (e_gas evm1) cg) + unat cg = unat (e_gas evm1)"
        using cg by (simp add: nat_word word_le_nat_alt)
      ultimately show ?thesis
        using ff eg u256_less [of "e_gas evm"] by (auto simp: unat_add_u256)
    qed
    ultimately show ?thesis by simp
  qed
qed

end

end
