(* ===== verification/Termination.thy ===== *)
theory Termination
  imports Runner
begin

text \<open>
  The interpreter under the contract of \<open>Runner\<close>: gas accounting of one instruction, the proof that
  \<open>evm_run\<close> meets the contract for every amount of fuel, and termination: with more fuel than gas the
  run ends without exhausting the fuel.
\<close>

section \<open>Gas of one instruction\<close>

lemma effect_gas: "effect p q evm evm' \<Longrightarrow> e_gas evm' = e_gas evm"
  by (simp add: effect_def same_registers_def)

lemma machine_op_gas: "machine_op X opcode env evm = Ret evm' \<Longrightarrow> e_gas evm' = e_gas evm"
proof (cases "opcode = 0x56 \<or> opcode = 0x57")
  case True
  then show "machine_op X opcode env evm = Ret evm' \<Longrightarrow> e_gas evm' = e_gas evm"
    by (auto simp: machine_op_def)
next
  case False
  then show "machine_op X opcode env evm = Ret evm' \<Longrightarrow> e_gas evm' = e_gas evm"
    by (auto intro: effect_gas machine_op_effect)
qed

lemma dispatch_gas_same:
  assumes "dispatch X run opcode env evm lv ws ss = Ret (r, evm', lv', ws', ss')"
    and "opcode \<notin> {0xf0, 0xf1, 0xf2, 0xf4, 0xf5, 0xfa}"
  shows "e_gas evm' = e_gas evm"
  using assms(1)
proof (cases rule: dispatch_cases)
  case machine
  then show ?thesis by (auto intro: machine_op_gas)
next
  case block
  then show ?thesis
    by (cases "opcode = 0x40") (auto dest: blockhash_effect block_info_effect effect_gas)
qed (use assms(2) in \<open>auto dest: effect_gas environmental_effect extcodecopy_effect sload_effect
      sstore_effect log_effect return_effect selfdestruct_effect\<close>)

lemma charged_other:
  assumes "charged opcode c evm = Ret evm'" "opcode \<noteq> 0x56" "opcode \<noteq> 0x57"
  shows "e_stack evm' = e_stack evm" "e_gas evm' = e_gas evm - c"
    "e_child_gas_mem evm' = e_child_gas_mem evm" "e_version evm' = e_version evm"
    "e_memory evm' = e_memory evm" "e_active_words evm' = e_active_words evm"
    "e_return_back evm' = e_return_back evm" "e_safe_jump evm' = e_safe_jump evm"
  using assms by (auto simp: charged_def advance_pc_def split: if_splits)

lemma charged_gas: "charged opcode c evm = Ret evm' \<Longrightarrow> e_gas evm' = e_gas evm - c"
  by (auto simp: charged_def advance_pc_def res_simps split: if_splits)

lemma safe_op_gas:
  assumes "safe_op X opcode ss env evm ws c evm1 ws1" "charged opcode c evm1 = Ret evm2"
  shows "unat (e_gas evm2) + unat c = unat (e_gas evm)"
proof -
  from assms(1) have "c \<le> e_gas evm" "e_gas evm1 = e_gas evm" by (auto simp: safe_op_def)
  with charged_gas [OF assms(2)] show ?thesis by (simp add: word_le_nat_alt unat_sub_le)
qed

text \<open>What a call opcode hands to the sub-call is covered by what it paid, the stipend included.\<close>

lemma child_within:
  assumes "paid c evm1 b" "e_child_gas_mem evm1 = Some g" "b \<ge> 40" "v \<noteq> 0 \<longrightarrow> 9000 \<le> b"
    and "unat gas2 + unat c = unat gas0" "gas_ok gas0"
    and "cg = (if (v :: u256) > 0 then sat_add g 2300 else g)"
  shows "unat gas2 + unat cg < unat gas0" "gas_ok cg"
proof -
  from assms(1,2) have c: "unat c = unat g + b" by (auto simp: paid_def)
  have "unat cg \<le> unat g + (if v > 0 then 2300 else 0)" 
  proof (cases "v > 0")
    case True
    have "unat (sat_add g 2300) \<le> unat g + unat (2300 :: u256)"
      unfolding unat_sat_add by (rule min.cobounded1)
    with True show ?thesis by (simp add: assms(7))
  qed (simp add: assms(7))
  moreover have "(if v > 0 then 2300 else 0) < b"
    using assms(3,4) by (cases "v = 0") (simp_all add: word_gt_0)
  ultimately show less: "unat gas2 + unat cg < unat gas0" using assms(5) c by linarith
  then show "gas_ok cg" using assms(6) by (simp add: gas_ok_def)
qed

lemma safe_call_child:
  assumes safe: "safe_op X opcode ss env evm ws c evm1 ws1" and ch: "charged opcode c evm1 = Ret evm2"
    and ok: "gas_ok (e_gas evm)" and op: "opcode \<in> {0xf1, 0xf2, 0xf4, 0xfa}"
  obtains g v where "e_child_gas_mem evm2 = Some g" "e_stack evm2 = e_stack evm"
    "v = (if opcode \<in> {0xf1, 0xf2} then e_stack evm ! 2 else 0)"
    "unat (e_gas evm2) + unat (if v > 0 then sat_add g 2300 else g) < unat (e_gas evm)"
    "gas_ok (if v > 0 then sat_add g 2300 else g)"
proof -
  from safe_call_paid [OF safe ok op] obtain b where b: "b \<ge> 40" "paid c evm1 b"
    "opcode \<in> {0xf1, 0xf2} \<and> e_stack evm ! 2 \<noteq> 0 \<longrightarrow> 9000 \<le> b" by blast
  then obtain g where g: "e_child_gas_mem evm1 = Some g" by (auto simp: paid_def)
  define v where "v = (if opcode \<in> {0xf1, 0xf2} then e_stack evm ! 2 else 0)"
  have v: "v \<noteq> 0 \<longrightarrow> 9000 \<le> b" using b(3) by (simp add: v_def)
  note cw = child_within [OF b(2) g b(1) v safe_op_gas [OF safe ch] ok refl]
  have "e_stack evm2 = e_stack evm" "e_child_gas_mem evm2 = Some g"
    using charged_other [OF ch] op g safe by (auto simp: safe_op_def)
  with cw that v_def show thesis by blast
qed

context runner
begin

text \<open>The child gas handed to the body, stipend included.\<close>

lemma call_ops_frame:
  assumes "call_opcode X run env evm lv ws ss = Ret (evm', lv', ws', ss') \<or>
    callcode_opcode X run env evm lv ws ss = Ret (evm', lv', ws', ss')"
  shows "op_frame lv ws ss lv' ws' ss' \<and>
    (\<forall>g. e_child_gas_mem evm = Some g \<longrightarrow>
      (let cg = (if e_stack evm ! 2 > 0 then sat_add g 2300 else g) in
       gas_ok cg \<longrightarrow> unat (e_gas evm) + unat cg < 2 ^ 256 \<longrightarrow>
       unat (e_gas evm') \<le> unat (e_gas evm) + unat cg))"
proof -
  have *: ?thesis
    if "e_stack evm = g0 # to # val # io # isz # oo # osz # rest"
      "call_input io' isz' oo' osz' (evm\<lparr>e_stack := rest\<rparr>) = Ret (data, evm8)"
      "ss1 = ss\<lparr>a_access := push_new (from_word to) (a_access ss)\<rparr>"
      "(e_child_gas_mem evm8 = None \<and> (evm', lv', ws', ss') = (push 0 evm8, lv, ws, ss1)) \<or>
       (\<exists>g b ws1. e_child_gas_mem evm8 = Some g \<and> get_balance X ws (i_address env) = Ret (b, ws1) \<and>
        call_body X run env (unwrap_or b 0 < val) (i_address env) r (from_word to)
          (if val > 0 then sat_add g 2300 else g) val val data (i_permission env)
          oo' osz' (evm8\<lparr>e_child_gas_mem := None\<rparr>) lv ws1 ss1 = Ret (evm', lv', ws', ss'))"
    for g0 to val io isz oo osz rest io' isz' oo' osz' data evm8 ss1 r
  proof -
    from call_input_keeps [OF that(2)] have k: "e_child_gas_mem evm8 = e_child_gas_mem evm"
      "e_gas evm8 = e_gas evm" by (simp_all add: same_registers_def)
    have gr: "grown ss ss1" unfolding that(3) by (rule grown_updates)
    from that(4) show ?thesis
    proof (elim disjE exE conjE)
      assume "e_child_gas_mem evm8 = None" "(evm', lv', ws', ss') = (push 0 evm8, lv, ws, ss1)"
      with k gr show ?thesis by (simp add: op_frame_def)
    next
      fix g b ws1
      assume g: "e_child_gas_mem evm8 = Some g" and b: "get_balance X ws (i_address env) = Ret (b, ws1)"
        and cb: "call_body X run env (unwrap_or b 0 < val) (i_address env) r (from_word to)
          (if val > 0 then sat_add g 2300 else g) val val data (i_permission env)
          oo' osz' (evm8\<lparr>e_child_gas_mem := None\<rparr>) lv ws1 ss1 = Ret (evm', lv', ws', ss')"
      have "op_frame lv ws ss lv ws1 ss1"
        using getters_reads(3) [OF b] gr by (rule op_frame_reads)
      with call_body_frame [OF cb] g k that(1) show ?thesis
        by (auto simp: Let_def intro: op_frame_trans)
    qed
  qed
  from assms show ?thesis
  proof
    assume "call_opcode X run env evm lv ws ss = Ret (evm', lv', ws', ss')"
    then show ?thesis by (cases rule: call_opcode_cases) (rule *)
  next
    assume "callcode_opcode X run env evm lv ws ss = Ret (evm', lv', ws', ss')"
    then show ?thesis by (cases rule: callcode_opcode_cases) (rule *)
  qed
qed

lemma delegate_ops_frame:
  assumes "delegatecall_opcode X run env evm lv ws ss = Ret (evm', lv', ws', ss') \<or>
    staticcall_opcode X run env evm lv ws ss = Ret (evm', lv', ws', ss')"
  shows "op_frame lv ws ss lv' ws' ss' \<and>
    (\<forall>g. e_child_gas_mem evm = Some g \<longrightarrow> gas_ok g \<longrightarrow> unat (e_gas evm) + unat g < 2 ^ 256 \<longrightarrow>
       unat (e_gas evm') \<le> unat (e_gas evm) + unat g)"
proof -
  have *: ?thesis
    if "e_stack evm = g0 # to # io # isz # oo # osz # rest"
      "call_input io' isz' oo' osz' (evm\<lparr>e_stack := rest\<rparr>) = Ret (data, evm8)"
      "ss1 = ss\<lparr>a_access := push_new (from_word to) (a_access ss)\<rparr>"
      "ss2 = ss \<or> ss2 = ss1"
      "(e_child_gas_mem evm8 = None \<and> (evm', lv', ws', ss') = (push 0 evm8, lv, ws, ss2)) \<or>
       (\<exists>g. e_child_gas_mem evm8 = Some g \<and>
        call_body X run env False s r (from_word to) g 0 av data pm
          oo' osz' (evm8\<lparr>e_child_gas_mem := None\<rparr>) lv ws ss1 = Ret (evm', lv', ws', ss'))"
    for g0 to io isz oo osz rest io' isz' oo' osz' data evm8 ss1 ss2 r s av pm
  proof -
    from call_input_keeps [OF that(2)] have k: "e_child_gas_mem evm8 = e_child_gas_mem evm"
      "e_gas evm8 = e_gas evm" by (simp_all add: same_registers_def)
    have gr: "grown ss ss1" unfolding that(3) by (rule grown_updates)
    from that(5) show ?thesis
    proof (elim disjE exE conjE)
      assume "e_child_gas_mem evm8 = None" "(evm', lv', ws', ss') = (push 0 evm8, lv, ws, ss2)"
      with k gr that(4) show ?thesis by (auto simp: op_frame_def)
    next
      fix g
      assume g: "e_child_gas_mem evm8 = Some g"
        and cb: "call_body X run env False s r (from_word to) g 0 av data pm
          oo' osz' (evm8\<lparr>e_child_gas_mem := None\<rparr>) lv ws ss1 = Ret (evm', lv', ws', ss')"
      have "op_frame lv ws ss lv ws ss1" using gr by (simp add: op_frame_def)
      with call_body_frame [OF cb] g k show ?thesis by (auto intro: op_frame_trans)
    qed
  qed
  from assms show ?thesis
  proof
    assume "delegatecall_opcode X run env evm lv ws ss = Ret (evm', lv', ws', ss')"
    then show ?thesis by (cases rule: delegatecall_opcode_cases) (rule *, assumption+, auto)
  next
    assume "staticcall_opcode X run env evm lv ws ss = Ret (evm', lv', ws', ss')"
    then show ?thesis by (cases rule: staticcall_opcode_cases) (rule *, assumption+, auto)
  qed
qed

lemma create_ops_frame:
  assumes "create_opcode X run env evm lv ws ss = Ret (evm', lv', ws', ss') \<or>
    create2_opcode X run env evm lv ws ss = Ret (evm', lv', ws', ss')"
  shows "op_frame lv ws ss lv' ws' ss' \<and> (gas_ok (e_gas evm) \<longrightarrow> unat (e_gas evm') \<le> unat (e_gas evm))"
proof -
  from assms obtain st v off sz salt where
    "create_body X run env v off sz salt (evm\<lparr>e_stack := st\<rparr>) lv ws ss = Ret (evm', lv', ws', ss')"
    by (auto simp: create_opcode_def create2_opcode_def pop_eq_Ret)
  from create_body_frame [OF this] show ?thesis by simp
qed

lemma dispatch_frame:
  assumes "dispatch X run opcode env evm lv ws ss = Ret (r, evm', lv', ws', ss')"
  shows "op_frame lv ws ss lv' ws' ss'"
  using assms
proof (cases rule: dispatch_cases)
  case environmental
  then show ?thesis by (auto dest: environmental_frame intro: op_frame_reads)
next
  case extcodecopy
  then show ?thesis by (auto dest: extcodecopy_frame intro: op_frame_reads)
next
  case block
  then show ?thesis by (auto dest: block_info_frame intro: op_frame_reads)
next
  case sload
  then show ?thesis by (auto dest: sload_frame intro: op_frame_reads)
next
  case log
  then show ?thesis by (auto simp: op_frame_def dest: log_frame)
next
  case call
  then show ?thesis using call_ops_frame by blast
next
  case callcode
  then show ?thesis using call_ops_frame by blast
next
  case delegatecall
  then show ?thesis using delegate_ops_frame by blast
next
  case staticcall
  then show ?thesis using delegate_ops_frame by blast
next
  case create
  then show ?thesis using create_ops_frame by blast
next
  case create2
  then show ?thesis using create_ops_frame by blast
qed (auto intro: sstore_frame selfdestruct_frame)

text \<open>A call leaves its caller less gas than the caller had before it paid for the call.\<close>

lemma call_step_gas:
  assumes safe: "safe_op X opcode ss env evm ws c evm1 ws1" and ch: "charged opcode c evm1 = Ret evm2"
    and d: "dispatch X run opcode env evm2 lv ws1 ss = Ret (r, evm3, lv', ws', ss')"
    and ok: "gas_ok (e_gas evm)" and op: "opcode \<in> {0xf1, 0xf2, 0xf4, 0xfa}"
  shows "unat (e_gas evm3) < unat (e_gas evm)"
proof -
  from safe_call_child [OF safe ch ok op] obtain g v where m: "e_child_gas_mem evm2 = Some g"
    and st: "e_stack evm2 = e_stack evm" and v_def: "v = (if opcode \<in> {0xf1, 0xf2} then e_stack evm ! 2 else 0)"
    and cw: "unat (e_gas evm2) + unat (if v > 0 then sat_add g 2300 else g) < unat (e_gas evm)"
      "gas_ok (if v > 0 then sat_add g 2300 else g)" by blast
  have less: "unat (e_gas evm2) + unat (if v > 0 then sat_add g 2300 else g) < 2 ^ 256"
    using cw(1) u256_less [of "e_gas evm"] by simp
  note frames = call_ops_frame [of env evm2 lv ws1 ss evm3 lv' ws' ss']
    delegate_ops_frame [of env evm2 lv ws1 ss evm3 lv' ws' ss']
  have "unat (e_gas evm3) \<le> unat (e_gas evm2) + unat (if v > 0 then sat_add g 2300 else g)"
    using d
  proof (cases rule: dispatch_cases)
    case call
    with frames(1) m cw(2) less st show ?thesis by (simp add: Let_def v_def)
  next
    case callcode
    with frames(1) m cw(2) less st show ?thesis by (simp add: Let_def v_def)
  next
    case delegatecall
    with frames(2) m cw(2) less show ?thesis by (simp add: v_def)
  next
    case staticcall
    with frames(2) m cw(2) less show ?thesis by (simp add: v_def)
  qed (use op in \<open>auto simp: is_machine_op_def\<close>)
  with cw(1) show ?thesis by simp
qed

lemma create_step_gas:
  assumes d: "dispatch X run opcode env evm2 lv ws1 ss = Ret (r, evm3, lv', ws', ss')"
    and ok: "gas_ok (e_gas evm2)" and op: "opcode \<in> {0xf0, 0xf5}"
  shows "unat (e_gas evm3) \<le> unat (e_gas evm2)"
  using d
proof (cases rule: dispatch_cases)
  case create
  with create_ops_frame [of env evm2 lv ws1 ss evm3 lv' ws' ss'] ok show ?thesis by blast
next
  case create2
  with create_ops_frame [of env evm2 lv ws1 ss evm3 lv' ws' ss'] ok show ?thesis by blast
qed (use op in \<open>auto simp: is_machine_op_def\<close>)

text \<open>
  Gas never grows over an instruction, and every instruction after which the loop continues leaves
  strictly less gas.
\<close>

lemma step_gas:
  assumes safe: "safe_op X opcode ss env evm ws c evm1 ws1" and ch: "charged opcode c evm1 = Ret evm2"
    and d: "dispatch X run opcode env evm2 lv ws1 ss = Ret (r, evm3, lv', ws', ss')"
    and ok: "gas_ok (e_gas evm)"
  shows "unat (e_gas evm3) \<le> unat (e_gas evm) \<and> (r = None \<longrightarrow> unat (e_gas evm3) < unat (e_gas evm))"
proof (cases "opcode \<in> {0xf1, 0xf2, 0xf4, 0xfa}")
  case True
  from call_step_gas [OF safe ch d ok True] show ?thesis by simp
next
  case False
  note sum = safe_op_gas [OF safe ch]
  then have "gas_ok (e_gas evm2)" using ok by (simp add: gas_ok_def)
  with False have "unat (e_gas evm3) \<le> unat (e_gas evm2)"
    using dispatch_gas_same [OF d] create_step_gas [OF d] by (cases "opcode \<in> {0xf0, 0xf5}") auto
  moreover have "r = None \<Longrightarrow> opcode \<notin> {0x00, 0xf3, 0xfd, 0xff}"
    using d by (cases rule: dispatch_cases) (auto simp: is_machine_op_def)
  ultimately show ?thesis using sum safe_op_cost_pos [OF safe ok] False by auto
qed

text \<open>One iteration keeps the contract.\<close>

lemma iter_runner: "runner (evm_iter X run)"
proof
  fix env evm lv ws ss r evm' lv' ws' ss'
  assume it: "evm_iter X run env evm lv ws ss = Ret (r, evm', lv', ws', ss')"
  from it show "op_frame lv ws ss lv' ws' ss'"
  proof (cases rule: evm_iter_cases)
    case (unsafe m)
    then show ?thesis by (auto intro: op_frame_reads)
  next
    case (halt opcode c evm1 ws1 evm2 b)
    have "op_frame lv ws ss lv ws1 ss" using halt(2) by (auto simp: safe_op_def intro: op_frame_reads)
    with dispatch_frame [OF halt(4)] show ?thesis by (auto intro: op_frame_trans)
  next
    case (continue opcode c evm1 ws1 evm2 evm3 lv1 ws3 ss1)
    have "op_frame lv ws ss lv ws1 ss" using continue(2) by (auto simp: safe_op_def intro: op_frame_reads)
    with dispatch_frame [OF continue(4)] run_frame [OF continue(5)] show ?thesis
      by (blast intro: op_frame_trans)
  qed
  assume ok: "gas_ok (e_gas evm)"
  from it show "unat (e_gas evm') \<le> unat (e_gas evm)"
  proof (cases rule: evm_iter_cases)
    case (unsafe m)
    then show ?thesis by simp
  next
    case (halt opcode c evm1 ws1 evm2 b)
    with step_gas [OF halt(2-4) ok] show ?thesis by simp
  next
    case (continue opcode c evm1 ws1 evm2 evm3 lv1 ws3 ss1)
    from step_gas [OF continue(2-4) ok] have "unat (e_gas evm3) < unat (e_gas evm)" by simp
    moreover from this ok have "gas_ok (e_gas evm3)" by (simp add: gas_ok_def)
    ultimately show ?thesis using run_gas [OF continue(5)] by simp
  qed
qed

end

text \<open>Hence the interpreter meets the contract for every amount of fuel.\<close>

lemma evm_run_runner: "runner (evm_run X n)"
proof (induction n)
  case 0
  show ?case by unfold_locales simp_all
next
  case (Suc n)
  then show ?case by (simp add: runner.iter_runner)
qed

interpretation interpreter: runner X "evm_run X n" for X n
  by (rule evm_run_runner)

end
