(* ===== verification/Fuel.thy ===== *)
theory Fuel
  imports Termination
begin

text \<open>
  Termination of the interpreter: more fuel than gas is never exhausted.  A handler can only report
  exhausted fuel when one of its sub-runs does, and every sub-run, like the next iteration, starts
  with less gas than the instruction found.
\<close>

section \<open>Handlers without sub-runs\<close>

lemma bindR_OutOfFuel_iff:
  "bindR m f = OutOfFuel \<longleftrightarrow> m = OutOfFuel \<or> (\<exists>x. m = Ret x \<and> f x = OutOfFuel)"
  by (cases m) auto

lemma machine_helpers_no_fuel [simp]:
  "unop f evm \<noteq> OutOfFuel" "binop g evm \<noteq> OutOfFuel" "ternop h evm \<noteq> OutOfFuel"
  "read_memory off sz evm \<noteq> OutOfFuel" "store_memory p n bs evm \<noteq> OutOfFuel"
  "padded_slice d off sz \<noteq> OutOfFuel" "copy_data d dst off sz evm \<noteq> OutOfFuel"
  by (auto simp: unop_def binop_def ternop_def read_memory_def store_memory_def padded_slice_def
      copy_data_def no_fuel Let_def)

lemma machine_op_no_fuel [simp]: "machine_op X opcode env evm \<noteq> OutOfFuel"
  unfolding machine_op_def
  by (simp add: arithmetic_opcodes_def comparison_bitwise_opcodes_def keccak256_opcode_def
      calldataload_opcode_def calldatacopy_opcode_def codecopy_opcode_def returndatacopy_opcode_def
      mload_opcode_def mstore_opcode_def mstore8_opcode_def push_opcode_def dup_opcode_def swap_opcode_def
      no_fuel Let_def split: prod.split)

lemma reading_ops_no_fuel [simp]:
  "environmental_info_opcode X opcode env evm ws ss \<noteq> OutOfFuel"
  "extcodecopy_opcode X evm ws ss \<noteq> OutOfFuel"
  "block_info_opcode X opcode env evm ws \<noteq> OutOfFuel"
  "sload_opcode X env evm ws ss \<noteq> OutOfFuel"
  "return_opcode evm \<noteq> OutOfFuel"
  by (simp_all add: environmental_info_opcode_def extcodecopy_opcode_def block_info_opcode_def
      sload_opcode_def return_opcode_def no_fuel Let_def split: prod.split)

lemma pop_topics_no_fuel [simp]: "pop_topics n evm \<noteq> OutOfFuel"
  by (induction n arbitrary: evm) (auto simp: no_fuel)

lemma ensure_account_no_fuel [simp]: "ensure_account X v a lv ws \<noteq> OutOfFuel"
  by (auto simp: ensure_account_def no_fuel)

lemma writing_ops_no_fuel [simp]:
  "log_opcode opcode env evm ss \<noteq> OutOfFuel"
  "sstore_refund v a b c ss \<noteq> OutOfFuel"
  "sstore_opcode X env evm lv ws ss \<noteq> OutOfFuel"
  "selfdestruct_opcode X env evm lv ws ss \<noteq> OutOfFuel"
  by (auto simp: log_opcode_def sstore_refund_def sstore_opcode_def selfdestruct_opcode_def
      selfdestruct_transfer_def no_fuel Let_def intro!: journaled_no_fuel)

section \<open>Precompiled contracts\<close>

lemma take_gas_no_fuel: "(\<And>g. k g \<noteq> OutOfFuel) \<Longrightarrow> take_gas g u k \<noteq> OutOfFuel"
  by (simp add: take_gas_def)

lemma get_padded_data_no_fuel [simp]: "get_padded_data d s l \<noteq> OutOfFuel"
  by (auto simp: get_padded_data_def bindR_OutOfFuel_iff Let_def)

lemma u256_at_no_fuel [simp]: "u256_at d off \<noteq> OutOfFuel"
  by (auto simp: u256_at_def no_fuel)

lemma pairing_points_no_fuel [simp]: "pairing_points X d is \<noteq> OutOfFuel"
  by (induction "is") (auto simp: bindR_OutOfFuel_iff Let_def split: option.splits)

lemma public_inputs_no_fuel [simp]: "public_inputs d off is \<noteq> OutOfFuel"
  by (induction "is") (auto simp: bindR_OutOfFuel_iff)

lemma expmod_no_fuel [simp]: "expmod X g d v \<noteq> OutOfFuel"
  by (simp add: expmod_def expmod_gas_def usize_add_def take_gas_def no_fuel Let_def)

lemma curve_no_fuel [simp]:
  "bn_add X g d v \<noteq> OutOfFuel" "bn_mul X g d v \<noteq> OutOfFuel" "bn_pairing X g d v \<noteq> OutOfFuel"
  by (simp_all add: bn_add_def bn_mul_def bn_pairing_def take_gas_def no_fuel Let_def split: option.split)

lemma hashes_no_fuel [simp]:
  "ecrec X g d \<noteq> OutOfFuel" "sha256 X g d \<noteq> OutOfFuel" "precompile_ripemd160 X g d \<noteq> OutOfFuel"
  "precompile_identity g d \<noteq> OutOfFuel" "my_rsa X g d \<noteq> OutOfFuel"
  by (simp_all add: ecrec_def sha256_def precompile_ripemd160_def precompile_identity_def my_rsa_def
      take_gas_def no_fuel Let_def split: option.split)

lemma my_groth16_no_fuel [simp]: "my_groth16 X g d \<noteq> OutOfFuel"
  by (simp add: my_groth16_def take_gas_def no_fuel Let_def split: option.split)

lemma poseidon_elements_no_fuel [simp]: "poseidon_elements d is \<noteq> OutOfFuel"
  by (induction "is") (auto simp: bindR_OutOfFuel_iff split: if_splits)

lemma my_poseidon_no_fuel [simp]: "my_poseidon X g d \<noteq> OutOfFuel"
  by (simp add: my_poseidon_def take_gas_def no_fuel Let_def split: option.split)

lemma precompiled_no_fuel: "precompiled X v c g d \<noteq> Some OutOfFuel"
  by (auto simp: precompiled_def)

section \<open>Calls and creations\<close>

text \<open>\<open>run\<close> has enough fuel for machines with gas \<open>g\<close>.\<close>

definition enough :: "('t, 'r) runner \<Rightarrow> u256 \<Rightarrow> bool" where
  "enough run g \<longleftrightarrow> (\<forall>env evm lv ws ss. e_gas evm = g \<longrightarrow> run env evm lv ws ss \<noteq> OutOfFuel)"

lemma enoughD: "enough run g \<Longrightarrow> e_gas evm = g \<Longrightarrow> run env evm lv ws ss \<noteq> OutOfFuel"
  by (simp add: enough_def)

lemma undo_frame_no_fuel [simp]: "undo_frame lv ws ss \<noteq> OutOfFuel"
  by (auto simp: undo_frame_def bindR_OutOfFuel_iff)

lemma transfer_value_no_fuel [simp]: "transfer_value X s r e lv ws \<noteq> OutOfFuel"
  by (auto simp: transfer_value_def bindR_OutOfFuel_iff journaled_no_fuel split: if_splits)

lemma run_contract_no_fuel: "enough run g \<Longrightarrow> run_contract X run c env g lv ws ss \<noteq> OutOfFuel"
  using precompiled_no_fuel [of X "lv_version lv" "into_word c" g "i_data env"]
  by (auto simp: run_contract_def bindR_OutOfFuel_iff Let_def enough_def split: option.splits)

lemma message_call_no_fuel:
  "enough run g \<Longrightarrow> message_call X run lv ws ss s o' r c g p e av d dep sudo h \<noteq> OutOfFuel"
  by (auto simp: message_call_def bindR_OutOfFuel_iff Let_def run_contract_no_fuel
      split: if_splits exec_result.splits option.splits)

lemma creation_steps_no_fuel [simp]:
  "address_preimage X ws s init salt \<noteq> OutOfFuel"
  "is_collision X ws a \<noteq> OutOfFuel"
  "init_account X s a e lv ws \<noteq> OutOfFuel"
  "deposit_code v a g out ws \<noteq> OutOfFuel"
  by (auto simp: address_preimage_def is_collision_def init_account_def new_nonce_def endow_account_def
      deposit_code_def usize_mul_def bindR_OutOfFuel_iff journaled_no_fuel Let_def
      split: if_splits option.splits)

lemma contract_creation_no_fuel:
  "enough run g \<Longrightarrow> contract_creation X run lv ws ss s o' g p e init dep salt sudo h \<noteq> OutOfFuel"
  by (auto simp: contract_creation_def bindR_OutOfFuel_iff Let_def enough_def
      split: if_splits run_result.splits option.splits)

section \<open>Instructions\<close>

lemma call_memory_no_fuel [simp]:
  "call_input io is oo os evm \<noteq> OutOfFuel"
  "write_output oo os d evm \<noteq> OutOfFuel"
  "init_code_input off sz evm \<noteq> OutOfFuel"
  by (auto simp: call_input_def write_output_def init_code_input_def bindR_OutOfFuel_iff Let_def
      split: if_splits)

lemma finish_no_fuel [simp]:
  "finish_call oo os r child evm lv \<noteq> OutOfFuel"
  "finish_create r child evm lv \<noteq> OutOfFuel"
  by (auto simp: finish_call_def finish_create_def bindR_OutOfFuel_iff
      split: call_result.splits option.splits)

lemma call_body_no_fuel:
  "enough run g \<Longrightarrow> call_body X run env nb s r c g e av d p oo os evm lv ws ss \<noteq> OutOfFuel"
  by (auto simp: call_body_def bindR_OutOfFuel_iff message_call_no_fuel split: if_splits)

lemma call_ops_no_fuel:
  assumes "\<And>g. e_child_gas_mem evm = Some g \<Longrightarrow>
    enough run (if e_stack evm ! 2 > 0 then sat_add g 2300 else g)"
  shows "call_opcode X run env evm lv ws ss \<noteq> OutOfFuel" "callcode_opcode X run env evm lv ws ss \<noteq> OutOfFuel"
  using assms
  by (auto simp: call_opcode_def callcode_opcode_def bindR_OutOfFuel_iff pop_eq_Ret call_body_no_fuel
      Let_def same_registers_def split: option.splits dest!: call_input_keeps)

lemma delegate_ops_no_fuel:
  assumes "\<And>g. e_child_gas_mem evm = Some g \<Longrightarrow> enough run g"
  shows "delegatecall_opcode X run env evm lv ws ss \<noteq> OutOfFuel"
    "staticcall_opcode X run env evm lv ws ss \<noteq> OutOfFuel"
  using assms
  by (auto simp: delegatecall_opcode_def staticcall_opcode_def bindR_OutOfFuel_iff pop_eq_Ret
      call_body_no_fuel Let_def same_registers_def split: option.splits dest!: call_input_keeps)

lemma create_body_no_fuel:
  assumes "\<And>g. unat g \<le> unat (e_gas evm) \<Longrightarrow> enough run g"
  shows "create_body X run env v off sz salt evm lv ws ss \<noteq> OutOfFuel"
proof -
  have "unat (g - g div 64) \<le> unat g" for g :: u256
  proof -
    have "g div 64 \<le> g" by (simp add: word_le_nat_alt unat_div)
    then show ?thesis by (simp add: unat_sub_le)
  qed
  then show ?thesis
    using assms
    by (auto simp: create_body_def bindR_OutOfFuel_iff Let_def contract_creation_no_fuel journaled_no_fuel
        same_registers_def split: if_splits dest!: init_code_input_keeps)
qed

lemma create_ops_no_fuel:
  assumes "\<And>g. unat g \<le> unat (e_gas evm) \<Longrightarrow> enough run g"
  shows "create_opcode X run env evm lv ws ss \<noteq> OutOfFuel" "create2_opcode X run env evm lv ws ss \<noteq> OutOfFuel"
proof -
  have "create_body X run env v off sz salt (evm\<lparr>e_stack := st\<rparr>) lv ws ss \<noteq> OutOfFuel" for v off sz salt st
    by (rule create_body_no_fuel) (use assms in simp)
  then show "create_opcode X run env evm lv ws ss \<noteq> OutOfFuel" "create2_opcode X run env evm lv ws ss \<noteq> OutOfFuel"
    by (auto simp: create_opcode_def create2_opcode_def bindR_OutOfFuel_iff pop_eq_Ret)
qed

lemma dispatch_no_fuel_simple:
  "opcode \<notin> {0xf0, 0xf1, 0xf2, 0xf4, 0xf5, 0xfa} \<Longrightarrow> dispatch X run opcode env evm lv ws ss \<noteq> OutOfFuel"
  unfolding dispatch_def by (simp add: no_fuel split: prod.split)

lemma dispatch_no_fuel:
  assumes safe: "safe_op X opcode ss env evm ws c evm1 ws1" and ch: "charged opcode c evm1 = Ret evm2"
    and ok: "gas_ok (e_gas evm)"
    and run: "\<And>g. gas_ok g \<Longrightarrow> unat g < unat (e_gas evm) \<Longrightarrow> enough run g"
  shows "dispatch X run opcode env evm2 lv ws1 ss \<noteq> OutOfFuel"
proof -
  have call: "dispatch X run opcode env evm2 lv ws1 ss \<noteq> OutOfFuel"
    if op: "opcode \<in> {0xf1, 0xf2, 0xf4, 0xfa}"
  proof -
    from safe_call_child [OF safe ch ok op] obtain g v where m: "e_child_gas_mem evm2 = Some g"
      and st: "e_stack evm2 = e_stack evm" and v: "v = (if opcode \<in> {0xf1, 0xf2} then e_stack evm ! 2 else 0)"
      and less: "unat (e_gas evm2) + unat (if v > 0 then sat_add g 2300 else g) < unat (e_gas evm)"
      and cg: "gas_ok (if v > 0 then sat_add g 2300 else g)" by blast
    have en: "enough run (if v > 0 then sat_add g 2300 else g)"
      using run [OF cg] less by simp
    have f: "opcode \<in> {0xf1, 0xf2} \<Longrightarrow> e_child_gas_mem evm2 = Some g' \<Longrightarrow>
        enough run (if e_stack evm2 ! 2 > 0 then sat_add g' 2300 else g')" for g'
      using en v m st by (auto split: if_splits)
    have d: "opcode \<in> {0xf4, 0xfa} \<Longrightarrow> e_child_gas_mem evm2 = Some g' \<Longrightarrow> enough run g'" for g'
      using en v m by auto
    from op show ?thesis
      using call_ops_no_fuel [OF f] delegate_ops_no_fuel [OF d]
      by (elim insertE emptyE) (simp_all add: dispatch_def is_machine_op_def no_fuel)
  qed
  have create: "dispatch X run opcode env evm2 lv ws1 ss \<noteq> OutOfFuel" if op: "opcode \<in> {0xf0, 0xf5}"
  proof -
    have "0 < unat c" using safe_op_cost_pos [OF safe ok] op by auto
    then have less: "unat (e_gas evm2) < unat (e_gas evm)" using safe_op_gas [OF safe ch] by simp
    then have en: "unat g \<le> unat (e_gas evm2) \<Longrightarrow> enough run g" for g
      using run [of g] gas_ok_mono [OF ok, of g] by simp
    from op show ?thesis
      using create_ops_no_fuel [OF en]
      by (elim insertE emptyE) (simp_all add: dispatch_def is_machine_op_def no_fuel)
  qed
  show ?thesis using call create dispatch_no_fuel_simple by blast
qed

context runner
begin

lemma iter_enough:
  assumes ok: "gas_ok (e_gas evm)" and run': "\<And>g. gas_ok g \<Longrightarrow> unat g < unat (e_gas evm) \<Longrightarrow> enough run g"
  shows "evm_iter X run env evm lv ws ss \<noteq> OutOfFuel"
proof -
  define opcode where "opcode = current_opcode (i_byte env) (e_pc evm)"
  consider (panic) "is_safe X opcode ss env evm ws = Panic"
    | (ret) ok' evm1 ws1 where "is_safe X opcode ss env evm ws = Ret (ok', evm1, ws1)"
    by (cases "is_safe X opcode ss env evm ws") auto
  then show ?thesis
  proof cases
    case panic
    then show ?thesis by (simp add: evm_iter_def opcode_def [symmetric] Let_def)
  next
    case ret
    from ret show ?thesis
    proof (cases rule: is_safe_cases)
      case unsafe
      with ret show ?thesis by (simp add: evm_iter_def opcode_def [symmetric] Let_def)
    next
      case (safe c)
      with ret have t: "is_safe X opcode ss env evm ws = Ret (True, evm1, ws1)" by simp
      have step: "run env evm3 lv1 ws3 ss1 \<noteq> OutOfFuel"
        if "charged opcode c evm1 = Ret evm2"
          "dispatch X run opcode env evm2 lv ws1 ss = Ret (None, evm3, lv1, ws3, ss1)"
        for evm2 evm3 lv1 ws3 ss1
      proof -
        from step_gas [OF safe(2) that ok] have "unat (e_gas evm3) < unat (e_gas evm)" by simp
        with run' [of "e_gas evm3"] gas_ok_mono [OF ok, of "e_gas evm3"] show ?thesis
          by (auto dest: enoughD)
      qed
      show ?thesis
        unfolding evm_iter_safe [OF opcode_def t safe(2)]
        using step dispatch_no_fuel [OF safe(2) _ ok run']
        by (auto simp: bindR_OutOfFuel_iff charged_def split: option.splits bool.splits)
    qed
  qed
qed

end

lemma evm_run_enough: "gas_ok g \<Longrightarrow> unat g < n \<Longrightarrow> enough (evm_run X n) g"
proof (induction n arbitrary: g)
  case (Suc n)
  show ?case
    unfolding enough_def
  proof (intro allI impI)
    fix env and evm :: evm and lv ws ss assume g: "e_gas evm = g"
    have "enough (evm_run X n) h" if "gas_ok h" "unat h < unat (e_gas evm)" for h
      using Suc.IH [OF that(1)] that(2) g Suc.prems by simp
    with interpreter.iter_enough [of evm X n] g Suc.prems(1)
    show "evm_run X (Suc n) env evm lv ws ss \<noteq> OutOfFuel" by simp
  qed
qed simp

end
