(* ===== verification/Fuel_Mono.thy ===== *)
theory Fuel_Mono
  imports Fuel
begin

text \<open>
  The fuel does not influence results.  A run that ends with some fuel ends in the same way with
  more, so the fuelled interpreter has a limit \<open>evm_exec\<close>, and for every machine whose gas is below the
  saturation point the limit satisfies the loop equation of the source without any fuel.
\<close>

section \<open>Approximation\<close>

definition approx :: "'a res \<Rightarrow> 'a res \<Rightarrow> bool" where
  "approx r r' \<longleftrightarrow> r = OutOfFuel \<or> r' = r"

lemma approx_refl [simp, intro]: "approx r r"
  by (simp add: approx_def)

lemma approx_bind:
  "approx m m' \<Longrightarrow> (\<And>x. approx (f x) (f' x)) \<Longrightarrow> approx (bindR m f) (bindR m' f')"
  by (cases m) (auto simp: approx_def)

lemma approx_bind_same: "(\<And>x. approx (f x) (f' x)) \<Longrightarrow> approx (bindR m f) (bindR m f')"
  by (rule approx_bind) auto

lemma approx_bind_left: "approx m m' \<Longrightarrow> approx (bindR m f) (bindR m' f)"
  by (rule approx_bind) auto

lemma approx_prod: "(\<And>a b. approx (f a b) (f' a b)) \<Longrightarrow> approx (case x of (a, b) \<Rightarrow> f a b) (case x of (a, b) \<Rightarrow> f' a b)"
  by (cases x) auto

lemma approx_if:
  "approx a a' \<Longrightarrow> approx b b' \<Longrightarrow> approx (if c then a else b) (if c then a' else b')"
  by simp

lemma approx_option:
  "approx a a' \<Longrightarrow> (\<And>y. approx (f y) (f' y)) \<Longrightarrow>
   approx (case x of None \<Rightarrow> a | Some y \<Rightarrow> f y) (case x of None \<Rightarrow> a' | Some y \<Rightarrow> f' y)"
  by (cases x) auto

lemmas approx_intros = approx_bind_same approx_prod approx_if approx_option

text \<open>Two ways to run a code, the second ending whenever the first does.\<close>

locale approximation =
  fixes X :: "('t, 'r) ext" and run run' :: "('t, 'r) runner"
  assumes run_approx: "approx (run env evm lv ws ss) (run' env evm lv ws ss)"
begin

lemma run_contract_approx:
  "approx (run_contract X run c env g lv ws ss) (run_contract X run' c env g lv ws ss)"
  unfolding run_contract_def Let_def
  by (intro approx_intros approx_bind_left approx_refl run_approx)

lemma message_call_approx:
  "approx (message_call X run lv ws ss s o' r c g p e av d dep sudo h)
     (message_call X run' lv ws ss s o' r c g p e av d dep sudo h)"
  unfolding message_call_def Let_def
  by (intro approx_intros approx_bind_left approx_refl run_contract_approx)

lemma contract_creation_approx:
  "approx (contract_creation X run lv ws ss s o' g p e init dep salt sudo h)
     (contract_creation X run' lv ws ss s o' g p e init dep salt sudo h)"
  unfolding contract_creation_def Let_def
  by (intro approx_intros approx_bind_left approx_refl run_approx)

lemma call_body_approx:
  "approx (call_body X run env nb s r c g e av d p oo os evm lv ws ss)
     (call_body X run' env nb s r c g e av d p oo os evm lv ws ss)"
  unfolding call_body_def Let_def
  by (intro approx_intros approx_bind_left approx_refl message_call_approx)

lemma create_body_approx:
  "approx (create_body X run env v off sz salt evm lv ws ss) (create_body X run' env v off sz salt evm lv ws ss)"
  unfolding create_body_def Let_def
  by (intro approx_intros approx_bind_left approx_refl contract_creation_approx)

lemma call_ops_approx:
  "approx (call_opcode X run env evm lv ws ss) (call_opcode X run' env evm lv ws ss)"
  "approx (callcode_opcode X run env evm lv ws ss) (callcode_opcode X run' env evm lv ws ss)"
  "approx (delegatecall_opcode X run env evm lv ws ss) (delegatecall_opcode X run' env evm lv ws ss)"
  "approx (staticcall_opcode X run env evm lv ws ss) (staticcall_opcode X run' env evm lv ws ss)"
  "approx (create_opcode X run env evm lv ws ss) (create_opcode X run' env evm lv ws ss)"
  "approx (create2_opcode X run env evm lv ws ss) (create2_opcode X run' env evm lv ws ss)"
  unfolding call_opcode_def callcode_opcode_def delegatecall_opcode_def staticcall_opcode_def
    create_opcode_def create2_opcode_def Let_def
  by (intro approx_intros approx_refl call_body_approx create_body_approx)+

lemma dispatch_approx:
  "approx (dispatch X run opcode env evm lv ws ss) (dispatch X run' opcode env evm lv ws ss)"
  unfolding dispatch_def
  by (intro approx_if approx_refl approx_bind_left call_ops_approx)

lemma iter_approx: "approx (evm_iter X run env evm lv ws ss) (evm_iter X run' env evm lv ws ss)"
  unfolding evm_iter_def execution_def Let_def
  by (intro approx_intros approx_bind approx_refl dispatch_approx run_approx)

end

lemma evm_run_approx: "approximation (evm_run X n) (evm_run X (n + k))"
proof (induction n)
  case 0
  show ?case by unfold_locales (simp add: approx_def)
next
  case (Suc n)
  show ?case by unfold_locales (simp add: approximation.iter_approx [OF Suc.IH])
qed

interpretation more_fuel: approximation X "evm_run X n" "evm_run X (n + k)" for X n k
  by (rule evm_run_approx)

lemma evm_run_more:
  "n \<le> m \<Longrightarrow> evm_run X n env evm lv ws ss \<noteq> OutOfFuel \<Longrightarrow>
   evm_run X m env evm lv ws ss = evm_run X n env evm lv ws ss"
  using more_fuel.run_approx [of X n env evm lv ws ss "m - n"] by (simp add: approx_def)

lemma evm_run_agree:
  assumes "evm_run X n env evm lv ws ss \<noteq> OutOfFuel" "evm_run X m env evm lv ws ss \<noteq> OutOfFuel"
  shows "evm_run X n env evm lv ws ss = evm_run X m env evm lv ws ss"
  using evm_run_more [of n m X env evm lv ws ss] evm_run_more [of m n X env evm lv ws ss] assms
  by (cases "n \<le> m") auto

section \<open>The limit\<close>

text \<open>The result with the least fuel that suffices; exhausted if none does.\<close>

definition evm_exec :: "('t, 'r) ext \<Rightarrow> ('t, 'r) runner" where
  "evm_exec X env evm lv ws ss =
     evm_run X (LEAST n. evm_run X n env evm lv ws ss \<noteq> OutOfFuel) env evm lv ws ss"

lemma evm_exec_eq:
  assumes "evm_run X n env evm lv ws ss \<noteq> OutOfFuel"
  shows "evm_exec X env evm lv ws ss = evm_run X n env evm lv ws ss"
proof -
  have "evm_exec X env evm lv ws ss \<noteq> OutOfFuel"
    unfolding evm_exec_def by (rule LeastI [of "\<lambda>n. evm_run X n env evm lv ws ss \<noteq> OutOfFuel", OF assms])
  then show ?thesis unfolding evm_exec_def by (rule evm_run_agree [OF _ assms])
qed

interpretation limit: approximation X "evm_run X n" "evm_exec X" for X n
proof
  show "approx (evm_run X n env evm lv ws ss) (evm_exec X env evm lv ws ss)" for env evm lv ws ss
    using evm_exec_eq [of X n env evm lv ws ss] by (auto simp: approx_def)
qed

lemma evm_exec_gas:
  assumes "gas_ok (e_gas evm)"
  shows "evm_exec X env evm lv ws ss = evm_run X (Suc (unat (e_gas evm))) env evm lv ws ss"
    and "evm_exec X env evm lv ws ss \<noteq> OutOfFuel"
proof -
  have "evm_run X (Suc (unat (e_gas evm))) env evm lv ws ss \<noteq> OutOfFuel"
    by (rule enoughD [OF evm_run_enough [OF assms]]) simp_all
  then show "evm_exec X env evm lv ws ss = evm_run X (Suc (unat (e_gas evm))) env evm lv ws ss"
    and "evm_exec X env evm lv ws ss \<noteq> OutOfFuel"
    by (simp_all add: evm_exec_eq del: evm_run.simps)
qed

lemma evm_exec_step:
  assumes "gas_ok (e_gas evm)"
  shows "evm_exec X env evm lv ws ss = evm_iter X (evm_exec X) env evm lv ws ss"
proof -
  let ?n = "unat (e_gas evm)"
  have "approx (evm_iter X (evm_run X ?n) env evm lv ws ss) (evm_iter X (evm_exec X) env evm lv ws ss)"
    by (rule limit.iter_approx)
  then show ?thesis
    using evm_exec_gas [OF assms, of X env lv ws ss] by (simp add: approx_def)
qed

text \<open>The limit meets the contract of the interpreter, too.\<close>

lemma evm_exec_runner: "runner (evm_exec X)"
proof
  fix env evm lv ws ss r evm' lv' ws' ss'
  assume "evm_exec X env evm lv ws ss = Ret (r, evm', lv', ws', ss')"
  then obtain n where n: "evm_run X n env evm lv ws ss = Ret (r, evm', lv', ws', ss')"
    unfolding evm_exec_def by blast
  show "op_frame lv ws ss lv' ws' ss'" using n by (rule interpreter.run_frame)
  show "gas_ok (e_gas evm) \<Longrightarrow> unat (e_gas evm') \<le> unat (e_gas evm)" using n by (rule interpreter.run_gas)
qed

interpretation exec: runner X "evm_exec X" for X
  by (rule evm_exec_runner)

end
