(* ===== verification/Sample.thy ===== *)
theory Sample
  imports Interpreter
begin

text \<open>
  Concrete inputs for the witnesses: an instance of the external functions (a store without entries,
  constant hashes, tries without nodes), a block header, a world with two accounts in the cache, and
  machines running small programs.
\<close>

text \<open>The functions of the database are arguments, those of \<open>sample_ext\<close> store nothing.\<close>

definition sample_ext_on ::
  "('r \<Rightarrow> cf \<Rightarrow> byte list \<Rightarrow> byte list option option) \<Rightarrow> ('r \<Rightarrow> write_batch \<Rightarrow> 'r option) \<Rightarrow> (unit, 'r) ext" where
  "sample_ext_on get_cf write = \<lparr>x_keccak256 = (\<lambda>_. 7), x_get_cf = get_cf, x_write = write,
     x_last_key = (\<lambda>_ _. None), x_trie_from = (\<lambda>_ _. Some ()), x_trie_get = (\<lambda>_ _ _. Some None),
     x_trie_new = (\<lambda>_. ()), x_trie_insert = (\<lambda>_ _ _ _. Some ()), x_trie_remove = (\<lambda>_ _ _. ()),
     x_trie_root = (\<lambda>_ _. Some (EMPTY_STORAGE_ROOT, (), [])), x_encode_mpt = (\<lambda>_. []), x_decode_mpt = (\<lambda>_. None), x_decode_u256 = (\<lambda>_. None),
     x_encode_u256 = (\<lambda>_. []), x_encode_u256_len = (\<lambda>_. 0), x_rlp_header = (\<lambda>_. []), x_rlp_bytes = (\<lambda>b. b), x_rlp_bytes_len = length,
     x_rlp_u64 = (\<lambda>_. []), x_rlp_u64_len = (\<lambda>_. 0), x_ecdsa_recover = (\<lambda>_ _ _. None),
     x_sha256 = (\<lambda>_. replicate 32 0), x_ripemd160 = (\<lambda>_. replicate 20 0),
     x_modpow = (\<lambda>b e m. b ^ e mod m), x_g1_on_curve = (\<lambda>_. False), x_g1_add = (\<lambda>p _. p),
     x_g1_mul = (\<lambda>p _. p), x_g2_valid = (\<lambda>_. False), x_pairing_is_one = (\<lambda>ps. ps = []),
     x_rsa_verify = (\<lambda>_ _ _ _. None), x_groth16_verify = (\<lambda>_ _ _ _ _. None),
     x_poseidon = (\<lambda>_. Some None)\<rparr>"

definition sample_ext :: "(unit, unit) ext" where
  "sample_ext = sample_ext_on (\<lambda>_ _ _. Some None) (\<lambda>r _. Some r)"

lemma sample_ext_on_simps [simp]:
  "x_keccak256 (sample_ext_on get_cf write) = (\<lambda>_. 7)" "x_get_cf (sample_ext_on get_cf write) = get_cf"
  "x_write (sample_ext_on get_cf write) = write" "x_last_key (sample_ext_on get_cf write) = (\<lambda>_ _. None)"
  "x_trie_from (sample_ext_on get_cf write) = (\<lambda>_ _. Some ())"
  "x_trie_get (sample_ext_on get_cf write) = (\<lambda>_ _ _. Some None)" "x_trie_new (sample_ext_on get_cf write) = (\<lambda>_. ())"
  "x_trie_insert (sample_ext_on get_cf write) = (\<lambda>_ _ _ _. Some ())"
  "x_trie_remove (sample_ext_on get_cf write) = (\<lambda>_ _ _. ())"
  "x_trie_root (sample_ext_on get_cf write) = (\<lambda>_ _. Some (EMPTY_STORAGE_ROOT, (), []))"
  "x_encode_mpt (sample_ext_on get_cf write) = (\<lambda>_. [])" "x_decode_mpt (sample_ext_on get_cf write) = (\<lambda>_. None)"
  "x_decode_u256 (sample_ext_on get_cf write) = (\<lambda>_. None)" "x_encode_u256 (sample_ext_on get_cf write) = (\<lambda>_. [])"
  "x_encode_u256_len (sample_ext_on get_cf write) = (\<lambda>_. 0)" "x_rlp_header (sample_ext_on get_cf write) = (\<lambda>_. [])"
  "x_rlp_bytes (sample_ext_on get_cf write) = (\<lambda>b. b)" "x_rlp_bytes_len (sample_ext_on get_cf write) = length"
  "x_rlp_u64 (sample_ext_on get_cf write) = (\<lambda>_. [])" "x_rlp_u64_len (sample_ext_on get_cf write) = (\<lambda>_. 0)"
  "x_ecdsa_recover (sample_ext_on get_cf write) = (\<lambda>_ _ _. None)"
  "x_sha256 (sample_ext_on get_cf write) = (\<lambda>_. replicate 32 0)"
  "x_ripemd160 (sample_ext_on get_cf write) = (\<lambda>_. replicate 20 0)"
  "x_modpow (sample_ext_on get_cf write) = (\<lambda>b e m. b ^ e mod m)"
  "x_g1_on_curve (sample_ext_on get_cf write) = (\<lambda>_. False)" "x_g1_add (sample_ext_on get_cf write) = (\<lambda>p _. p)"
  "x_g1_mul (sample_ext_on get_cf write) = (\<lambda>p _. p)" "x_g2_valid (sample_ext_on get_cf write) = (\<lambda>_. False)"
  "x_pairing_is_one (sample_ext_on get_cf write) = (\<lambda>ps. ps = [])"
  "x_rsa_verify (sample_ext_on get_cf write) = (\<lambda>_ _ _ _. None)"
  "x_groth16_verify (sample_ext_on get_cf write) = (\<lambda>_ _ _ _ _. None)"
  "x_poseidon (sample_ext_on get_cf write) = (\<lambda>_. Some None)"
  by (simp_all add: sample_ext_on_def fun_eq_iff)

lemmas sample_ext_simps [simp] = sample_ext_on_simps [of "\<lambda>_ :: unit. \<lambda>_ _. Some None" "\<lambda>r :: unit. \<lambda>_. Some r", folded sample_ext_def]

definition sample_header :: block_header where
  "sample_header = \<lparr>h_beneficiary = 9, h_timestamp = 100, h_number = 5, h_mix_hash = 0,
     h_gas_limit = 1000000, h_base_fee_per_gas = None\<rparr>"

definition sample_env :: "byte list \<Rightarrow> exec_env" where
  "sample_env code = \<lparr>i_address = 0x100, i_origin = 0x200, i_gas_price = 1, i_data = [], i_sender = 0x200,
     i_value = 0, i_byte = code, i_block_header = sample_header, i_depth = 0, i_permission = True\<rparr>"

definition sample_account :: "u64 \<Rightarrow> u256 \<Rightarrow> account" where
  "sample_account n b = \<lparr>acc_nonce = n, acc_balance = b, acc_storage = Map.empty, acc_code = [],
     acc_storage_hash = EMPTY_STORAGE_ROOT, acc_account_hash = 0\<rparr>"

definition sample_db :: "unit rocks_db" where
  "sample_db = rocks_db_new ()"

definition sample_world :: "(unit, unit) world_state" where
  "sample_world = \<lparr>ws_cache = [0x100 \<mapsto> sample_account 1 50, 0x200 \<mapsto> sample_account 3 1000],
     ws_data = sample_db, ws_trie = (), ws_parent_block = 0\<rparr>"

definition sample_machine :: "byte list \<Rightarrow> u256 \<Rightarrow> evm" where
  "sample_machine code g = (evm_new (sample_env code) Constantinople)\<lparr>e_gas := g\<rparr>"

lemma sample_env_sel [simp]:
  "i_address (sample_env code) = 0x100" "i_byte (sample_env code) = code" "i_data (sample_env code) = []"
  "i_permission (sample_env code) = True" "i_depth (sample_env code) = 0"
  "i_sender (sample_env code) = 0x200" "i_value (sample_env code) = 0"
  "i_block_header (sample_env code) = sample_header"
  by (simp_all add: sample_env_def)

lemma sample_world_sel [simp]:
  "ws_cache sample_world 0x100 = Some (sample_account 1 50)"
  "ws_cache sample_world 0x200 = Some (sample_account 3 1000)"
  "ws_data sample_world = sample_db" "ws_trie sample_world = ()" "ws_parent_block sample_world = 0"
  by (simp_all add: sample_world_def)

lemma sample_account_sel [simp]:
  "acc_nonce (sample_account n b) = n" "acc_balance (sample_account n b) = b"
  "acc_storage (sample_account n b) = Map.empty" "acc_code (sample_account n b) = []"
  "acc_storage_hash (sample_account n b) = EMPTY_STORAGE_ROOT"
  by (simp_all add: sample_account_def)

lemma sample_account_upd [simp]:
  "(sample_account n b)\<lparr>acc_nonce := m\<rparr> = sample_account m b"
  "(sample_account n b)\<lparr>acc_balance := c\<rparr> = sample_account n c"
  by (simp_all add: sample_account_def)

lemma leviathan_new_sel [simp]:
  "lv_journal (leviathan_new v) = []" "lv_version (leviathan_new v) = v"
  "lv_eth_call (leviathan_new v) = None" "lv_return_data (leviathan_new v) = []"
  by (simp_all add: leviathan_new_def)

lemma sample_machine_sel [simp]:
  "e_gas (sample_machine code g) = g" "e_pc (sample_machine code g) = 0"
  "e_stack (sample_machine code g) = []" "e_memory (sample_machine code g) = []"
  "e_active_words (sample_machine code g) = 0" "e_return_back (sample_machine code g) = []"
  "e_version (sample_machine code g) = Constantinople"
  "e_child_gas_mem (sample_machine code g) = None"
  "e_safe_jump (sample_machine code g) = jump_scan code 0 (replicate (length code) 0)"
  by (simp_all add: sample_machine_def evm_new_def Let_def)

text \<open>A run of the empty program stops at once.\<close>

lemma stop_at_once:
  assumes "i_byte env = []" "e_pc evm = 0" "length (e_stack evm) \<le> 1024"
  shows "evm_run X (Suc n) env evm lv ws ss = Ret (ROk [], evm\<lparr>e_return_back := [], e_pc := 1\<rparr>, lv, ws, ss)"
  using assms
  by (simp add: evm_iter_def current_opcode_def is_safe_def SAFE_TABLE_def fork_disabled_def gas_def
      GAS_TABLE_def is_safe_jump_def is_safe_returndata_def is_safe_static_def execution_def advance_pc_def
      dispatch_def sat_sub_def Let_def)

lemma sample_stop:
  "evm_run sample_ext (Suc n) (sample_env []) (sample_machine [] g) lv ws ss =
     Ret (ROk [], (sample_machine [] g)\<lparr>e_return_back := [], e_pc := 1\<rparr>, lv, ws, ss)"
  by (rule stop_at_once) simp_all

end
