(* ===== verification/Frame_Steps.thy ===== *)
theory Frame_Steps
  imports Fuel_Mono Sample
begin

text \<open>
  The loop of one frame as a transition system.  A configuration is the machine with the journal, the
  world state and the substate; a step is one iteration of the loop of \<open>evm_run\<close> that continues, and a
  configuration halts when the iteration returns.  A run is a sequence of steps that ends in a halt,
  and every reachable machine satisfies the invariant of the frame.
\<close>

section \<open>Steps\<close>

type_synonym ('t, 'r) config = "evm \<times> leviathan \<times> ('t, 'r) world_state \<times> substate"

inductive evm_step ::
  "('t, 'r) ext \<Rightarrow> exec_env \<Rightarrow> ('t, 'r) config \<Rightarrow> ('t, 'r) config \<Rightarrow> bool" for X env where
  continue:
    "opcode = current_opcode (i_byte env) (e_pc evm) \<Longrightarrow>
     is_safe X opcode ss env evm ws = Ret (True, evm1, ws1) \<Longrightarrow>
     gas X opcode ss env evm1 ws1 = Ret (c, evm2, ws2) \<Longrightarrow>
     execution X (evm_exec X) opcode env evm2 lv ws2 ss = Ret (None, evm3, lv1, ws3, ss1) \<Longrightarrow>
     evm_step X env (evm, lv, ws, ss) (evm3, lv1, ws3, ss1)"

inductive evm_halts ::
  "('t, 'r) ext \<Rightarrow> exec_env \<Rightarrow> ('t, 'r) config \<Rightarrow> run_result \<times> ('t, 'r) config \<Rightarrow> bool" for X env where
  unsafe:
    "opcode = current_opcode (i_byte env) (e_pc evm) \<Longrightarrow>
     is_safe X opcode ss env evm ws = Ret (False, evm1, ws1) \<Longrightarrow>
     evm_halts X env (evm, lv, ws, ss) (RErr None, evm1, lv, ws1, ss)"
| halt:
    "opcode = current_opcode (i_byte env) (e_pc evm) \<Longrightarrow>
     is_safe X opcode ss env evm ws = Ret (True, evm1, ws1) \<Longrightarrow>
     gas X opcode ss env evm1 ws1 = Ret (c, evm2, ws2) \<Longrightarrow>
     execution X (evm_exec X) opcode env evm2 lv ws2 ss = Ret (Some b, evm3, lv1, ws3, ss1) \<Longrightarrow>
     r = (if b then RErr (Some (e_return_back evm3)) else ROk (e_return_back evm3)) \<Longrightarrow>
     evm_halts X env (evm, lv, ws, ss) (r, evm3, lv1, ws3, ss1)"

inductive_cases evm_stepE: "evm_step X env (evm, lv, ws, ss) cfg"
inductive_cases evm_haltsE: "evm_halts X env (evm, lv, ws, ss) res"

text \<open>A step in the vocabulary of the gas proofs.\<close>

lemma step_safe:
  assumes "evm_step X env (evm, lv, ws, ss) (evm', lv', ws', ss')"
  obtains opcode c evm1 ws1 evm2 where "opcode = current_opcode (i_byte env) (e_pc evm)"
    "is_safe X opcode ss env evm ws = Ret (True, evm1, ws1)"
    "safe_op X opcode ss env evm ws c evm1 ws1" "charged opcode c evm1 = Ret evm2"
    "dispatch X (evm_exec X) opcode env evm2 lv ws1 ss = Ret (None, evm', lv', ws', ss')"
proof -
  from assms obtain opcode evm1 ws1 c evm2 ws2 where op: "opcode = current_opcode (i_byte env) (e_pc evm)"
    and s: "is_safe X opcode ss env evm ws = Ret (True, evm1, ws1)"
    and g: "gas X opcode ss env evm1 ws1 = Ret (c, evm2, ws2)"
    and x: "execution X (evm_exec X) opcode env evm2 lv ws2 ss = Ret (None, evm', lv', ws', ss')"
    by (rule evm_stepE) blast
  from s obtain c' where safe: "safe_op X opcode ss env evm ws c' evm1 ws1"
    by (cases rule: is_safe_cases) auto
  with g have "evm2 = evm1" "ws2 = ws1" by (auto simp: safe_op_def)
  with x execution_safe [OF safe] obtain evm3 where "charged opcode c' evm1 = Ret evm3"
    "dispatch X (evm_exec X) opcode env evm3 lv ws1 ss = Ret (None, evm', lv', ws', ss')" by auto
  with op s safe that show thesis by blast
qed

lemma step_less_gas:
  assumes "evm_step X env (evm, lv, ws, ss) (evm', lv', ws', ss')" "gas_ok (e_gas evm)"
  shows "unat (e_gas evm') < unat (e_gas evm)" "gas_ok (e_gas evm')"
proof -
  from assms(1) show less: "unat (e_gas evm') < unat (e_gas evm)"
    by (rule step_safe) (use exec.step_gas assms(2) in blast)
  then show "gas_ok (e_gas evm')" using gas_ok_mono [OF assms(2)] by simp
qed

lemma iter_unfold:
  "evm_iter X (evm_exec X) env evm lv ws ss = Ret res \<longleftrightarrow>
   evm_halts X env (evm, lv, ws, ss) res \<or>
   (\<exists>evm' lv' ws' ss'. evm_step X env (evm, lv, ws, ss) (evm', lv', ws', ss') \<and>
      evm_exec X env evm' lv' ws' ss' = Ret res)"
proof -
  define opcode where "opcode = current_opcode (i_byte env) (e_pc evm)"
  show ?thesis
  proof
    assume "evm_iter X (evm_exec X) env evm lv ws ss = Ret res"
    then show "evm_halts X env (evm, lv, ws, ss) res \<or>
        (\<exists>evm' lv' ws' ss'. evm_step X env (evm, lv, ws, ss) (evm', lv', ws', ss') \<and>
          evm_exec X env evm' lv' ws' ss' = Ret res)"
      by (fastforce simp: evm_iter_def Let_def split: if_splits option.splits bool.splits
          intro: evm_step.continue evm_halts.intros)
  next
    assume "evm_halts X env (evm, lv, ws, ss) res \<or>
        (\<exists>evm' lv' ws' ss'. evm_step X env (evm, lv, ws, ss) (evm', lv', ws', ss') \<and>
          evm_exec X env evm' lv' ws' ss' = Ret res)"
    then show "evm_iter X (evm_exec X) env evm lv ws ss = Ret res"
      by (elim disjE exE conjE evm_haltsE evm_stepE) (auto simp: evm_iter_def Let_def)
  qed
qed

lemma exec_unfold:
  "gas_ok (e_gas evm) \<Longrightarrow> evm_exec X env evm lv ws ss = Ret res \<longleftrightarrow>
   evm_halts X env (evm, lv, ws, ss) res \<or>
   (\<exists>evm' lv' ws' ss'. evm_step X env (evm, lv, ws, ss) (evm', lv', ws', ss') \<and>
      evm_exec X env evm' lv' ws' ss' = Ret res)"
  by (simp only: evm_exec_step iter_unfold)

lemma exec_steps:
  assumes "gas_ok (e_gas evm)" "evm_exec X env evm lv ws ss = Ret res"
  shows "\<exists>cfg. (evm_step X env)\<^sup>*\<^sup>* (evm, lv, ws, ss) cfg \<and> evm_halts X env cfg res"
  using assms
proof (induction "unat (e_gas evm)" arbitrary: evm lv ws ss rule: less_induct)
  case less
  from less.prems consider "evm_halts X env (evm, lv, ws, ss) res"
    | evm' lv' ws' ss' where "evm_step X env (evm, lv, ws, ss) (evm', lv', ws', ss')"
        "evm_exec X env evm' lv' ws' ss' = Ret res"
    using exec_unfold by blast
  then show ?case
  proof cases
    case 2
    from less.hyps [OF step_less_gas [OF 2(1) less.prems(1)] 2(2)] 2(1) show ?thesis
      by (meson converse_rtranclp_into_rtranclp)
  qed blast
qed

lemma steps_exec:
  assumes "(evm_step X env)\<^sup>*\<^sup>* cfg cfg'" "evm_halts X env cfg' res" "gas_ok (e_gas (fst cfg))"
  shows "evm_exec X env (fst cfg) (fst (snd cfg)) (fst (snd (snd cfg))) (snd (snd (snd cfg))) = Ret res"
  using assms
proof (induction rule: converse_rtranclp_induct)
  case base
  then show ?case by (cases cfg') (simp add: exec_unfold)
next
  case (step cfg cfg1)
  obtain evm lv ws ss evm1 lv1 ws1 ss1 where c: "cfg = (evm, lv, ws, ss)" "cfg1 = (evm1, lv1, ws1, ss1)"
    by (cases cfg; cases cfg1) auto
  from step.prems(2) have "gas_ok (e_gas evm1)"
    using step_less_gas(2) [OF step.hyps(1) [unfolded c]] by (simp add: c)
  with step.IH step.prems(1) have "evm_exec X env evm1 lv1 ws1 ss1 = Ret res" by (simp add: c)
  with step.hyps(1) step.prems(2) show ?case
    unfolding c fst_conv snd_conv using exec_unfold [of evm X env lv ws ss res] by blast
qed

section \<open>The invariant of a frame\<close>

text \<open>
  At most 1024 stack elements, a memory of whole words that \<open>active_words\<close> counts, the jump table of
  the code, the version of the frame, and a program counter at an instruction boundary.
\<close>

definition frame_inv :: "exec_env \<Rightarrow> VersionId \<Rightarrow> evm \<Rightarrow> bool" where
  "frame_inv env v evm \<longleftrightarrow>
     length (e_stack evm) \<le> 1024 \<and> mem_inv evm \<and> e_version evm = v \<and>
     e_safe_jump evm = e_safe_jump (evm_new env v) \<and> boundary (i_byte env) (e_pc evm)"

lemma frame_inv_new: "frame_inv env v ((evm_new env v)\<lparr>e_gas := g\<rparr>)"
  by (simp add: frame_inv_def evm_new_def Let_def mem_inv_def boundary.start)

lemma jump_target_boundary:
  assumes "jump_target_ok evm t" "e_safe_jump evm = e_safe_jump (evm_new env v)"
  shows "boundary (i_byte env) (to_usize t)"
  using assms safe_jump_correct [of "to_usize t" env v]
  by (simp add: jump_target_ok_def Let_def valid_jumpdest_def)

lemma jump_ok_forget: "jump_target_ok (forget_child m evm) t = jump_target_ok evm t"
  by (simp add: jump_target_ok_def)

lemma instr_size_opcode:
  assumes "p < length code"
  shows "instr_size (code ! p) =
    (if 0x60 \<le> current_opcode code p \<and> current_opcode code p \<le> 0x7f then current_opcode code p - 0x5e else 1)"
  using assms by (auto simp: instr_size_def current_opcode_def)

text \<open>Charging the gas and advancing the counter.\<close>

lemma charged_inv:
  assumes inv: "frame_inv env v evm" and op: "opcode = current_opcode (i_byte env) (e_pc evm)"
    and safe: "safe_op X opcode ss env evm ws c evm1 ws1" and ch: "charged opcode c evm1 = Ret evm2"
    and "opcode \<noteq> 0x00"
  shows "mem_inv evm2 \<and> e_version evm2 = v \<and> e_safe_jump evm2 = e_safe_jump (evm_new env v) \<and>
    boundary (i_byte env) (e_pc evm2) \<and>
    length (e_stack evm2) = length (e_stack evm) - (if opcode = 0x56 then 1 else if opcode = 0x57 then 2 else 0)"
proof -
  from safe obtain m where evm1: "evm1 = forget_child m evm" and j: "is_safe_jump opcode evm1 = Ret True"
    by (auto simp: safe_op_def)
  have pc: "e_pc evm < length (i_byte env)"
    using op assms(5) by (auto simp: current_opcode_def split: if_splits)
  have next_pc: "boundary (i_byte env) (e_pc evm + instr_size (i_byte env ! e_pc evm))"
    using inv pc by (auto simp: frame_inv_def intro: boundary.step)
  have jt: "jump_target_ok evm t \<Longrightarrow> boundary (i_byte env) (to_usize t)" for t
    using inv jump_target_boundary [of evm t env v] by (simp add: frame_inv_def)
  note size = instr_size_opcode [OF pc, folded op]
  consider (jump) "opcode = 0x56" | (jumpi) "opcode = 0x57" | (other) "opcode \<noteq> 0x56" "opcode \<noteq> 0x57" by blast
  then show ?thesis
  proof cases
    case jump
    with ch j inv show ?thesis
      by (auto simp: charged_def advance_pc_def evm1 pop_eq_Ret is_safe_jump_def peek_eq_Ret frame_inv_def
          jump_ok_forget) (rule jt, assumption)
  next
    case jumpi
    with size have "instr_size (i_byte env ! e_pc evm) = 1" by simp
    with jumpi ch j inv next_pc show ?thesis
      by (auto simp: charged_def advance_pc_def evm1 pop_eq_Ret is_safe_jump_def peek_eq_Ret frame_inv_def
          jump_ok_forget split: if_splits) (rule jt, assumption)
  next
    case other
    with ch inv next_pc size show ?thesis
      by (auto simp: charged_def advance_pc_def evm1 frame_inv_def split: if_splits)
  qed
qed

lemma step_stack:
  assumes d: "dispatch X run opcode env evm2 lv ws ss = Ret (None, evm', lv', ws', ss')"
    and le: "length (e_stack evm2) + snd (SAFE_TABLE opcode) - fst (SAFE_TABLE opcode) \<le> 1024"
    and ne: "opcode \<noteq> 0x56" "opcode \<noteq> 0x57"
  shows "length (e_stack evm') \<le> 1024 \<and> e_pc evm' = e_pc evm2 \<and> e_version evm' = e_version evm2 \<and>
    e_safe_jump evm' = e_safe_jump evm2 \<and> (mem_inv evm2 \<longrightarrow> mem_inv evm')"
proof (cases "opcode = 0x40")
  case True
  with d have "effect 1 0 evm2 evm' \<or> effect 1 1 evm2 evm'"
    by (cases rule: dispatch_cases) (simp_all add: is_machine_op_def blockhash_effect [unfolded One_nat_def])
  with True le show ?thesis by (auto simp: effect_defs SAFE_TABLE_def)
next
  case False
  from dispatch_effect [OF d False ne] le show ?thesis by (auto simp: op_effect_defs)
qed

lemma step_inv:
  assumes "evm_step X env (evm, lv, ws, ss) (evm', lv', ws', ss')" "frame_inv env v evm"
  shows "frame_inv env v evm'"
  using assms(1)
proof (rule step_safe)
  fix opcode c evm1 ws1 evm2
  assume op: "opcode = current_opcode (i_byte env) (e_pc evm)"
    and safe: "safe_op X opcode ss env evm ws c evm1 ws1" and ch: "charged opcode c evm1 = Ret evm2"
    and d: "dispatch X (evm_exec X) opcode env evm2 lv ws1 ss = Ret (None, evm', lv', ws', ss')"
  from d have nz: "opcode \<noteq> 0x00" by (cases rule: dispatch_cases) (auto simp: is_machine_op_def)
  note ci = charged_inv [OF assms(2) op safe ch nz]
  show "frame_inv env v evm'"
  proof (cases "opcode = 0x56 \<or> opcode = 0x57")
    case True
    with d have "evm' = evm2"
      by (cases rule: dispatch_cases) (auto simp: machine_op_def is_machine_op_def)
    with ci assms(2) show ?thesis by (auto simp: frame_inv_def)
  next
    case False
    with ci safe have "length (e_stack evm2) + snd (SAFE_TABLE opcode) - fst (SAFE_TABLE opcode) \<le> 1024"
      by (simp add: safe_op_def)
    from step_stack [OF d this] False ci show ?thesis by (auto simp: frame_inv_def)
  qed
qed

lemma steps_inv:
  assumes "(evm_step X env)\<^sup>*\<^sup>* cfg cfg'" "frame_inv env v (fst cfg)"
  shows "frame_inv env v (fst cfg')"
  using assms
proof (induction rule: rtranclp_induct)
  case (step c1 c2)
  then show ?case by (cases c1; cases c2) (auto intro: step_inv)
qed

section \<open>Properties\<close>

text \<open>
  C4.  Refinement of the step relation by the loop: with more fuel than gas, a run returns \<open>res\<close>
  exactly when a sequence of steps leads to a configuration that halts with \<open>res\<close>.
\<close>

theorem run_refines_steps:
  assumes "gas_ok (e_gas evm)" "unat (e_gas evm) < n"
  shows "evm_run X n env evm lv ws ss = Ret res \<longleftrightarrow>
    (\<exists>cfg. (evm_step X env)\<^sup>*\<^sup>* (evm, lv, ws, ss) cfg \<and> evm_halts X env cfg res)"
proof -
  have "evm_run X n env evm lv ws ss = evm_exec X env evm lv ws ss"
    using enoughD [OF evm_run_enough [OF assms] refl] by (rule evm_exec_eq [symmetric])
  then show ?thesis
    using exec_steps [OF assms(1), of X env lv ws ss res] steps_exec [of X env "(evm, lv, ws, ss)" _ res] assms(1)
    by (metis fst_conv snd_conv)
qed

theorem run_refines_steps_witness:
  "\<exists>cfg. (evm_step sample_ext (sample_env []))\<^sup>*\<^sup>*
       (sample_machine [] 5, leviathan_new Constantinople, sample_world, substate_new) cfg \<and>
     evm_halts sample_ext (sample_env []) cfg
       (ROk [], (sample_machine [] 5)\<lparr>e_return_back := [], e_pc := 1\<rparr>,
        leviathan_new Constantinople, sample_world, substate_new)"
  by (rule run_refines_steps [where n = "Suc 5", THEN iffD1, OF _ _ sample_stop]) (simp_all add: gas_ok_def)

text \<open>
  C5.  Every machine a frame reaches from \<open>EVM::new\<close> has at most 1024 stack elements, a memory of
  whole words counted by \<open>active_words\<close>, the jump table of its code, the version it was created
  with, and its program counter at an instruction boundary, never inside the data of a \<open>PUSH\<close>.
\<close>

theorem reachable_frame_inv:
  assumes "(evm_step X env)\<^sup>*\<^sup>* ((evm_new env v)\<lparr>e_gas := g\<rparr>, lv, ws, ss) (evm', lv', ws', ss')"
  shows "frame_inv env v evm'"
  using steps_inv [OF assms, of v] frame_inv_new [of env v] by (simp add: frame_inv_def mem_inv_def)

lemma sample_jumpdest:
  "evm_step sample_ext (sample_env [0x5b]) (sample_machine [0x5b] 10, lv, ws, ss)
     ((sample_machine [0x5b] 10)\<lparr>e_gas := 9, e_pc := 1\<rparr>, lv, ws, ss)"
  by (rule evm_step.continue [where opcode = "0x5b"])
     (simp add: current_opcode_def is_safe_def SAFE_TABLE_def fork_disabled_def gas_def
      GAS_TABLE_def is_safe_jump_def is_safe_returndata_def is_safe_static_def execution_def advance_pc_def
      dispatch_def is_machine_op_def machine_op_def sat_sub_def Let_def version_order del: sample_ext_simps)+

theorem reachable_frame_inv_witness:
  "frame_inv (sample_env [0x5b]) Constantinople
     ((sample_machine [0x5b] 10)\<lparr>e_gas := 9, e_pc := 1\<rparr>)"
  using reachable_frame_inv [OF r_into_rtranclp, OF sample_jumpdest [unfolded sample_machine_def]]
  by (simp add: sample_machine_def)

end
