(* ===== verification/Typing.thy ===== *)
theory Typing
  imports Frame_Steps
begin

text \<open>
  The table of stack effects of \<open>src/src/evm/safe.rs\<close> read as a type system: every opcode has a type
  \<open>(popped, pushed)\<close>, \<open>is_safe\<close> checks it against the stack before each instruction, and the handlers
  of \<open>src/src/evm/execution.rs\<close> obey it, with one exception, \<open>BLOCKHASH\<close>.  A second section states what
  the jump table of \<open>EVM::new\<close> means.
\<close>

section \<open>Jumps and the exception\<close>

lemma SAFE_TABLE_jump [simp]:
  "SAFE_TABLE 0x56 = (1, 0)" "SAFE_TABLE 0x57 = (2, 0)" "SAFE_TABLE 0x40 = (1, 1)"
  by (simp_all add: SAFE_TABLE_def)

lemma charged_stack:
  assumes "charged opcode c evm = Ret evm'"
  shows "stack_effect (if opcode = 0x56 then 1 else if opcode = 0x57 then 2 else 0) 0 evm evm'"
  using assms
  by (auto simp: charged_def advance_pc_def pop_eq_Ret stack_effect_def split: if_splits)

lemma stack_effect_same: "stack_effect 0 0 evm evm' \<Longrightarrow> e_stack evm' = e_stack evm"
  by (simp add: stack_effect_def)

lemma dispatch_stack:
  assumes d: "dispatch X run opcode env evm lv ws ss = Ret (r, evm', lv', ws', ss')"
  shows "stack_effect (if opcode = 0x56 \<or> opcode = 0x57 then 0 else fst (SAFE_TABLE opcode))
      (snd (SAFE_TABLE opcode)) evm evm' \<or> opcode = 0x40 \<and> stack_effect 1 0 evm evm'"
proof -
  consider (jump) "opcode = 0x56 \<or> opcode = 0x57" | (blockhash) "opcode = 0x40"
    | (other) "opcode \<noteq> 0x40" "opcode \<noteq> 0x56" "opcode \<noteq> 0x57" by blast
  then show ?thesis
  proof cases
    case jump
    with d have "evm' = evm" by (cases rule: dispatch_cases) (auto simp: machine_op_def is_machine_op_def)
    with jump show ?thesis by (elim disjE) (simp_all add: stack_effect_def)
  next
    case blockhash
    with d have "effect 1 0 evm evm' \<or> effect 1 1 evm evm'"
      by (cases rule: dispatch_cases) (simp_all add: is_machine_op_def blockhash_effect [unfolded One_nat_def])
    with blockhash show ?thesis by (auto simp: effect_def)
  next
    case other
    from dispatch_effect [OF d this] other show ?thesis by (simp add: op_effect_def)
  qed
qed

lemma step_typed:
  assumes safe: "safe_op X opcode ss env evm ws c evm1 ws1" and ch: "charged opcode c evm1 = Ret evm2"
    and d: "dispatch X run opcode env evm2 lv ws1 ss = Ret (r, evm', lv', ws', ss')"
  shows "stack_effect (fst (SAFE_TABLE opcode)) (snd (SAFE_TABLE opcode)) evm evm' \<or>
    opcode = 0x40 \<and> stack_effect 1 0 evm evm'"
proof (cases "opcode = 0x56 \<or> opcode = 0x57")
  case True
  with dispatch_stack [OF d] have "e_stack evm' = e_stack evm2"
    by (elim disjE) (simp_all add: stack_effect_def)
  moreover from safe obtain m where "evm1 = forget_child m evm" by (auto simp: safe_op_def)
  ultimately show ?thesis
    using True charged_stack [OF ch] by (elim disjE) (auto simp: stack_effect_def)
next
  case False
  with charged_stack [OF ch] have "e_stack evm2 = e_stack evm1" by (auto dest: stack_effect_same)
  moreover from safe obtain m where "evm1 = forget_child m evm" by (auto simp: safe_op_def)
  ultimately have "e_stack evm2 = e_stack evm" by simp
  with dispatch_stack [OF d] False show ?thesis by (simp add: stack_effect_def)
qed

text \<open>The exception: the number of a recent block is popped, and no hash is pushed.\<close>

lemma blockhash_pushes_nothing:
  assumes "unat (h_number (i_block_header env)) - 256 < unat num" "e_stack evm = num # rest"
  shows "\<exists>evm'. block_info_opcode X 0x40 env evm ws = Ret (evm', ws) \<and> e_stack evm' = rest"
  using assms by (simp add: block_info_opcode_def pop_def)

section \<open>Properties\<close>

text \<open>
  C10.  Instructions are well typed: a step runs only an opcode the table and the version know, on a stack
  that holds its operands, and replaces exactly its operands by exactly its results within the limit of
  1024; everything below stays.  The exception is \<open>BLOCKHASH\<close>, which may push nothing.
\<close>

theorem steps_are_typed:
  assumes "evm_step X env (evm, lv, ws, ss) (evm', lv', ws', ss')"
    and "opcode = current_opcode (i_byte env) (e_pc evm)" "SAFE_TABLE opcode = (p, q)"
  shows "p \<noteq> 255 \<and> \<not> fork_disabled (e_version evm) opcode \<and> p \<le> length (e_stack evm) \<and>
    length (e_stack evm) + q - p \<le> 1024 \<and>
    (drop q (e_stack evm') = drop p (e_stack evm) \<and> length (e_stack evm') + p = length (e_stack evm) + q \<or>
     opcode = 0x40 \<and> e_stack evm' = tl (e_stack evm))"
  using assms(1)
proof (rule step_safe)
  fix opcode' c evm1 ws1 evm2
  assume "opcode' = current_opcode (i_byte env) (e_pc evm)"
  with assms(2) have [simp]: "opcode' = opcode" by simp
  assume safe: "safe_op X opcode' ss env evm ws c evm1 ws1" and "charged opcode' c evm1 = Ret evm2"
    "dispatch X (evm_exec X) opcode' env evm2 lv ws1 ss = Ret (None, evm', lv', ws', ss')"
  from step_typed [OF this] have "stack_effect p q evm evm' \<or> opcode = 0x40 \<and> stack_effect 1 0 evm evm'"
    by (simp add: assms(3))
  with safe assms(3) show ?thesis by (auto simp: safe_op_def stack_effect_def drop_Suc)
qed

theorem steps_are_typed_witness:
  "length (e_stack (sample_machine [0x5b] 10)) + 0 - 0 \<le> 1024 \<and>
   \<not> fork_disabled (e_version (sample_machine [0x5b] 10)) 0x5b"
  using steps_are_typed [OF sample_jumpdest, of _ 0 0] by (simp add: current_opcode_def SAFE_TABLE_def)

text \<open>
  C32.  The jump table of a new machine marks exactly the valid jump destinations: the positions of
  \<open>JUMPDEST\<close> bytes that are instructions, reached from the start of the code by stepping over each
  instruction with its data, and a jump is accepted exactly to these.
\<close>

theorem jump_table_correct:
  "jump_target_ok (evm_new env v) t \<longleftrightarrow> valid_jumpdest (i_byte env) (to_usize t)"
  by (simp add: jump_target_ok_def Let_def safe_jump_correct)

end
