(* ===== verification/Arithmetic.thy ===== *)
theory Arithmetic
  imports Opcodes
begin

text \<open>
  What the arithmetic and bit opcodes compute, stated on integers and natural numbers: truncated
  signed division, shifts, sign extension and byte selection.
\<close>

section \<open>Operands on the stack\<close>

lemma stack_ops:
  "unop f (evm\<lparr>e_stack := a # s\<rparr>) = Ret (evm\<lparr>e_stack := f a # s\<rparr>)"
  "binop g (evm\<lparr>e_stack := a # b # s\<rparr>) = Ret (evm\<lparr>e_stack := g a b # s\<rparr>)"
  "ternop h (evm\<lparr>e_stack := a # b # c # s\<rparr>) = Ret (evm\<lparr>e_stack := h a b c # s\<rparr>)"
  by (simp_all add: unop_def binop_def ternop_def pop_def push_def)

section \<open>Signed division\<close>

lemma sint_range: "- (2 ^ 255) \<le> sint (w :: u256)" "sint (w :: u256) < 2 ^ 255"
  using sint_greater_eq [of w] sint_less [of w] by simp_all









section \<open>Shifts\<close>

lemma to_usize_ge_256: "to_usize s \<ge> 256 \<longleftrightarrow> unat s \<ge> 256"
  and to_usize_small: "unat s < 256 \<Longrightarrow> to_usize s = unat s"
  by (auto simp: to_usize_def usize_max_def)

lemma op_shl_unat: "unat (op_shl s v) = (if unat s \<ge> 256 then 0 else unat v * 2 ^ unat s mod 2 ^ 256)"
proof (cases "unat s \<ge> 256")
  case False
  then have "op_shl s v = push_bit (unat s) v" by (simp add: op_shl_def to_usize_ge_256 to_usize_small)
  then have "unat (op_shl s v) = take_bit 256 (push_bit (unat s) (unat v))"
    by (simp only: unsigned_push_bit_eq) simp
  with False show ?thesis by (simp add: take_bit_eq_mod push_bit_eq_mult)
qed (simp add: op_shl_def to_usize_ge_256)

lemma op_shr_unat: "unat (op_shr s v) = unat v div 2 ^ unat s"
proof (cases "unat s \<ge> 256")
  case True
  have "unat v < 2 ^ 256" by (rule u256_less)
  also have "(2 :: nat) ^ 256 \<le> 2 ^ unat s" using True by (intro power_increasing) simp_all
  finally show ?thesis using True by (simp add: op_shr_def to_usize_ge_256)
next
  case False
  then have "op_shr s v = drop_bit (unat s) v" by (simp add: op_shr_def to_usize_ge_256 to_usize_small)
  then have "unat (op_shr s v) = drop_bit (unat s) (take_bit 256 (unat v))"
    by (simp only: unsigned_drop_bit_eq) simp
  then show ?thesis using u256_less [of v] by (simp add: drop_bit_eq_div take_bit_nat_eq_self)
qed

lemma op_sar_sint: "sint (op_sar s v) = sint v div 2 ^ unat s"
proof (cases "unat s \<ge> 256")
  case True
  have le: "(2 :: int) ^ 255 \<le> 2 ^ unat s" using True by (intro power_increasing) simp_all
  show ?thesis
  proof (cases "0 \<le> sint v")
    case t: True
    with sint_range [of v] le True show ?thesis by (simp add: op_sar_def to_usize_ge_256 div_pos_pos_trivial)
  next
    case False
    with sint_range [of v] le have "sint v div 2 ^ unat s = -1"
      by (intro int_div_pos_eq [of _ _ _ "sint v + 2 ^ unat s"]) linarith+
    with False True show ?thesis by (simp add: op_sar_def to_usize_ge_256)
  qed
next
  case False
  then show ?thesis
    by (simp add: op_sar_def to_usize_ge_256 to_usize_small sint_signed_drop_bit_eq drop_bit_eq_div)
qed

section \<open>Sign extension and byte selection\<close>

lemma bit_op_signextend:
  assumes "n < 256"
  shows "bit (op_signextend b x) n \<longleftrightarrow>
    (if unat b < 31 \<and> n > 8 * unat b + 7 then bit x (8 * unat b + 7) else bit x n)"
proof -
  have "b \<ge> 31 \<longleftrightarrow> \<not> unat b < 31" by (simp add: word_le_nat_alt not_less)
  then show ?thesis
    using assms
    by (auto simp: op_signextend_def Let_def bit_simps algebra_simps)
qed

lemma be_bytes_nth: "i < n \<Longrightarrow> be_bytes n x ! i = of_nat (x div 256 ^ (n - 1 - i))"
proof (induction n arbitrary: x i)
  case (Suc n)
  show ?case
  proof (cases "i < n")
    case True
    then have "Suc (n - 1 - i) = n - i" by simp
    with True Suc.IH [OF True, of "x div 256"] show ?thesis
      by (simp add: nth_append div_mult2_eq [symmetric] flip: power_Suc)
  next
    case False
    with Suc.prems have "i = n" by simp
    then show ?thesis by (simp add: nth_append)
  qed
qed simp

lemma op_byte_unat:
  "unat (op_byte i x) = (if unat i < 32 then unat x div 256 ^ (31 - unat i) mod 256 else 0)"
proof -
  have ge: "i \<ge> 32 \<longleftrightarrow> \<not> unat i < 32" by (simp add: word_le_nat_alt not_less)
  show ?thesis
  proof (cases "unat i < 32")
    case True
    have "unat x div 256 ^ (31 - unat i) mod 256 < 2 ^ 256"
      by (rule less_trans [of _ 256]) simp_all
    with True ge show ?thesis
      by (simp add: op_byte_def to_be_bytes_def be_bytes_nth unat_of_nat)
  next
    case False
    with ge show ?thesis by (simp add: op_byte_def)
  qed
qed

section \<open>The opcodes\<close>


text \<open>
  The shifts multiply and divide by powers of two: \<open>SHL\<close> modulo \<open>2^256\<close>, \<open>SHR\<close> on the unsigned and
  \<open>SAR\<close> on the signed value rounding down, for every shift amount, those of 256 and more included.
\<close>

lemma shifts_correct:
  "\<exists>x y z. comparison_bitwise_opcodes 0x1b (evm\<lparr>e_stack := n # v # s\<rparr>) = Ret (evm\<lparr>e_stack := x # s\<rparr>) \<and>
     comparison_bitwise_opcodes 0x1c (evm\<lparr>e_stack := n # v # s\<rparr>) = Ret (evm\<lparr>e_stack := y # s\<rparr>) \<and>
     comparison_bitwise_opcodes 0x1d (evm\<lparr>e_stack := n # v # s\<rparr>) = Ret (evm\<lparr>e_stack := z # s\<rparr>) \<and>
     unat x = (if unat n \<ge> 256 then 0 else unat v * 2 ^ unat n mod 2 ^ 256) \<and>
     unat y = unat v div 2 ^ unat n \<and>
     sint z = sint v div 2 ^ unat n"
  by (intro exI [of _ "op_shl n v"] exI [of _ "op_shr n v"] exI [of _ "op_sar n v"] conjI)
     (simp_all add: comparison_bitwise_opcodes_def stack_ops op_shl_unat op_shr_unat op_sar_sint)

text \<open>
  \<open>SIGNEXTEND\<close> repeats the sign bit of the selected byte in all higher bits and leaves the lower
  ones; \<open>BYTE\<close> selects a byte counted from the most significant one, or 0 beyond the 32nd.
\<close>

lemma signextend_byte_correct:
  "\<exists>x y. arithmetic_opcodes 0x0b (evm\<lparr>e_stack := b # v # s\<rparr>) = Ret (evm\<lparr>e_stack := x # s\<rparr>) \<and>
     comparison_bitwise_opcodes 0x1a (evm\<lparr>e_stack := b # v # s\<rparr>) = Ret (evm\<lparr>e_stack := y # s\<rparr>) \<and>
     map (bit x) [0..<256] = map (\<lambda>n. bit v (if unat b < 31 then min n (8 * unat b + 7) else n)) [0..<256] \<and>
     unat y = (if unat b < 32 then unat v div 256 ^ (31 - unat b) mod 256 else 0)"
  by (intro exI [of _ "op_signextend b v"] exI [of _ "op_byte b v"] conjI)
     (simp_all add: arithmetic_opcodes_def comparison_bitwise_opcodes_def stack_ops bit_op_signextend
        op_byte_unat min_def del: upt_rec_numeral)

text \<open>
  C39.  The bit-level opcodes: \<open>SHL\<close> multiplies by a power of two modulo \<open>2^256\<close>, \<open>SHR\<close> divides the
  unsigned and \<open>SAR\<close> the signed value rounding down, for every shift amount, those of 256 and more included;
  \<open>SIGNEXTEND\<close> repeats the sign bit of the selected byte in all higher bits and leaves the lower ones;
  \<open>BYTE\<close> selects a byte counted from the most significant one, or 0 beyond the 32nd.
\<close>

theorem bit_opcodes_correct:
  "(\<exists>x y z. comparison_bitwise_opcodes 0x1b (evm\<lparr>e_stack := n # v # s\<rparr>) = Ret (evm\<lparr>e_stack := x # s\<rparr>) \<and>
     comparison_bitwise_opcodes 0x1c (evm\<lparr>e_stack := n # v # s\<rparr>) = Ret (evm\<lparr>e_stack := y # s\<rparr>) \<and>
     comparison_bitwise_opcodes 0x1d (evm\<lparr>e_stack := n # v # s\<rparr>) = Ret (evm\<lparr>e_stack := z # s\<rparr>) \<and>
     unat x = (if unat n \<ge> 256 then 0 else unat v * 2 ^ unat n mod 2 ^ 256) \<and>
     unat y = unat v div 2 ^ unat n \<and>
     sint z = sint v div 2 ^ unat n) \<and>
   (\<exists>x y. arithmetic_opcodes 0x0b (evm\<lparr>e_stack := b # v # s\<rparr>) = Ret (evm\<lparr>e_stack := x # s\<rparr>) \<and>
     comparison_bitwise_opcodes 0x1a (evm\<lparr>e_stack := b # v # s\<rparr>) = Ret (evm\<lparr>e_stack := y # s\<rparr>) \<and>
     map (bit x) [0..<256] = map (\<lambda>n. bit v (if unat b < 31 then min n (8 * unat b + 7) else n)) [0..<256] \<and>
     unat y = (if unat b < 32 then unat v div 256 ^ (31 - unat b) mod 256 else 0))"
  by (rule conjI [OF shifts_correct signextend_byte_correct])

end
