(* ===== verification/Memory.thy ===== *)
theory Memory
  imports Effects Sample
begin

text \<open>
  The memory of the machine as an observer sees it: an unbounded array of bytes, zero where nothing
  was written.  Growth is invisible in this view, and each memory opcode reads or updates a range of
  it.
\<close>

section \<open>The view\<close>

definition mem_at :: "evm \<Rightarrow> nat \<Rightarrow> byte" where
  "mem_at evm i = (if i < length (e_memory evm) then e_memory evm ! i else 0)"

text \<open>The abstract update of a range.\<close>

definition write_range :: "nat \<Rightarrow> byte list \<Rightarrow> (nat \<Rightarrow> byte) \<Rightarrow> nat \<Rightarrow> byte" where
  "write_range p bs m i = (if p \<le> i \<and> i < p + length bs then bs ! (i - p) else m i)"

lemma mem_at_updates [simp]:
  "mem_at (evm\<lparr>e_stack := s\<rparr>) = mem_at evm"
  "mem_at (push v evm) = mem_at evm"
  "mem_at (update_active_words evm) = mem_at evm"
  "mem_at (evm\<lparr>e_return_back := b\<rparr>) = mem_at evm"
  by (auto simp: mem_at_def)

lemma mem_at_grow: "grow_memory n evm = Ret evm' \<Longrightarrow> mem_at evm' = mem_at evm"
  by (erule grow_memory_cases) (auto simp: mem_at_def nth_append)

lemma grow_memory_ok: "rounded n \<le> isize_max \<Longrightarrow> \<exists>evm'. grow_memory n evm = Ret evm'"
  by (simp add: grow_memory_Ret)

lemma mem_at_store:
  assumes "store_memory p n bs evm = Ret evm'"
  shows "mem_at evm' = write_range p bs (mem_at evm)"
proof
  fix i
  from assms show "mem_at evm' i = write_range p bs (mem_at evm) i"
    by (auto simp: store_memory_def copy_slice_eq_Ret mem_at_def write_range_def nth_append)
qed

lemma slice_view:
  assumes "p + n \<le> length (e_memory evm)"
  shows "slice_of (e_memory evm) p (p + n) = Ret (map (mem_at evm) [p..<p + n])"
  using assms by (auto simp: slice_of_def mem_at_def intro: nth_equalityI)

lemma rounded_le: "n + 31 \<le> isize_max \<Longrightarrow> rounded n \<le> isize_max"
  unfolding rounded_def by (meson div_times_less_eq_dividend le_trans)

lemma usize_sat_add_small: "a + b \<le> isize_max \<Longrightarrow> usize_sat_add a b = a + b"
  by (simp add: usize_sat_add_def isize_max_def usize_max_def)

section \<open>Reading and writing ranges\<close>

lemma read_memory_view:
  assumes "off + sz + 31 \<le> isize_max"
  shows "\<exists>evm'. read_memory off sz evm = Ret (map (mem_at evm) [off..<off + sz], evm') \<and>
    mem_at evm' = mem_at evm \<and> mem_step evm evm'"
proof (cases "sz > 0")
  case True
  from assms obtain evm1 where g: "grow_memory (off + sz) evm = Ret evm1"
    using grow_memory_ok [OF rounded_le] by blast
  then have "slice_of (e_memory evm1) off (off + sz) = Ret (map (mem_at evm1) [off..<off + sz])"
    by (intro slice_view) (rule grow_memory_sel(9))
  with True g assms mem_at_grow [OF g] grow_memory_step [OF g] show ?thesis
    by (simp add: read_memory_def Let_def usize_sat_add_small)
qed (simp add: read_memory_def)

lemma grow_store_view:
  assumes "p + length bs + 31 \<le> isize_max"
  shows "\<exists>evm1 evm2. grow_memory (p + length bs) evm = Ret evm1 \<and>
    store_memory p (p + length bs) bs evm1 = Ret evm2 \<and>
    mem_at evm2 = write_range p bs (mem_at evm) \<and> mem_step evm evm2"
proof -
  from assms obtain evm1 where g: "grow_memory (p + length bs) evm = Ret evm1"
    using grow_memory_ok [OF rounded_le] by blast
  then have "p + length bs \<le> length (e_memory evm1)" by (rule grow_memory_sel(9))
  then obtain evm2 where s: "store_memory p (p + length bs) bs evm1 = Ret evm2"
    by (simp add: store_memory_def copy_slice_def)
  show ?thesis
    using g s mem_at_store [OF s] mem_at_grow [OF g] grow_store_step [OF g s] by auto
qed

text \<open>The bytes the copy opcodes write: zero beyond the end of the source.\<close>

definition padded :: "byte list \<Rightarrow> nat \<Rightarrow> nat \<Rightarrow> byte list" where
  "padded data off sz = map (\<lambda>i. if off + i < length data then data ! (off + i) else 0) [0..<sz]"

lemma length_padded [simp]: "length (padded data off sz) = sz"
  by (simp add: padded_def)

lemma padded_slice_spec:
  assumes "sz \<le> isize_max" "length data \<le> isize_max"
  shows "padded_slice data off sz = Ret (padded data off sz)"
proof -
  have add: "usize_sat_add off sz = off + sz" if "off \<le> length data"
    using that assms by (simp add: usize_sat_add_def isize_max_def usize_max_def)
  consider "length data < off" | "off \<le> length data" "length data < off + sz" | "off + sz \<le> length data"
    by linarith
  then show ?thesis
  proof cases
    case 1
    with assms show ?thesis
      by (auto simp: padded_slice_def Let_def vec_resize_def padded_def intro: nth_equalityI)
  next
    case 2
    with assms add show ?thesis
      by (auto simp: padded_slice_def Let_def vec_resize_def copy_slice_def padded_def nth_append
          intro!: nth_equalityI)
  next
    case 3
    with assms add show ?thesis
      by (auto simp: padded_slice_def Let_def vec_resize_def copy_slice_def slice_of_def padded_def
          intro!: nth_equalityI)
  qed
qed

lemma copy_data_view:
  assumes "dst + sz + 31 \<le> isize_max" "length data \<le> isize_max"
  shows "\<exists>evm'. copy_data data dst off sz evm = Ret evm' \<and>
    mem_at evm' = write_range dst (padded data off sz) (mem_at evm) \<and> mem_step evm evm'"
proof (cases "sz = 0")
  case True
  then show ?thesis by (auto simp: copy_data_def write_range_def padded_def fun_eq_iff)
next
  case False
  have "padded_slice data off sz = Ret (padded data off sz)"
    using assms by (intro padded_slice_spec) simp_all
  with False assms grow_store_view [of dst "padded data off sz" evm] show ?thesis
    by (auto simp: copy_data_def Let_def usize_sat_add_small)
qed

section \<open>The opcodes\<close>

text \<open>
  C40.  \<open>MSTORE\<close>, \<open>MSTORE8\<close> and \<open>MLOAD\<close> are big-endian updates and reads of the unbounded byte array:
  a store changes exactly its 32 bytes (or one byte), growth of the memory is invisible, and a load
  returns the word at its address and changes nothing.
\<close>

theorem memory_opcodes_correct:
  assumes "unat p + 63 \<le> isize_max"
  shows "\<exists>evm1 evm2 evm3.
    mstore_opcode (evm\<lparr>e_stack := p # v # s\<rparr>) = Ret evm1 \<and> e_stack evm1 = s \<and>
    mem_at evm1 = write_range (unat p) (to_be_bytes v) (mem_at evm) \<and>
    mstore8_opcode (evm\<lparr>e_stack := p # v # s\<rparr>) = Ret evm2 \<and> e_stack evm2 = s \<and>
    mem_at evm2 = (mem_at evm)(unat p := ucast v) \<and>
    mload_opcode (evm\<lparr>e_stack := p # s\<rparr>) = Ret evm3 \<and>
    e_stack evm3 = from_be_bytes (map (mem_at evm) [unat p..<unat p + 32]) # s \<and>
    mem_at evm3 = mem_at evm"
proof -
  have p: "to_usize p = unat p" "usize_sat_add (unat p) 32 = unat p + 32" "usize_sat_add (unat p) 1 = unat p + 1"
    using assms by (auto simp: to_usize_def usize_sat_add_def isize_max_def usize_max_def)
  have last: "drop 31 (to_be_bytes v) = [ucast v]"
    using be_bytes.simps(2) [of 31 "unat v"] by (simp add: to_be_bytes_def)
  let ?m = "evm\<lparr>e_stack := s\<rparr>"
  obtain a1 a2 where a: "grow_memory (unat p + 32) ?m = Ret a1" "store_memory (unat p) (unat p + 32) (to_be_bytes v) a1 = Ret a2"
    "mem_at a2 = write_range (unat p) (to_be_bytes v) (mem_at evm)" "mem_step ?m a2"
    using grow_store_view [of "unat p" "to_be_bytes v" ?m] assms by auto
  obtain b1 b2 where b: "grow_memory (unat p + 1) ?m = Ret b1" "store_memory (unat p) (unat p + 1) [ucast v] b1 = Ret b2"
    "mem_at b2 = write_range (unat p) [ucast v] (mem_at evm)" "mem_step ?m b2"
    using grow_store_view [of "unat p" "[ucast v]" ?m] assms by auto
  obtain c1 where c: "slice_of (e_memory a1) (unat p) (unat p + 32) = Ret c1"
    "c1 = map (mem_at a1) [unat p..<unat p + 32]"
    using slice_view [of "unat p" 32 a1] grow_memory_sel(9) [OF a(1)] by auto
  have w: "write_range (unat p) [ucast v] (mem_at evm) = (mem_at evm)(unat p := ucast v)"
    by (auto simp: write_range_def fun_eq_iff)
  have st: "e_stack a1 = s" "e_stack a2 = s" "e_stack b2 = s"
    using grow_memory_sel(1) [OF a(1)] a(4) b(4) by (simp_all add: mem_step_def)
  have cs: "copy_slice (replicate 32 0) 0 32 c1 = Ret c1" using c(2) by (simp add: copy_slice_def)
  show ?thesis
    using a b c cs st mem_at_grow [OF a(1)] w last p
    by (simp add: mstore_opcode_def mstore8_opcode_def mload_opcode_def pop_def Let_def)
qed

theorem memory_opcodes_correct_witness:
  "unat (64 :: u256) + 63 \<le> isize_max \<and>
   (\<exists>evm1. mstore_opcode ((sample_machine [] 0)\<lparr>e_stack := [64, 7]\<rparr>) = Ret evm1 \<and>
      mem_at evm1 = write_range 64 (to_be_bytes 7) (\<lambda>_. 0))"
proof -
  have "mem_at (sample_machine [] 0) = (\<lambda>_. 0)" by (simp add: mem_at_def fun_eq_iff)
  with memory_opcodes_correct [where p = 64 and evm = "sample_machine [] 0" and v = 7 and s = "[]"] show ?thesis
    by (auto simp: isize_max_def)
qed

lemma padded_to_usize: "length data \<le> isize_max \<Longrightarrow> padded data (to_usize off) sz = padded data (unat off) sz"
  by (auto simp: padded_def to_usize_def usize_max_def isize_max_def)

text \<open>
  \<open>CALLDATACOPY\<close> and \<open>CODECOPY\<close> write the requested range of the call data or code into the
  memory, with zeros for every byte beyond its end, for every source offset; no other byte changes.
\<close>

theorem copy_opcodes_correct:
  assumes "unat dst + unat sz + 31 \<le> isize_max" "length (i_data env) \<le> isize_max"
    and "length (i_byte env) \<le> isize_max"
  shows "\<exists>evm1 evm2.
    calldatacopy_opcode env (evm\<lparr>e_stack := dst # off # sz # s\<rparr>) = Ret evm1 \<and> e_stack evm1 = s \<and>
    mem_at evm1 = write_range (unat dst) (padded (i_data env) (unat off) (unat sz)) (mem_at evm) \<and>
    codecopy_opcode env (evm\<lparr>e_stack := dst # off # sz # s\<rparr>) = Ret evm2 \<and> e_stack evm2 = s \<and>
    mem_at evm2 = write_range (unat dst) (padded (i_byte env) (unat off) (unat sz)) (mem_at evm)"
proof -
  have u: "to_usize dst = unat dst" "to_usize sz = unat sz"
    using assms by (auto simp: to_usize_def isize_max_def usize_max_def)
  from copy_data_view [OF assms(1,2), of "to_usize off" "evm\<lparr>e_stack := s\<rparr>"]
    copy_data_view [OF assms(1,3), of "to_usize off" "evm\<lparr>e_stack := s\<rparr>"]
  show ?thesis
    by (auto simp: calldatacopy_opcode_def codecopy_opcode_def pop_def u padded_to_usize assms mem_step_def)
qed

theorem copy_opcodes_correct_witness:
  "\<exists>evm1. codecopy_opcode (sample_env [1, 2, 3]) ((sample_machine [1, 2, 3] 0)\<lparr>e_stack := [0, 2, 4]\<rparr>) = Ret evm1 \<and>
     mem_at evm1 = write_range 0 [3, 0, 0, 0] (mem_at (sample_machine [1, 2, 3] 0))"
  using copy_opcodes_correct [where dst = 0 and sz = 4 and off = 2 and s = "[]" and env = "sample_env [1, 2, 3]"
      and evm = "sample_machine [1, 2, 3] 0"]
  by (auto simp: isize_max_def padded_def upt_rec)

lemma padded_alt: "padded data off sz = take sz (drop off data) @ replicate (sz - (length data - off)) 0"
  by (auto simp: padded_def nth_append intro!: nth_equalityI)

lemma be_val_zeros: "be_val (replicate m 0 @ bs) = be_val bs"
proof -
  have "foldl (\<lambda>acc b. acc * 256 + unat b) 0 (replicate m (0 :: byte)) = 0" by (induction m) auto
  then show ?thesis by (simp add: be_val_def)
qed

lemma push_buffer:
  assumes "0 < n" "n \<le> 32" "k = min (q + n) (length code) - min q (length code)"
  shows "(if k > 0 then
      bindR (slice_of code (min q (length code)) (min (q + n) (length code))) (\<lambda>d.
        copy_slice (replicate 32 0) (32 - n) (32 - n + k) d)
    else Ret (replicate 32 0)) = Ret (replicate (32 - n) 0 @ padded code q n)"
proof (cases "q < length code")
  case True
  then have k: "k = min n (length code - q)" using assms(3) by auto
  have "(32 - n) + k \<le> 32" "0 < k" using k assms True by auto
  then show ?thesis
    using True k assms(1,2)
    by (auto simp: slice_of_def copy_slice_def padded_alt min_def)
next
  case False
  then show ?thesis
    using assms by (simp add: padded_alt flip: replicate_add)
qed

lemma push_opcode_pushes:
  assumes "0x60 \<le> opcode" "opcode \<le> 0x7f" "advance_pc opcode evm = Ret evm'"
  shows "push_opcode opcode env evm' =
      Ret (push (from_be_bytes (padded (i_byte env) (e_pc evm + 1) (opcode - 0x5f))) evm') \<and>
    e_pc evm' = e_pc evm + 1 + (opcode - 0x5f)"
proof -
  define n where "n = opcode - 0x5f"
  have n: "0 < n" "n \<le> 32" "opcode - 0x60 + 1 = n" using assms(1,2) by (auto simp: n_def)
  have pc: "e_pc evm' = e_pc evm + 1 + n" "e_pc evm' - n = e_pc evm + 1"
    using assms by (auto simp: advance_pc_def n_def)
  have "push_opcode opcode env evm' =
    Ret (push (from_be_bytes (replicate (32 - n) 0 @ padded (i_byte env) (e_pc evm + 1) n)) evm')"
    using push_buffer [OF n(1,2) refl, of "e_pc evm + 1" "i_byte env"]
    unfolding push_opcode_def Let_def n(3) pc(2) unfolding pc(1) by simp
  with pc(1) show ?thesis by (simp add: from_be_bytes_def be_val_zeros n_def)
qed

text \<open>
  \<open>PUSH1\<close> to \<open>PUSH32\<close> push the bytes that follow the opcode, read big-endian, where bytes beyond the
  end of the code count as zero, and the program counter moves past them.
\<close>

theorem push_opcode_correct:
  assumes "0x60 \<le> opcode" "opcode \<le> 0x7f" "advance_pc opcode evm = Ret evm'"
  shows "push_opcode opcode env evm' =
      Ret (push (from_be_bytes (padded (i_byte env) (e_pc evm + 1) (opcode - 0x5f))) evm') \<and>
    e_pc evm' = e_pc evm + 1 + (opcode - 0x5f)"
  using assms by (rule push_opcode_pushes)

theorem push_opcode_correct_witness:
  "push_opcode 0x61 (sample_env [0x61, 1]) ((sample_machine [0x61, 1] 0)\<lparr>e_pc := 3\<rparr>) =
     Ret (push 256 ((sample_machine [0x61, 1] 0)\<lparr>e_pc := 3\<rparr>))"
  using push_opcode_correct [where opcode = "0x61" and evm = "sample_machine [0x61, 1] 0"
      and evm' = "(sample_machine [0x61, 1] 0)\<lparr>e_pc := 3\<rparr>" and env = "sample_env [0x61, 1]"]
  by (simp add: advance_pc_def padded_def from_be_bytes_def be_val_def upt_rec)

end
