(* ===== verification/Child_Gas.thy ===== *)
theory Child_Gas
  imports Sample Gas_Step
begin

text \<open>
  EIP-150: how much of its gas a frame can pass on with a call.
\<close>

section \<open>All but one 64th\<close>

lemma charge_call_64th:
  assumes "charge_call evm base limit = (c, evm1)" "TangerineWhistle \<le> e_version evm" "c \<le> e_gas evm"
  shows "\<exists>g. e_child_gas_mem evm1 = Some g \<and> unat c = unat g + unat base \<and>
    unat g = min (unat limit) (unat (e_gas evm) - unat base - (unat (e_gas evm) - unat base) div 64)"
proof -
  define left where "left = unat (e_gas evm) - unat base"
  define g where "g = child_gas (e_version evm) (e_gas evm) base limit"
  have l: "unat (sat_sub (e_gas evm) base) = left"
    by (simp add: left_def nat_word)
  have "unat (sat_sub (e_gas evm) base - sat_sub (e_gas evm) base div 64) = left - left div 64"
    by (subst unat_sub) (simp_all add: l word_le_nat_alt unat_div)
  then have g: "unat g = min (unat limit) (left - left div 64)"
    using assms(2) by (auto simp: g_def child_gas_def Let_def word_less_nat_alt not_less min_def)
  from assms(1) have c: "c = sat_add g base" and m: "e_child_gas_mem evm1 = Some g"
    by (auto simp: charge_call_def Let_def g_def)
  have "unat c = unat g + unat base"
  proof (cases "unat base \<le> unat (e_gas evm)")
    case True
    then have "unat g + unat base \<le> unat (e_gas evm)" using g by (simp add: left_def)
    then show ?thesis using u256_less [of "e_gas evm"] by (simp add: c nat_word)
  next
    case False
    then have "unat base \<le> unat c" by (simp add: c nat_word) (use u256_less [of base] in simp)
    with False assms(3) show ?thesis by (simp add: word_le_nat_alt)
  qed
  with m g show ?thesis by (simp add: left_def)
qed

text \<open>The gas of the four call opcodes is a charge for the requested amount, the first operand.\<close>

lemma gas_calls_charge:
  assumes "gas X opcode ss env evm ws = Ret (c, evm1, ws1)" "opcode \<in> {0xf1, 0xf2, 0xf4, 0xfa}"
  shows "\<exists>base. charge_call evm base (e_stack evm ! 0) = (c, evm1)"
proof -
  have table: "GAS_TABLE opcode = 255"
    using assms(2) by (elim insertE emptyE) (simp_all add: GAS_TABLE_def)
  from assms(1) show ?thesis
  proof (cases rule: gas_cases)
    case call
    then show ?thesis by (auto simp: gas_call_def peek_eq_Ret Let_def split: prod.splits)
  next
    case callcode
    then show ?thesis by (auto simp: gas_callcode_def peek_eq_Ret Let_def)
  next
    case delegatecall
    then show ?thesis by (auto simp: gas_delegatecall_def peek_eq_Ret Let_def)
  qed (use assms(2) table in auto)
qed

section \<open>Properties\<close>

text \<open>
  C38.  From Tangerine Whistle on a frame keeps a 64th.  When the check lets a call opcode run, the cost the gas
  function reports is the cost of the call itself plus the gas reserved for the sub-call, without saturation;
  the reserved gas is the smaller of what the code asks for and of all but one 64th of what remains after the
  cost of the call; and the frame can pay it and is left with at least that 64th.
\<close>

theorem call_keeps_a_64th:
  assumes "is_safe X opcode ss env evm ws = Ret (True, evm1, ws1)" "opcode \<in> {0xf1, 0xf2, 0xf4, 0xfa}"
    and "TangerineWhistle \<le> e_version evm"
  shows "\<exists>c g b. gas X opcode ss env evm1 ws1 = Ret (c, evm1, ws1) \<and> e_child_gas_mem evm1 = Some g \<and>
    unat c = unat g + b \<and> b \<le> unat (e_gas evm) \<and>
    (let left = unat (e_gas evm) - b in
       unat g = min (unat (e_stack evm ! 0)) (left - left div 64) \<and> left div 64 \<le> unat (e_gas evm - c))"
  using assms(1)
proof (cases rule: is_safe_cases)
  case (safe c)
  then obtain m where evm1: "evm1 = forget_child m evm" and g: "gas X opcode ss env evm1 ws1 = Ret (c, evm1, ws1)"
    and c: "c \<le> e_gas evm" by (auto simp: safe_op_def)
  from gas_calls_charge [OF g assms(2)] obtain base where
    "charge_call evm1 base (e_stack evm ! 0) = (c, evm1)" by (auto simp: evm1)
  from charge_call_64th [OF this] assms(3) c obtain h where h: "e_child_gas_mem evm1 = Some h"
    "unat c = unat h + unat base"
    "unat h = min (unat (e_stack evm ! 0)) (unat (e_gas evm) - unat base - (unat (e_gas evm) - unat base) div 64)"
    by (auto simp: evm1)
  define left where "left = unat (e_gas evm) - unat base"
  have le: "unat c \<le> unat (e_gas evm)" using c by (simp add: word_le_nat_alt)
  have "unat h \<le> left - left div 64" using h(3) unfolding left_def by simp
  moreover have "left div 64 \<le> left" by simp
  ultimately have "left div 64 \<le> unat (e_gas evm) - unat c" using h(2) le left_def by linarith
  then have "left div 64 \<le> unat (e_gas evm - c)" using c by (simp only: unat_sub)
  moreover have "unat base \<le> unat (e_gas evm)" using h(2) le by linarith
  ultimately show ?thesis
    unfolding Let_def using g h unfolding left_def
    by (intro exI [of _ c] exI [of _ h] exI [of _ "unat base"] conjI)
qed simp

text \<open>A \<open>DELEGATECALL\<close> that asks for 65535 gas with 7100 gas left, of which it costs 700 itself.\<close>

abbreviation greedy_machine :: evm where
  "greedy_machine \<equiv> (sample_machine [0xf4] 7100)\<lparr>e_stack := [65535, 5, 0, 0, 0, 0]\<rparr>"

lemma greedy_cost:
  "gas sample_ext 0xf4 substate_new (sample_env [0xf4]) (greedy_machine\<lparr>e_child_gas_mem := m\<rparr>) sample_world =
     Ret (7000, greedy_machine\<lparr>e_child_gas_mem := Some 6300\<rparr>, sample_world)"
proof -
  have cg: "child_gas Constantinople 7100 700 65535 = 6300" by (simp add: child_gas_def sat_sub_def version_order)
  have sums: "sat_add (sat_add 0 700) 0 = (700 :: u256)" "sat_add 6300 700 = (7000 :: u256)" "sat_add 0 700 = (700 :: u256)"
    by (simp_all add: sat_add_def)
  have "gas_delegatecall substate_new (greedy_machine\<lparr>e_child_gas_mem := m\<rparr>) =
      Ret (7000, greedy_machine\<lparr>e_child_gas_mem := Some 6300\<rparr>)"
    by (simp add: gas_delegatecall_def peek_def call_memory_end_def extension_cost_def call_access_cost_def
        charge_call_def cg sums version_order Let_def)
  then show ?thesis by (simp add: gas_def GAS_TABLE_def)
qed

lemma greedy_safe:
  "is_safe sample_ext 0xf4 substate_new (sample_env [0xf4]) (greedy_machine\<lparr>e_child_gas_mem := None\<rparr>) sample_world =
     Ret (True, greedy_machine\<lparr>e_child_gas_mem := Some 6300\<rparr>, sample_world)"
  by (simp add: is_safe_def SAFE_TABLE_def fork_disabled_def greedy_cost is_safe_jump_def is_safe_returndata_def
      is_safe_static_def version_order)

theorem call_keeps_a_64th_witness:
  "\<exists>c g :: u256. gas sample_ext 0xf4 substate_new (sample_env [0xf4]) (greedy_machine\<lparr>e_child_gas_mem := Some 6300\<rparr>)
     sample_world = Ret (c, greedy_machine\<lparr>e_child_gas_mem := Some 6300\<rparr>, sample_world) \<and> g = 6300 \<and> unat g \<le> unat c"
proof -
  from call_keeps_a_64th [OF greedy_safe] obtain c g :: u256 where
    "gas sample_ext 0xf4 substate_new (sample_env [0xf4]) (greedy_machine\<lparr>e_child_gas_mem := Some 6300\<rparr>) sample_world =
      Ret (c, greedy_machine\<lparr>e_child_gas_mem := Some 6300\<rparr>, sample_world)" "g = 6300" "unat g \<le> unat c"
    by (fastforce simp: version_order)
  then show ?thesis by blast
qed

end
