(* ===== verification/Reversal.thy ===== *)
theory Reversal
  imports Opcodes
begin

text \<open>
  Undoing single actions.  \<open>restores X D ws w\<close> says that \<open>w\<close> looks like \<open>ws\<close>, except that the code of
  the accounts in \<open>D\<close> may differ: the code of a new contract is deposited without a journal entry, and
  only the entry made when the account was set up puts the old code back.  \<open>reverts X J ws ws'\<close> says
  that replaying the journal \<open>J\<close> backwards in any state that looks like \<open>ws'\<close> succeeds and gives a
  state that looks like \<open>ws\<close>.  Every journaled operation of the source is shown to be reverted by the
  action it pushes.
\<close>

section \<open>Looking alike\<close>

definition mask1 :: "bool \<Rightarrow> account_view \<Rightarrow> account_view" where
  "mask1 b x = (if b then x\<lparr>v_code := []\<rparr> else x)"

definition masked :: "address set \<Rightarrow> (address \<Rightarrow> account_view option) \<Rightarrow> address \<Rightarrow> account_view option" where
  "masked D V a = map_option (mask1 (a \<in> D)) (V a)"

definition restores ::
  "('t, 'r) ext \<Rightarrow> address set \<Rightarrow> ('t, 'r) world_state \<Rightarrow> ('t, 'r) world_state \<Rightarrow> bool" where
  "restores X D ws w \<longleftrightarrow> same_store ws w \<and> masked D (view X w) = masked D (view X ws) \<and>
     dom (ws_cache ws) \<subseteq> dom (ws_cache w)"

lemma mask_empty [simp]: "masked {} V = V"
proof
  show "masked {} V a = V a" for a by (cases "V a") (simp_all add: masked_def mask1_def)
qed

lemma mask1_mono: "(b \<longrightarrow> c) \<Longrightarrow> mask1 b x = mask1 b y \<Longrightarrow> mask1 c x = mask1 c y"
  by (cases b) (auto simp: mask1_def)

lemma map_option_eq_mono:
  assumes "map_option f x = map_option f y" "\<And>u v. f u = f v \<Longrightarrow> g u = g v"
  shows "map_option g x = map_option g y"
proof (cases x)
  case (Some u)
  with assms(1) obtain v where "y = Some v" "f u = f v" by (cases y) auto
  with Some assms(2) [of u v] show ?thesis by simp
qed (use assms(1) in simp)

lemma masked_mono: "D \<subseteq> E \<Longrightarrow> masked D V a = masked D W a \<Longrightarrow> masked E V a = masked E W a"
  unfolding masked_def by (erule map_option_eq_mono, rule mask1_mono) auto

lemma restores_mono: "restores X D ws w \<Longrightarrow> D \<subseteq> E \<Longrightarrow> restores X E ws w"
  unfolding restores_def by (auto intro!: ext dest: fun_cong intro: masked_mono)

lemma restores_view: "restores X {} ws w \<Longrightarrow> view X w = view X ws"
  by (simp add: restores_def)

lemma restores_reads: "reads X ws ws' \<Longrightarrow> restores X D ws' w \<Longrightarrow> restores X D ws w"
  unfolding restores_def reads_def
  by (intro conjI) (blast intro: same_store_trans, simp, blast)

lemma restores_refl [simp]: "restores X D ws ws"
  by (simp add: restores_def)

lemma restores_cached:
  assumes "restores X D ws w" "ws_cache ws a = Some acc"
  obtains acc' where "ws_cache w a = Some acc'"
    "mask1 (a \<in> D) (view_account X (ws_data ws) acc') = mask1 (a \<in> D) (view_account X (ws_data ws) acc)"
proof -
  from assms obtain acc' where c: "ws_cache w a = Some acc'" by (auto simp: restores_def dom_def)
  have "masked D (view X w) a = masked D (view X ws) a" using assms(1) by (simp add: restores_def)
  moreover have "ws_data w = ws_data ws" using assms(1) by (simp add: restores_def same_store_def)
  ultimately show ?thesis
    using that [OF c] c assms(2) by (simp add: masked_def view_cached)
qed

text \<open>Setting one account back.\<close>

lemma restores_update:
  assumes "restores X D (add_account a acc2 ws) w" "ws_cache ws a = Some acc" "D - {a} \<subseteq> E"
    and "mask1 (a \<in> E) (view_account X (ws_data ws) new) = mask1 (a \<in> E) (view_account X (ws_data ws) acc)"
  shows "restores X E ws (add_account a new w)"
proof -
  have st: "same_store ws w"
    using assms(1) same_store_trans [OF same_store_add_account] by (auto simp: restores_def)
  have d: "ws_data w = ws_data ws" using st by (simp add: same_store_def)
  have "masked E (view X (add_account a new w)) b = masked E (view X ws) b" for b
  proof (cases "b = a")
    case True
    then show ?thesis using assms(2,4) by (simp add: masked_def d view_cached)
  next
    case False
    have "masked D (view X w) b = masked D (view X (add_account a acc2 ws)) b"
      using assms(1) by (simp add: restores_def)
    then have "map_option (mask1 (b \<in> D)) (view X w b) = map_option (mask1 (b \<in> D)) (view X ws b)"
      using False by (simp add: masked_def)
    then have "map_option (mask1 (b \<in> E)) (view X w b) = map_option (mask1 (b \<in> E)) (view X ws b)"
      by (rule map_option_eq_mono) (rule mask1_mono, use False assms(3) in auto)
    with False show ?thesis by (simp add: masked_def)
  qed
  moreover have "dom (ws_cache ws) \<subseteq> dom (ws_cache w)"
    using assms(1) by (auto simp: restores_def)
  ultimately show ?thesis
    using st by (auto simp: restores_def intro: same_store_trans)
qed

lemma mask1_eqD:
  assumes "mask1 b x = mask1 b y"
  shows "v_nonce x = v_nonce y" "v_balance x = v_balance y" "v_storage x = v_storage y"
    "v_storage_root x = v_storage_root y"
  using assms by (cases b; cases x; cases y; simp add: mask1_def)+

lemma mask1_eqI:
  "v_nonce x = v_nonce y \<Longrightarrow> v_balance x = v_balance y \<Longrightarrow> v_storage x = v_storage y \<Longrightarrow>
   v_storage_root x = v_storage_root y \<Longrightarrow> (\<not> b \<Longrightarrow> v_code x = v_code y) \<Longrightarrow> mask1 b x = mask1 b y"
  by (cases b; cases x; cases y) (simp_all add: mask1_def)

lemma mask1_code: "mask1 b x = mask1 b y \<Longrightarrow> \<not> b \<Longrightarrow> v_code x = v_code y"
  by (simp add: mask1_def)

section \<open>Journals\<close>

definition code_of :: "action list \<Rightarrow> address set" where
  "code_of J = {a. \<exists>c. StoreCode a c \<in> set J}"

definition reverts ::
  "('t, 'r) ext \<Rightarrow> action list \<Rightarrow> ('t, 'r) world_state \<Rightarrow> ('t, 'r) world_state \<Rightarrow> bool" where
  "reverts X J ws ws' \<longleftrightarrow>
     (\<forall>D w'. restores X D ws' w' \<longrightarrow>
        (\<exists>w. undo_actions J w' = Ret w \<and> restores X (D - code_of J) ws w))"

lemma code_of_simps [simp]:
  "code_of [] = {}" "code_of (J @ K) = code_of J \<union> code_of K"
  "code_of [Sstorage a k v] = {}" "code_of [SendEth a b e] = {}" "code_of [AddNonce a] = {}"
  "code_of [StoreCode a c] = {a}" "code_of [AccountCreation a] = {}" "code_of [ResetStorage a r] = {}"
  "code_of [ResetBalance a e] = {}"
  by (auto simp: code_of_def)

lemma reverts_reads: "reads X ws ws' \<Longrightarrow> reverts X [] ws ws'"
  by (auto simp: reverts_def intro: restores_reads)

lemma reverts_trans:
  assumes "reverts X J ws ws1" "reverts X K ws1 ws2"
  shows "reverts X (K @ J) ws ws2"
  unfolding reverts_def
proof (intro allI impI)
  fix D w' assume "restores X D ws2 w'"
  with assms(2) obtain w1 where "undo_actions K w' = Ret w1" "restores X (D - code_of K) ws1 w1"
    by (auto simp: reverts_def)
  moreover from this(2) assms(1) obtain w where "undo_actions J w1 = Ret w"
    "restores X (D - code_of K - code_of J) ws w" by (auto simp: reverts_def)
  ultimately show "\<exists>w. undo_actions (K @ J) w' = Ret w \<and> restores X (D - code_of (K @ J)) ws w"
    by (auto simp: undo_actions_append Diff_Un Int_Diff Diff_eq Int_assoc intro: restores_mono)
qed

lemma reverts_view: "reverts X J ws ws' \<Longrightarrow> undo_actions J ws' = Ret w \<Longrightarrow> view X w = view X ws"
  unfolding reverts_def using restores_refl restores_view by fastforce

lemma reverts_single:
  assumes "\<And>D w'. restores X D ws' w' \<Longrightarrow> \<exists>w. undo_action act w' = Ret w \<and> restores X (D - code_of [act]) ws w"
  shows "reverts X [act] ws ws'"
  unfolding reverts_def using assms by fastforce

section \<open>Undoing one update\<close>

text \<open>
  The updates below change one cached account; the undone action does \<open>f\<close> to it.
\<close>

lemma reverts_update:
  fixes X :: "('t, 'r) ext" and ws :: "('t, 'r) world_state"
  assumes "ws_cache ws a = Some acc"
    and "\<And>(w :: ('t, 'r) world_state) acc'. ws_cache w a = Some acc' \<Longrightarrow>
      (\<exists>b. mask1 b (view_account X (ws_data ws) acc') = mask1 b (view_account X (ws_data ws) acc2)) \<Longrightarrow>
      undo_action act w = Ret (add_account a (f acc') w)"
    and "\<And>b acc'. mask1 b (view_account X (ws_data ws) acc') = mask1 b (view_account X (ws_data ws) acc2) \<Longrightarrow>
      mask1 (b \<and> a \<notin> code_of [act]) (view_account X (ws_data ws) (f acc')) =
      mask1 (b \<and> a \<notin> code_of [act]) (view_account X (ws_data ws) acc)"
    and "code_of [act] \<subseteq> {a}"
  shows "reverts X [act] ws (add_account a acc2 ws)"
proof (rule reverts_single)
  fix D w' assume r: "restores X D (add_account a acc2 ws) w'"
  then obtain acc' where c: "ws_cache w' a = Some acc'"
    and m: "mask1 (a \<in> D) (view_account X (ws_data ws) acc') = mask1 (a \<in> D) (view_account X (ws_data ws) acc2)"
    by (rule restores_cached [where a = a]) auto
  from assms(2) [OF c] m have "undo_action act w' = Ret (add_account a (f acc') w')" by blast
  moreover have "restores X (D - code_of [act]) ws (add_account a (f acc') w')"
    by (rule restores_update [OF r assms(1)]) (use assms(3) [OF m] assms(4) in auto)
  ultimately show "\<exists>w. undo_action act w' = Ret w \<and> restores X (D - code_of [act]) ws w" by blast
qed

lemma reverts_sstore:
  assumes "ws_cache ws a = Some acc" "v_storage (view_account X (ws_data ws) acc) k = pre"
  shows "reverts X [Sstorage a k pre] ws
    (add_account a (acc\<lparr>acc_storage := (acc_storage acc)(k \<mapsto> v)\<rparr>) ws)"
proof (rule reverts_update [OF assms(1), where f = "\<lambda>acc'. acc'\<lparr>acc_storage := (acc_storage acc')(k \<mapsto> pre)\<rparr>"])
  fix b acc'
  assume m: "mask1 b (view_account X (ws_data ws) acc') =
    mask1 b (view_account X (ws_data ws) (acc\<lparr>acc_storage := (acc_storage acc)(k \<mapsto> v)\<rparr>))"
  then have "v_storage (view_account X (ws_data ws) acc') =
      (v_storage (view_account X (ws_data ws) acc))(k := v)"
    by (auto dest: mask1_eqD(3))
  with m show "mask1 (b \<and> a \<notin> code_of [Sstorage a k pre])
      (view_account X (ws_data ws) (acc'\<lparr>acc_storage := (acc_storage acc')(k \<mapsto> pre)\<rparr>)) =
    mask1 (b \<and> a \<notin> code_of [Sstorage a k pre]) (view_account X (ws_data ws) acc)"
    by (auto simp: fun_upd_idem assms(2) intro!: mask1_eqI dest: mask1_eqD mask1_code)
qed (auto simp: undo_action_def set_storage_def remove_storage_def update_cached_def)

lemma reverts_inc_nonce:
  assumes "ws_cache ws a = Some acc" "acc_nonce acc \<noteq> -1"
  shows "reverts X [AddNonce a] ws (add_account a (acc\<lparr>acc_nonce := acc_nonce acc + 1\<rparr>) ws)"
proof -
  have "acc_nonce acc + 1 \<noteq> 0" using assms(2) by (simp add: eq_neg_iff_add_eq_0)
  then show ?thesis
    by (intro reverts_update [OF assms(1), where f = "\<lambda>acc'. acc'\<lparr>acc_nonce := acc_nonce acc' - 1\<rparr>"])
       (auto simp: undo_action_def dec_nonce_def intro!: mask1_eqI dest: mask1_eqD mask1_code)
qed

lemma reverts_set_code:
  assumes "ws_cache ws a = Some acc"
  shows "reverts X [StoreCode a (acc_code acc)] ws (add_account a (acc\<lparr>acc_code := c\<rparr>) ws)"
  by (rule reverts_update [OF assms, where f = "\<lambda>acc'. acc'\<lparr>acc_code := acc_code acc\<rparr>"])
     (auto simp: undo_action_def set_code_def update_cached_def intro!: mask1_eqI dest: mask1_eqD)

lemma reverts_reset_balance:
  assumes "ws_cache ws a = Some acc"
  shows "reverts X [ResetBalance a (acc_balance acc)] ws (add_account a (acc\<lparr>acc_balance := 0\<rparr>) ws)"
  by (rule reverts_update [OF assms, where f = "\<lambda>acc'. acc'\<lparr>acc_balance := acc_balance acc' + acc_balance acc\<rparr>"])
     (auto simp: undo_action_def add_balance_def update_cached_def intro!: mask1_eqI dest: mask1_eqD mask1_code)

text \<open>The storage of an account that is set up again must have been empty.\<close>

lemma reverts_reset_storage:
  assumes "ws_cache ws a = Some acc" "acc_storage_hash acc = EMPTY_STORAGE_ROOT"
    and "\<And>k. v_storage (view_account X (ws_data ws) acc) k = 0"
  shows "reverts X [ResetStorage a (acc_storage_hash acc)] ws
    (add_account a (acc\<lparr>acc_storage_hash := EMPTY_STORAGE_ROOT\<rparr>) ws)"
proof (rule reverts_update [OF assms(1), where
      f = "\<lambda>acc'. acc'\<lparr>acc_storage_hash := acc_storage_hash acc, acc_storage := Map.empty\<rparr>"])
  have same: "acc\<lparr>acc_storage_hash := EMPTY_STORAGE_ROOT\<rparr> = acc" using assms(2) by simp
  have st: "v_storage (view_account X (ws_data ws) acc) = (\<lambda>_. 0)" using assms(3) by (intro ext)
  fix b acc'
  assume "mask1 b (view_account X (ws_data ws) acc') =
    mask1 b (view_account X (ws_data ws) (acc\<lparr>acc_storage_hash := EMPTY_STORAGE_ROOT\<rparr>))"
  then have m: "mask1 b (view_account X (ws_data ws) acc') = mask1 b (view_account X (ws_data ws) acc)"
    by (simp only: same)
  show "mask1 (b \<and> a \<notin> code_of [ResetStorage a (acc_storage_hash acc)])
      (view_account X (ws_data ws) (acc'\<lparr>acc_storage_hash := acc_storage_hash acc, acc_storage := Map.empty\<rparr>)) =
    mask1 (b \<and> a \<notin> code_of [ResetStorage a (acc_storage_hash acc)]) (view_account X (ws_data ws) acc)"
    using mask1_eqD [OF m] mask1_code [OF m] assms(2) st
    by (intro mask1_eqI) (auto simp: view_account_def slot_of_root_def)
qed (auto simp: undo_action_def update_cached_def)

lemma reverts_creation:
  assumes "view X ws a = None"
  shows "reverts X [AccountCreation a] ws (add_account a acc ws)"
proof (rule reverts_single)
  fix D w' assume r: "restores X D (add_account a acc ws) w'"
  from assms have c: "ws_cache ws a = None" "mpt_view X ws a = None"
    by (auto simp: view_def split: option.splits)
  have st: "same_store ws w'"
    using r same_store_trans [OF same_store_add_account] by (auto simp: restores_def)
  have "masked D (view X (delete_account a w')) b = masked D (view X ws) b" for b
  proof (cases "b = a")
    case True
    then show ?thesis
      using assms c mpt_view_cong [OF st, of X a] by (simp add: masked_def view_delete_account)
  next
    case False
    have "masked D (view X w') b = masked D (view X (add_account a acc ws)) b"
      using r by (simp add: restores_def)
    with False show ?thesis by (simp add: masked_def view_delete_account)
  qed
  moreover have "dom (ws_cache ws) \<subseteq> dom (ws_cache (delete_account a w'))"
    using r c by (auto simp: restores_def delete_account_def)
  ultimately have "restores X D ws (delete_account a w')"
    using st by (auto simp: restores_def intro: same_store_trans)
  then show "\<exists>w. undo_action (AccountCreation a) w' = Ret w \<and> restores X (D - code_of [AccountCreation a]) ws w"
    by (simp add: undo_action_def)
qed

lemma word_le_add: "unat b + unat e < 2 ^ 256 \<Longrightarrow> e \<le> b + (e :: u256)"
  by (simp add: word_le_nat_alt unat_add_u256)

lemma reverts_send:
  assumes "from \<noteq> to" "ws_cache ws from = Some af" "ws_cache ws to = Some at"
    and "unat (acc_balance at) + unat e < 2 ^ 256"
  shows "reverts X [SendEth from to e] ws
    (add_account to (at\<lparr>acc_balance := acc_balance at + e\<rparr>)
      (add_account from (af\<lparr>acc_balance := acc_balance af - e\<rparr>) ws))" (is "reverts X _ ws ?ws2")
proof (rule reverts_single)
  fix D w' assume r: "restores X D ?ws2 w'"
  let ?ws1 = "add_account from (af\<lparr>acc_balance := acc_balance af - e\<rparr>) ws"
  from r obtain t where t: "ws_cache w' to = Some t"
    and mt: "mask1 (to \<in> D) (view_account X (ws_data ws) t) =
      mask1 (to \<in> D) (view_account X (ws_data ws) (at\<lparr>acc_balance := acc_balance at + e\<rparr>))"
    by (rule restores_cached [where a = to]) auto
  from r obtain f where f: "ws_cache w' from = Some f"
    and mf: "mask1 (from \<in> D) (view_account X (ws_data ws) f) =
      mask1 (from \<in> D) (view_account X (ws_data ws) (af\<lparr>acc_balance := acc_balance af - e\<rparr>))"
    by (rule restores_cached [where a = "from"]) (use assms(1) in auto)
  have bt: "acc_balance t = acc_balance at + e" and bf: "acc_balance f = acc_balance af - e"
    using mask1_eqD(2) [OF mt] mask1_eqD(2) [OF mf] by simp_all
  define w1 where "w1 = add_account to (t\<lparr>acc_balance := acc_balance t - e\<rparr>) w'"
  define w2 where "w2 = add_account from (f\<lparr>acc_balance := acc_balance f + e\<rparr>) w1"
  have "e \<le> acc_balance t" unfolding bt by (rule word_le_add [OF assms(4)])
  then have "undo_action (SendEth from to e) w' = Ret w2"
    using t f assms(1)
    by (simp add: undo_action_def transfer_eth_def send_eth_def add_balance_def update_cached_def w1_def w2_def)
  moreover have "restores X D ?ws1 w1"
    unfolding w1_def
    by (rule restores_update [OF r])
       (use assms(1,3) mask1_eqD [OF mt] mask1_code [OF mt] bt in \<open>auto intro!: mask1_eqI\<close>)
  then have "restores X D ws w2"
    unfolding w2_def
    by (rule restores_update [OF _ assms(2)])
       (use mask1_eqD [OF mf] mask1_code [OF mf] bf in \<open>auto intro!: mask1_eqI\<close>)
  ultimately show "\<exists>w. undo_action (SendEth from to e) w' = Ret w \<and> restores X (D - code_of [SendEth from to e]) ws w"
    by simp
qed

text \<open>A deposit of code is forgotten: its account may have any code.\<close>

lemma restores_set_code:
  assumes "restores X D (add_account a (acc\<lparr>acc_code := c\<rparr>) ws) w" "ws_cache ws a = Some acc"
  shows "restores X (insert a D) ws w"
proof -
  have "masked (insert a D) (view X w) b = masked (insert a D) (view X ws) b" for b
  proof -
    have "masked D (view X w) b = masked D (view X (add_account a (acc\<lparr>acc_code := c\<rparr>) ws)) b"
      using assms(1) by (simp add: restores_def)
    then have "masked (insert a D) (view X w) b =
        masked (insert a D) (view X (add_account a (acc\<lparr>acc_code := c\<rparr>) ws)) b"
      by (rule masked_mono [rotated]) blast
    also have "\<dots> = masked (insert a D) (view X ws) b"
      using assms(2) by (simp add: masked_def mask1_def view_cached)
    finally show ?thesis .
  qed
  then show ?thesis
    using assms(1) same_store_trans [OF same_store_add_account] by (auto simp: restores_def)
qed

end
