(* ===== verification/Invariant.thy ===== *)
theory Invariant
  imports Reversal
begin

text \<open>
  The invariant of the world state that roll-back relies on, and its preservation by the journaled
  operations.  \<open>tidy\<close>: an account that a creation may claim (nonce zero, no code, empty storage root)
  has no storage.  \<open>total_supply\<close>: the sum of all balances fits 256 bits, so no transfer wraps.  A journaled
  step \<open>advances\<close> the state: the pushed action reverts it, the invariant stays, accounts in use stay in
  use.
\<close>

section \<open>The invariant\<close>

type_synonym views = "address \<Rightarrow> account_view option"

definition tidy1 :: "account_view \<Rightarrow> bool" where
  "tidy1 x \<longleftrightarrow> (v_nonce x = 0 \<longrightarrow> v_code x = [] \<longrightarrow> v_storage_root x = EMPTY_STORAGE_ROOT \<longrightarrow>
     (\<forall>k. v_storage x k = 0))"

definition tidy :: "views \<Rightarrow> bool" where
  "tidy V \<longleftrightarrow> (\<forall>a x. V a = Some x \<longrightarrow> tidy1 x)"

definition bal :: "views \<Rightarrow> address \<Rightarrow> u256" where
  "bal V a = (case V a of None \<Rightarrow> 0 | Some x \<Rightarrow> v_balance x)"

definition total_supply :: "views \<Rightarrow> nat" where
  "total_supply V = (\<Sum>a\<in>UNIV. unat (bal V a))"

definition good :: "views \<Rightarrow> bool" where
  "good V \<longleftrightarrow> tidy V \<and> total_supply V < 2 ^ 256"

text \<open>Accounts in use: with a nonce, or with a nonce or code.\<close>

definition numbered :: "views \<Rightarrow> address \<Rightarrow> bool" where
  "numbered V a \<longleftrightarrow> (\<exists>x. V a = Some x \<and> v_nonce x \<noteq> 0)"

definition live :: "views \<Rightarrow> address \<Rightarrow> bool" where
  "live V a \<longleftrightarrow> (\<exists>x. V a = Some x \<and> (v_nonce x \<noteq> 0 \<or> v_code x \<noteq> []))"

lemma numbered_live: "numbered V a \<Longrightarrow> live V a"
  by (auto simp: numbered_def live_def)

lemma supply_upd: "total_supply (V(a \<mapsto> x)) + unat (bal V a) = total_supply V + unat (v_balance x)"
proof -
  have "total_supply W = unat (bal W a) + (\<Sum>b\<in>UNIV - {a}. unat (bal W b))" for W
    unfolding total_supply_def by (rule sum.remove) simp_all
  moreover have "(\<Sum>b\<in>UNIV - {a}. unat (bal (V(a \<mapsto> x)) b)) = (\<Sum>b\<in>UNIV - {a}. unat (bal V b))"
    by (rule sum.cong) (auto simp: bal_def)
  ultimately show ?thesis by (simp add: bal_def)
qed

lemma two_balances:
  assumes "a \<noteq> b"
  shows "unat (bal V a) + unat (bal V b) \<le> total_supply V"
proof -
  have "(\<Sum>c\<in>{a, b}. unat (bal V c)) \<le> total_supply V"
    unfolding total_supply_def by (rule sum_mono2) auto
  with assms show ?thesis by simp
qed

lemma tidy_upd: "tidy V \<Longrightarrow> tidy1 x \<Longrightarrow> tidy (V(a \<mapsto> x))"
  by (auto simp: tidy_def)

section \<open>Steps\<close>

definition advances ::
  "('t, 'r) ext \<Rightarrow> action list \<Rightarrow> ('t, 'r) world_state \<Rightarrow> ('t, 'r) world_state \<Rightarrow> bool" where
  "advances X J ws ws' \<longleftrightarrow> same_store ws ws' \<and> reverts X J ws ws' \<and>
     (good (view X ws) \<longrightarrow> good (view X ws')) \<and> total_supply (view X ws') \<le> total_supply (view X ws) \<and>
     (\<forall>a. numbered (view X ws) a \<longrightarrow> numbered (view X ws') a) \<and>
     (\<forall>a. live (view X ws) a \<longrightarrow> live (view X ws') a)"

definition journals ::
  "('t, 'r) ext \<Rightarrow> action list \<Rightarrow> leviathan \<Rightarrow> ('t, 'r) world_state \<Rightarrow> leviathan \<Rightarrow> ('t, 'r) world_state \<Rightarrow> bool"
where
  "journals X J lv ws lv' ws' \<longleftrightarrow> lv_journal lv' = J @ lv_journal lv \<and> advances X J ws ws'"

lemma advances_restores:
  assumes "restores X {} ws ws'"
  shows "advances X [] ws ws'"
proof -
  have "restores X D ws w" if "restores X D ws' w" for D w
    using assms that unfolding restores_def by (auto intro: same_store_trans)
  moreover have "view X ws' = view X ws" "same_store ws ws'"
    using assms restores_view [OF assms] by (simp_all add: restores_def)
  ultimately show ?thesis by (auto simp: advances_def reverts_def)
qed

lemma reads_restores: "reads X ws ws' \<Longrightarrow> restores X {} ws ws'"
  by (auto simp: restores_def reads_def)

lemma advances_reads: "reads X ws ws' \<Longrightarrow> advances X [] ws ws'"
  by (intro advances_restores reads_restores)

lemma advances_refl [simp]: "advances X [] ws ws"
  by (simp add: advances_restores)

lemma advances_trans: "advances X J ws ws1 \<Longrightarrow> advances X K ws1 ws2 \<Longrightarrow> advances X (K @ J) ws ws2"
  unfolding advances_def by (auto intro: same_store_trans reverts_trans)

lemma journals_reads: "reads X ws ws' \<Longrightarrow> journals X [] lv ws lv ws'"
  by (simp add: journals_def advances_reads)

lemma journals_refl [simp]: "journals X [] lv ws lv ws"
  by (simp add: journals_def)

lemma journals_trans:
  "journals X J lv ws lv1 ws1 \<Longrightarrow> journals X K lv1 ws1 lv2 ws2 \<Longrightarrow> journals X (K @ J) lv ws lv2 ws2"
  by (auto simp: journals_def intro: advances_trans)

lemma journals_trans_reads:
  "reads X ws ws1 \<Longrightarrow> journals X J lv ws1 lv' ws' \<Longrightarrow> journals X J lv ws lv' ws'"
  using journals_trans [where J = "[]" and K = J] journals_reads by fastforce

lemma journals_good: "journals X J lv ws lv' ws' \<Longrightarrow> good (view X ws) \<Longrightarrow> good (view X ws')"
  and journals_live: "journals X J lv ws lv' ws' \<Longrightarrow> live (view X ws) a \<Longrightarrow> live (view X ws') a"
  and journals_numbered: "journals X J lv ws lv' ws' \<Longrightarrow> numbered (view X ws) a \<Longrightarrow> numbered (view X ws') a"
  by (simp_all add: journals_def advances_def)

lemma advances_update:
  assumes "ws_cache ws a = Some acc" "reverts X J ws (add_account a acc2 ws)"
    and "acc_balance acc2 \<le> acc_balance acc" "acc_nonce acc \<noteq> 0 \<longrightarrow> acc_nonce acc2 \<noteq> 0"
    and "acc_nonce acc \<noteq> 0 \<or> acc_code acc \<noteq> [] \<longrightarrow> acc_nonce acc2 \<noteq> 0 \<or> acc_code acc2 \<noteq> []"
    and "tidy1 (view_account X (ws_data ws) acc) \<longrightarrow> tidy1 (view_account X (ws_data ws) acc2)"
  shows "advances X J ws (add_account a acc2 ws)"
proof -
  let ?x = "view_account X (ws_data ws) acc" and ?y = "view_account X (ws_data ws) acc2"
  have v: "view X ws a = Some ?x" using assms(1) by (rule view_cached)
  have "total_supply ((view X ws)(a \<mapsto> ?y)) \<le> total_supply (view X ws)"
    using supply_upd [of "view X ws" a ?y] assms(3) by (simp add: bal_def v word_le_nat_alt)
  moreover have "tidy (view X ws) \<Longrightarrow> tidy ((view X ws)(a \<mapsto> ?y))"
    using assms(6) v by (intro tidy_upd) (auto simp: tidy_def)
  ultimately show ?thesis
    using assms(2,4,5) v by (auto simp: advances_def good_def numbered_def live_def)
qed

section \<open>Journaled operations\<close>

lemma inc_nonce_journals:
  assumes "journaled X (AddNonce a) (inc_nonce a) lv ws = Ret (lv', ws')"
  shows "journals X [AddNonce a] lv ws lv' ws' \<and> numbered (view X ws') a"
proof -
  from assms obtain acc where c: "ws_cache ws a = Some acc" "acc_nonce acc \<noteq> - 1"
    and ws': "ws' = add_account a (acc\<lparr>acc_nonce := acc_nonce acc + 1\<rparr>) ws"
    and lv': "lv' = lv\<lparr>lv_journal := AddNonce a # lv_journal lv\<rparr>"
    by (auto simp: journaled_def action_push_def inc_nonce_def res_simps split: if_splits)
  have n: "acc_nonce acc + 1 \<noteq> 0" using c(2) by (simp add: eq_neg_iff_add_eq_0)
  have "advances X [AddNonce a] ws ws'"
    unfolding ws'
    by (rule advances_update [OF c(1) reverts_inc_nonce [OF c]]) (use n in \<open>auto simp: tidy1_def\<close>)
  with n lv' ws' show ?thesis by (auto simp: journals_def numbered_def)
qed

lemma sstore_journals:
  assumes "journaled X (Sstorage a k 0) (if v = 0 then remove_storage a k else set_storage a k v) lv ws =
      Ret (lv', ws')" "live (view X ws) a"
  shows "\<exists>pre. journals X [Sstorage a k pre] lv ws lv' ws'"
proof -
  from assms(1) obtain pv ws1 where g: "get_storage_value X ws a k = Ret (pv, ws1)"
    and lv': "lv' = lv\<lparr>lv_journal := Sstorage a k (unwrap_or pv 0) # lv_journal lv\<rparr>"
    and op: "(if v = 0 then remove_storage a k else set_storage a k v) ws1 = Ret ws'"
    by (auto simp: journaled_def action_push_def)
  from op obtain acc where c: "ws_cache ws1 a = Some acc"
    and ws': "ws' = add_account a (acc\<lparr>acc_storage := (acc_storage acc)(k \<mapsto> v)\<rparr>) ws1"
    by (auto simp: remove_storage_def set_storage_def update_cached_def res_simps split: if_splits)
  have rd: "reads X ws ws1" using g by (rule get_storage_value_reads)
  have va: "view X ws a = Some (view_account X (ws_data ws1) acc)"
    using reads_view [OF rd] view_cached [OF c, of X] by simp
  have "v_storage (view_account X (ws_data ws1) acc) k = unwrap_or pv 0"
    using get_storage_value_view [OF g] va by simp
  from reverts_sstore [OF c this, of v] have "advances X [Sstorage a k (unwrap_or pv 0)] ws1 ws'"
    unfolding ws' by (rule advances_update [OF c]) (use assms(2) va in \<open>auto simp: tidy1_def live_def\<close>)
  with lv' have "journals X [Sstorage a k (unwrap_or pv 0)] lv ws1 lv' ws'" by (simp add: journals_def)
  with rd show ?thesis by (blast intro: journals_trans_reads)
qed

lemma set_code_journals:
  assumes "journaled X (StoreCode a c0) (set_code a c) lv ws = Ret (lv', ws')" "numbered (view X ws) a"
  shows "\<exists>pre. journals X [StoreCode a pre] lv ws lv' ws'"
proof -
  from assms(1) obtain pc ws1 where g: "get_code X ws a = Ret (pc, ws1)"
    and lv': "lv' = lv\<lparr>lv_journal := StoreCode a (unwrap_or pc []) # lv_journal lv\<rparr>"
    and op: "set_code a c ws1 = Ret ws'"
    by (auto simp: journaled_def action_push_def)
  from op obtain acc where c: "ws_cache ws1 a = Some acc" and ws': "ws' = add_account a (acc\<lparr>acc_code := c\<rparr>) ws1"
    by (auto simp: set_code_def update_cached_def res_simps)
  have rd: "reads X ws ws1" using g by (rule getters_reads)
  have va: "view X ws a = Some (view_account X (ws_data ws1) acc)"
    using reads_view [OF rd] view_cached [OF c, of X] by simp
  then have "unwrap_or pc [] = acc_code acc" using get_code_view [OF g] by simp
  moreover have "advances X [StoreCode a (acc_code acc)] ws1 ws'"
    unfolding ws'
    by (rule advances_update [OF c reverts_set_code [OF c]])
       (use assms(2) va in \<open>auto simp: tidy1_def numbered_def\<close>)
  ultimately have "journals X [StoreCode a (acc_code acc)] lv ws1 lv' ws'" using lv' by (simp add: journals_def)
  with rd show ?thesis by (blast intro: journals_trans_reads)
qed

lemma reset_balance_journals:
  assumes "journaled X (ResetBalance a b0) (reset_balance a) lv ws = Ret (lv', ws')"
  shows "\<exists>pre. journals X [ResetBalance a pre] lv ws lv' ws'"
proof -
  from assms obtain b ws1 where g: "get_balance X ws a = Ret (b, ws1)"
    and lv': "lv' = lv\<lparr>lv_journal := ResetBalance a (unwrap_or b 0) # lv_journal lv\<rparr>"
    and op: "reset_balance a ws1 = Ret ws'"
    by (auto simp: journaled_def action_push_def)
  from op obtain acc where c: "ws_cache ws1 a = Some acc" and ws': "ws' = add_account a (acc\<lparr>acc_balance := 0\<rparr>) ws1"
    by (auto simp: reset_balance_def update_cached_def res_simps)
  have rd: "reads X ws ws1" using g by (rule getters_reads)
  have "view X ws a = Some (view_account X (ws_data ws1) acc)"
    using reads_view [OF rd] view_cached [OF c, of X] by simp
  then have "unwrap_or b 0 = acc_balance acc" using get_balance_view [OF g] by simp
  moreover have "advances X [ResetBalance a (acc_balance acc)] ws1 ws'"
    unfolding ws' by (rule advances_update [OF c reverts_reset_balance [OF c]]) (auto simp: tidy1_def)
  ultimately have "journals X [ResetBalance a (acc_balance acc)] lv ws1 lv' ws'"
    using lv' by (simp add: journals_def)
  with rd show ?thesis by (blast intro: journals_trans_reads)
qed

lemma reset_storage_journals:
  assumes "journaled X (ResetStorage a r0) (reset_storage a) lv ws = Ret (lv', ws')"
    and "view X ws a = Some x" "v_storage_root x = EMPTY_STORAGE_ROOT" "\<And>k. v_storage x k = 0"
  shows "\<exists>pre. journals X [ResetStorage a pre] lv ws lv' ws'"
proof -
  from assms(1) obtain acc where c: "ws_cache ws a = Some acc"
    and ws': "ws' = add_account a (acc\<lparr>acc_storage_hash := EMPTY_STORAGE_ROOT\<rparr>) ws"
    and lv': "lv' = lv\<lparr>lv_journal := ResetStorage a (acc_storage_hash acc) # lv_journal lv\<rparr>"
    by (auto simp: journaled_def action_push_def reset_storage_def update_cached_def res_simps)
  have x: "x = view_account X (ws_data ws) acc" using assms(2) view_cached [OF c, of X] by simp
  then have h: "acc_storage_hash acc = EMPTY_STORAGE_ROOT" using assms(3) by simp
  then have same: "acc\<lparr>acc_storage_hash := EMPTY_STORAGE_ROOT\<rparr> = acc" by simp
  have "reverts X [ResetStorage a (acc_storage_hash acc)] ws ws'"
    unfolding ws' by (rule reverts_reset_storage [OF c h]) (use assms(4) x in simp)
  then have "advances X [ResetStorage a (acc_storage_hash acc)] ws ws'"
    unfolding ws' same by (rule advances_update [OF c]) auto
  with lv' show ?thesis by (auto simp: journals_def)
qed

end
