(* ===== verification/Static.thy ===== *)
theory Static
  imports Termination Sample
begin

text \<open>
  Static calls.  A frame without the permission to modify the state, and every frame below it, leaves
  everything an observer can read, the journal, the logs, the list of destroyed accounts and the
  refund counter as they were.  The proof extends the contract of the function that runs code by this
  promise and shows that one iteration of the loop keeps it.
\<close>

section \<open>What stays\<close>

definition quiet ::
  "('t, 'r) ext \<Rightarrow> leviathan \<Rightarrow> ('t, 'r) world_state \<Rightarrow> substate \<Rightarrow> leviathan \<Rightarrow> ('t, 'r) world_state \<Rightarrow>
   substate \<Rightarrow> bool" where
  "quiet X lv ws ss lv' ws' ss' \<longleftrightarrow> reads X ws ws' \<and> lv_journal lv' = lv_journal lv \<and>
     a_log ss' = a_log ss \<and> a_des ss' = a_des ss \<and> a_reimburse ss' = a_reimburse ss"

lemma quiet_reads [intro]:
  "reads X ws ws' \<Longrightarrow> a_log ss' = a_log ss \<Longrightarrow> a_des ss' = a_des ss \<Longrightarrow> a_reimburse ss' = a_reimburse ss \<Longrightarrow>
   quiet X lv ws ss lv ws' ss'"
  by (simp add: quiet_def)

lemma quiet_refl [simp]: "quiet X lv ws ss lv ws ss"
  by (simp add: quiet_def)

lemma quiet_trans [trans]:
  "quiet X lv ws ss lv1 ws1 ss1 \<Longrightarrow> quiet X lv1 ws1 ss1 lv2 ws2 ss2 \<Longrightarrow> quiet X lv ws ss lv2 ws2 ss2"
  unfolding quiet_def by (auto intro: reads_trans)

lemma quiet_access:
  "reads X ws ws1 \<Longrightarrow> quiet X lv ws1 (ss\<lparr>a_access := xs\<rparr>) lv' ws' ss' \<Longrightarrow> quiet X lv ws ss lv' ws' ss'"
  by (auto simp: quiet_def intro: reads_trans)

lemma access_storage_insert_sel [simp]:
  "a_log (access_storage_insert a k v ss) = a_log ss" "a_des (access_storage_insert a k v ss) = a_des ss"
  "a_reimburse (access_storage_insert a k v ss) = a_reimburse ss"
  by (simp_all add: access_storage_insert_def Let_def)

lemma read_only_opcodes_quiet:
  "environmental_info_opcode X opcode env evm ws ss = Ret (evm', ws', ss') \<Longrightarrow> quiet X lv ws ss lv ws' ss'"
  "extcodecopy_opcode X evm ws ss = Ret (evm', ws', ss') \<Longrightarrow> quiet X lv ws ss lv ws' ss'"
  "sload_opcode X env evm ws ss = Ret (evm', ws', ss') \<Longrightarrow> quiet X lv ws ss lv ws' ss'"
  by (auto simp: environmental_info_opcode_def extcodecopy_opcode_def sload_opcode_def Let_def
      split: if_splits intro: quiet_reads getters_reads get_storage_value_reads)

section \<open>The version of a machine\<close>

lemma dispatch_version:
  assumes "dispatch X run opcode env evm lv ws ss = Ret (r, evm', lv', ws', ss')"
  shows "e_version evm' = e_version evm"
proof (cases "opcode \<in> {0x40, 0x56, 0x57}")
  case True
  with assms show ?thesis
  proof (cases rule: dispatch_cases)
    case machine
    with True show ?thesis by (auto simp: machine_op_def is_machine_op_def)
  next
    case block
    with True have "opcode = 0x40" by auto
    with block blockhash_effect [of X env evm ws evm' ws'] show ?thesis by (auto simp: effect_defs)
  qed auto
next
  case False
  with dispatch_effect [OF assms] show ?thesis by (simp add: op_effect_defs)
qed

lemma charged_version: "charged opcode c evm = Ret evm' \<Longrightarrow> e_version evm' = e_version evm"
  by (auto simp: charged_def advance_pc_def res_simps split: if_splits)

lemma call_input_version:
  "call_input io isz oo osz (evm\<lparr>e_stack := rest\<rparr>) = Ret (d, evm') \<Longrightarrow> e_version evm' = e_version evm"
  by (drule call_input_keeps) (simp add: same_registers_def)

section \<open>Transfers without effect\<close>

text \<open>An account that was just found alive is not created.\<close>

lemma ensure_live_account:
  assumes "is_dead X v ws a = Ret (False, ws1)" "ensure_account X v a lv ws1 = Ret (lv', ws')"
    and "SpuriousDragon \<le> v"
  shows "lv' = lv \<and> reads X ws1 ws'"
proof -
  have nv: "\<not> v < SpuriousDragon" using assms(3) by (simp add: not_less)
  from assms(2) obtain d ws2 where d: "is_dead X v ws1 a = Ret (d, ws2)"
    and e: "(if d then
       bindR (is_physically_exist X ws2 a) (\<lambda>(ex, ws3).
       if \<not> ex then action_push X (AccountCreation a) lv (add_account a (account_new X) ws3)
       else Ret (lv, ws3))
     else Ret (lv, ws2)) = Ret (lv', ws')"
    by (auto simp: ensure_account_def)
  have rd: "reads X ws1 ws2" using d by (rule is_dead_reads)
  show ?thesis
  proof (cases d)
    case False
    with e rd show ?thesis by simp
  next
    case True
    have "ws_cache ws1 a \<noteq> None"
    proof (rule ccontr)
      assume "\<not> ws_cache ws1 a \<noteq> None"
      then have c: "ws_cache ws1 a = None" by simp
      with assms(1) nv have "ws1 = ws" "ws_cache ws a = None"
        by (auto simp: is_dead_def is_empty_def add_cache_def split: option.splits)
      with assms(1) d True show False by simp
    qed
    then have "ws_cache ws2 a \<noteq> None" using rd reads_cached by blast
    with e True rd show ?thesis by (auto simp: is_physically_exist_def with_account_def)
  qed
qed

lemma transfer_nothing:
  assumes "transfer_value X s r e lv ws = Ret (ok, lv', ws')" "e = 0 \<or> s = r" "SpuriousDragon \<le> lv_version lv"
  shows "lv' = lv \<and> reads X ws ws'"
  using assms(1)
proof (cases rule: transfer_value_cases)
  case (self ws1)
  with ensure_live_account [of X "lv_version lv" ws r ws1 lv lv' ws'] assms(3) is_dead_reads [OF self(4)]
  show ?thesis by (auto intro: reads_trans)
qed (use assms in \<open>auto dest: is_dead_reads\<close>)

lemma undo_nothing:
  assumes "undo_frame lv ws ss = Ret (lv', ws', ss')" "lv_journal lv = []" "grown ss1 ss"
    and "lv_substate_backup lv = backup ss1"
  shows "lv_journal lv' = [] \<and> ws' = ws \<and> a_log ss' = a_log ss1 \<and> a_des ss' = a_des ss1 \<and>
    a_reimburse ss' = a_reimburse ss1"
  using assms(1)
proof (cases rule: undo_frame_cases)
  case 1
  with assms show ?thesis by (auto simp: road_backup_grown [OF assms(3)])
qed

section \<open>The contract\<close>

locale static_runner = runner +
  assumes run_static: "run env evm lv ws ss = Ret (r, evm', lv', ws', ss') \<Longrightarrow> \<not> i_permission env \<Longrightarrow>
      SpuriousDragon \<le> e_version evm \<Longrightarrow> quiet X lv ws ss lv' ws' ss'"
begin

lemma run_contract_static:
  assumes "run_contract X run c env g lv ws ss = Ret (r, lv', ws', ss')" "\<not> i_permission env"
    and "SpuriousDragon \<le> lv_version lv"
  shows "quiet X lv ws ss lv' ws' ss'"
  using assms(1)
proof (cases rule: run_contract_cases)
  case (code code ws1 env1 evm0 res evm1)
  have "quiet X lv ws1 ss lv' ws' ss'"
    using run_static [OF code(5)] assms(2,3) code(3,4) by (simp add: evm_new_def Let_def)
  with getters_reads(4) [OF code(2)] show ?thesis by (auto simp: quiet_def intro: reads_trans)
qed simp

lemma message_call_static:
  assumes "message_call X run lv ws ss s o' r c g p e av d dep False h = Ret (res, lv', ws', ss')"
    and "e = 0 \<or> s = r" "SpuriousDragon \<le> lv_version lv" "lv_journal lv = []"
  shows "quiet X lv ws ss lv' ws' ss'"
  using assms(1)
proof (cases rule: message_call_cases)
  case (dead ss1 ss2)
  then show ?thesis using transfer_nothing [OF dead(3) assms(2)] assms(3) by (auto simp: quiet_def)
next
  case (run ss1 ss2 lv2 ws1 env result lv3 ws2 ss3)
  have t: "lv2 = lv\<lparr>lv_substate_backup := backup ss1\<rparr> \<and> reads X ws ws1"
    using transfer_nothing [OF run(3) assms(2)] assms(3) by simp
  have q: "quiet X lv2 ws1 ss2 lv3 ws2 ss3"
    using run_contract_static [OF run(5)] t assms(3) run(4) by simp
  from run(6) show ?thesis
  proof (elim disjE exE conjE)
    fix g' out assume "lv' = lv3" "ws' = ws2" "ss' = ss3"
    with q t run(1,2) show ?thesis by (auto simp: quiet_def intro: reads_trans)
  next
    fix g' data assume u: "undo_frame lv3 ws2 ss3 = Ret (lv', ws', ss')"
    have "op_frame lv2 ws1 ss2 lv3 ws2 ss3" using run_contract_frame [OF run(5)] by blast
    moreover have "grown ss1 ss2" unfolding run(2) by (rule grown_updates)
    ultimately have "grown ss1 ss3" "lv_substate_backup lv3 = backup ss1"
      using t by (auto simp: op_frame_def lv_ext_def intro: grown_trans)
    with undo_nothing [OF u _ this] q t assms(4) run(1) show ?thesis
      by (auto simp: quiet_def intro: reads_trans)
  qed
qed

lemma call_body_static:
  assumes "call_body X run env nb s r c g e av d False oo os evm lv ws ss = Ret (evm', lv', ws', ss')"
    and "e = 0 \<or> s = r" "SpuriousDragon \<le> e_version evm"
  shows "quiet X lv ws ss lv' ws' ss'"
proof -
  consider "lv' = lv" "ws' = ws" "ss' = ss"
    | res child where
      "message_call X run (leviathan_new (e_version evm)) ws ss s (i_origin env) r c g (i_gas_price env)
         e av d (i_depth env + 1) False (i_block_header env) = Ret (res, child, ws', ss')"
      "finish_call oo os res child evm lv = Ret (evm', lv')"
    using assms(1) by (auto simp: call_body_def split: if_splits)
  then show ?thesis
  proof cases
    case 2
    have "quiet X (leviathan_new (e_version evm)) ws ss child ws' ss'"
      using message_call_static [OF 2(1) assms(2)] assms(3) by simp
    moreover from 2(2) have "lv_journal lv' = lv_journal lv \<or> lv_journal lv' = lv_journal child @ lv_journal lv"
      by (auto simp: finish_call_def merge_def split: call_result.splits option.splits)
    ultimately show ?thesis by (auto simp: quiet_def)
  qed simp
qed

lemma value_call_static:
  assumes "call_opcode X run env evm lv ws ss = Ret (evm', lv', ws', ss') \<and> e_stack evm ! 2 = 0 \<or>
      callcode_opcode X run env evm lv ws ss = Ret (evm', lv', ws', ss')"
    and "\<not> i_permission env" "SpuriousDragon \<le> e_version evm"
  shows "quiet X lv ws ss lv' ws' ss'"
proof -
  have body: "quiet X lv ws ss lv' ws' ss'"
    if "get_balance X ws (i_address env) = Ret (b, ws1)" "e = 0 \<or> i_address env = r"
      "call_input io isz oo osz (evm\<lparr>e_stack := rest\<rparr>) = Ret (d', evm8)"
      "call_body X run env nb (i_address env) r c g e av d (i_permission env) oo' osz'
         (evm8\<lparr>e_child_gas_mem := None\<rparr>) lv ws1 (ss\<lparr>a_access := xs\<rparr>) = Ret (evm', lv', ws', ss')"
    for b ws1 e r io isz oo osz rest d' evm8 nb c g av d oo' osz' xs
    using call_body_static [of env nb "i_address env" r c g e av d oo' osz' "evm8\<lparr>e_child_gas_mem := None\<rparr>"
        lv ws1 "ss\<lparr>a_access := xs\<rparr>" evm' lv' ws' ss'] that assms(2,3) call_input_version [OF that(3)]
    by (auto intro: quiet_access [OF getters_reads(3)])
  from assms(1) show ?thesis
  proof (elim disjE conjE)
    assume c: "call_opcode X run env evm lv ws ss = Ret (evm', lv', ws', ss')" and z: "e_stack evm ! 2 = 0"
    from c show ?thesis
    proof (cases rule: call_opcode_cases)
      case (1 g0 to val io isz oo osz rest data evm8 ss1)
      with z show ?thesis by (auto simp: 1(3) intro: body [OF _ _ 1(2)])
    qed
  next
    assume "callcode_opcode X run env evm lv ws ss = Ret (evm', lv', ws', ss')"
    then show ?thesis
    proof (cases rule: callcode_opcode_cases)
      case (1 g0 to val io isz oo osz rest data evm8 ss1)
      then show ?thesis by (auto simp: 1(3) intro: body [OF _ _ 1(2)])
    qed
  qed
qed

lemma plain_call_static:
  assumes "delegatecall_opcode X run env evm lv ws ss = Ret (evm', lv', ws', ss') \<or>
      staticcall_opcode X run env evm lv ws ss = Ret (evm', lv', ws', ss')"
    and "\<not> i_permission env" "SpuriousDragon \<le> e_version evm"
  shows "quiet X lv ws ss lv' ws' ss'"
  using assms(1)
proof (elim disjE)
  assume "delegatecall_opcode X run env evm lv ws ss = Ret (evm', lv', ws', ss')"
  then show ?thesis
  proof (cases rule: delegatecall_opcode_cases)
    case (1 g0 to io isz oo osz rest data evm8 ss1)
    with call_input_version [OF 1(2)] assms(2,3) show ?thesis
      by (auto dest!: call_body_static intro: quiet_access)
  qed
next
  assume "staticcall_opcode X run env evm lv ws ss = Ret (evm', lv', ws', ss')"
  then show ?thesis
  proof (cases rule: staticcall_opcode_cases)
    case (1 g0 to io isz oo osz rest data evm8 ss1)
    with call_input_version [OF 1(2)] assms(2,3) show ?thesis
      by (auto dest!: call_body_static intro: quiet_access)
  qed
qed

lemma dispatch_static:
  assumes "dispatch X run opcode env evm lv ws ss = Ret (r, evm', lv', ws', ss')"
    and "is_safe_static opcode env evm0 = Ret True" "\<not> i_permission env"
    and "SpuriousDragon \<le> e_version evm" "opcode = 0xf1 \<Longrightarrow> e_stack evm0 = e_stack evm"
  shows "quiet X lv ws ss lv' ws' ss'"
  using assms(1)
proof (cases rule: dispatch_cases)
  case call
  with assms(2,3,5) have "e_stack evm ! 2 = 0"
    by (auto simp: is_safe_static_def peek_eq_Ret)
  with call value_call_static [OF _ assms(3,4)] show ?thesis by blast
next
  case callcode
  with value_call_static [OF _ assms(3,4)] show ?thesis by blast
next
  case delegatecall
  with plain_call_static [OF _ assms(3,4)] show ?thesis by blast
next
  case staticcall
  with plain_call_static [OF _ assms(3,4)] show ?thesis by blast
next
  case log
  have "opcode \<in> {0xa0, 0xa1, 0xa2, 0xa3, 0xa4}" using log by auto
  with assms(2,3) show ?thesis by (auto simp: is_safe_static_def)
next
  case block
  then show ?thesis by (auto dest: block_info_frame)
qed (use assms(2,3) in \<open>auto simp: is_safe_static_def intro: read_only_opcodes_quiet\<close>)

lemma step_static:
  assumes "safe_op X opcode ss env evm ws c evm1 ws1" "charged opcode c evm1 = Ret evm2"
    and "dispatch X run opcode env evm2 lv ws1 ss = Ret (r, evm', lv', ws', ss')"
    and "\<not> i_permission env" "SpuriousDragon \<le> e_version evm"
  shows "quiet X lv ws ss lv' ws' ss' \<and> e_version evm' = e_version evm"
proof -
  from assms(1) have rd: "reads X ws ws1" and st: "is_safe_static opcode env evm1 = Ret True"
    and v: "e_version evm1 = e_version evm" by (auto simp: safe_op_def)
  have v2: "e_version evm2 = e_version evm" using charged_version [OF assms(2)] v by simp
  have "quiet X lv ws1 ss lv' ws' ss'"
    by (rule dispatch_static [OF assms(3) st assms(4)])
       (use v2 assms(5) charged_other(1) [OF assms(2)] in auto)
  with rd dispatch_version [OF assms(3)] v2 show ?thesis by (auto simp: quiet_def intro: reads_trans)
qed

lemma iter_static: "static_runner X (evm_iter X run)"
proof (intro static_runner.intro static_runner_axioms.intro iter_runner)
  fix env evm lv ws ss r evm' lv' ws' ss'
  assume it: "evm_iter X run env evm lv ws ss = Ret (r, evm', lv', ws', ss')" and p: "\<not> i_permission env"
    and v: "SpuriousDragon \<le> e_version evm"
  from it show "quiet X lv ws ss lv' ws' ss'"
  proof (cases rule: evm_iter_cases)
    case (halt opcode c evm1 ws1 evm2 b)
    with step_static [OF halt(2-4) p v] show ?thesis by blast
  next
    case (continue opcode c evm1 ws1 evm2 evm3 lv1 ws3 ss1)
    from step_static [OF continue(2-4) p v] v have "quiet X lv ws ss lv1 ws3 ss1"
      "SpuriousDragon \<le> e_version evm3" by auto
    with run_static [OF continue(5) p] show ?thesis by (auto intro: quiet_trans)
  qed auto
qed

end

lemma evm_run_static: "static_runner X (evm_run X n)"
proof (induction n)
  case 0
  show ?case by unfold_locales simp_all
next
  case (Suc n)
  then show ?case by (simp add: static_runner.iter_static)
qed

interpretation static_interpreter: static_runner X "evm_run X n" for X n
  by (rule evm_run_static)

section \<open>Property\<close>

text \<open>
  C6.  Static calls are static: a frame that runs without permission, with all its sub-calls, changes
  no nonce, balance, code or storage slot of any account, appends nothing to the journal, and neither
  logs, destroys accounts nor changes the refund counter.
\<close>

theorem static_frame_changes_nothing:
  assumes "evm_run X n env evm lv ws ss = Ret (r, evm', lv', ws', ss')"
    and "\<not> i_permission env" "SpuriousDragon \<le> e_version evm"
  shows "view X ws' = view X ws \<and> lv_journal lv' = lv_journal lv \<and> a_log ss' = a_log ss \<and>
    a_des ss' = a_des ss \<and> a_reimburse ss' = a_reimburse ss"
  using static_interpreter.run_static [OF assms] by (simp add: quiet_def reads_view)

theorem static_frame_changes_nothing_witness:
  "\<exists>r evm' lv' ws' ss'. evm_run sample_ext (Suc 0) ((sample_env [])\<lparr>i_permission := False\<rparr>) (sample_machine [] 5)
      (leviathan_new Constantinople) sample_world substate_new = Ret (r, evm', lv', ws', ss') \<and>
    view sample_ext ws' = view sample_ext sample_world \<and> a_log ss' = []"
proof -
  note run = stop_at_once [of "(sample_env [])\<lparr>i_permission := False\<rparr>"
      "sample_machine [] 5" sample_ext 0 "leviathan_new Constantinople" sample_world substate_new]
  show ?thesis
    using static_frame_changes_nothing [OF run] run
    by (simp add: version_order substate_new_def del: evm_run.simps)
qed

end
