(* ===== verification/Rollback.thy ===== *)
theory Rollback
  imports Invariant Static
begin

text \<open>
  Roll-back.  Every frame, with all its sub-calls, is reverted by the journal it leaves, so a failed
  message call or contract creation puts back what an observer can read of every account.  The proof
  extends the contract of the function that runs code and follows the journal through transfers,
  creations and sub-calls.
\<close>

section \<open>Transfers and new accounts\<close>

text \<open>An account without storage; operations on nonces and balances keep it so.\<close>

definition vacant :: "views \<Rightarrow> address \<Rightarrow> bool" where
  "vacant V a \<longleftrightarrow> (\<forall>x. V a = Some x \<longrightarrow> v_storage_root x = EMPTY_STORAGE_ROOT \<and> (\<forall>k. v_storage x k = 0))"

lemma send_journals:
  assumes "journaled X (SendEth s r e) (transfer_eth s r e) lv ws = Ret (lv', ws')" "s \<noteq> r"
    and "good (view X ws)" "e \<le> bal (view X ws) s"
  shows "journals X [SendEth s r e] lv ws lv' ws'" "vacant (view X ws) a \<Longrightarrow> vacant (view X ws') a"
proof -
  from assms(1) obtain ok where lv': "lv' = lv\<lparr>lv_journal := SendEth s r e # lv_journal lv\<rparr>"
    and op: "send_eth s r e ws = Ret (ok, ws')"
    by (auto simp: journaled_def action_push_def transfer_eth_def)
  from op obtain af where f: "ws_cache ws s = Some af" by (auto simp: send_eth_def res_simps)
  have vf: "view X ws s = Some (view_account X (ws_data ws) af)" using f by (rule view_cached)
  then have le: "e \<le> acc_balance af" using assms(4) by (simp add: bal_def)
  with op f assms(2) obtain ar where r: "ws_cache ws r = Some ar"
    and ws': "ws' = add_account r (ar\<lparr>acc_balance := acc_balance ar + e\<rparr>)
       (add_account s (af\<lparr>acc_balance := acc_balance af - e\<rparr>) ws)"
    by (auto simp: send_eth_def add_balance_def update_cached_def res_simps Let_def)
  have vr: "view X ws r = Some (view_account X (ws_data ws) ar)" using r by (rule view_cached)
  have sum: "unat (acc_balance ar) + unat (acc_balance af) < 2 ^ 256"
    using two_balances [of r s "view X ws"] assms(2,3) vf vr by (simp add: bal_def good_def)
  have le': "unat e \<le> unat (acc_balance af)" using le by (simp add: word_le_nat_alt)
  have rev: "reverts X [SendEth s r e] ws ws'"
    unfolding ws' by (rule reverts_send [OF assms(2) f r]) (use sum le' in simp)
  define x where "x = (view_account X (ws_data ws) af)\<lparr>v_balance := acc_balance af - e\<rparr>"
  define y where "y = (view_account X (ws_data ws) ar)\<lparr>v_balance := acc_balance ar + e\<rparr>"
  have v': "view X ws' = (view X ws)(s \<mapsto> x, r \<mapsto> y)" by (simp add: ws' x_def y_def)
  have "total_supply (view X ws') = total_supply (view X ws)"
  proof -
    have b: "unat (v_balance x) = unat (acc_balance af) - unat e" "unat (v_balance y) = unat (acc_balance ar) + unat e"
      using le le' sum by (simp_all add: x_def y_def unat_sub_le unat_add_u256)
    show ?thesis
      using supply_upd [of "view X ws" s x] supply_upd [of "(view X ws)(s \<mapsto> x)" r y] assms(2) vf vr b le'
      by (simp add: v' bal_def)
  qed
  moreover have "tidy (view X ws')"
    unfolding v' using assms(3) vf vr
    by (intro tidy_upd) (auto simp: good_def tidy_def tidy1_def x_def y_def)
  ultimately have "advances X [SendEth s r e] ws ws'"
    using rev assms(3) vf vr same_store_trans [OF same_store_add_account same_store_add_account]
    by (auto simp: advances_def good_def v' x_def y_def numbered_def live_def ws')
  then show "journals X [SendEth s r e] lv ws lv' ws'" using lv' by (simp add: journals_def)
  show "vacant (view X ws) a \<Longrightarrow> vacant (view X ws') a"
    using vf vr assms(2) by (auto simp: vacant_def v' x_def y_def)
qed

lemma ensure_account_journals:
  assumes "ensure_account X v a lv ws = Ret (lv', ws')"
  shows "\<exists>J. journals X J lv ws lv' ws' \<and> code_of J = {}" "bal (view X ws') b = bal (view X ws) b"
    "vacant (view X ws) c \<Longrightarrow> vacant (view X ws') c"
proof -
  from assms obtain d ws1 where d: "is_dead X v ws a = Ret (d, ws1)"
    and e: "(if d then
       bindR (is_physically_exist X ws1 a) (\<lambda>(ex, ws2).
       if \<not> ex then action_push X (AccountCreation a) lv (add_account a (account_new X) ws2)
       else Ret (lv, ws2))
     else Ret (lv, ws1)) = Ret (lv', ws')"
    by (auto simp: ensure_account_def)
  have r1: "reads X ws ws1" using d by (rule is_dead_reads)
  have "(lv' = lv \<and> reads X ws ws') \<or>
    (\<exists>ws2. reads X ws ws2 \<and> view X ws2 a = None \<and> ws' = add_account a (account_new X) ws2 \<and>
       lv' = lv\<lparr>lv_journal := AccountCreation a # lv_journal lv\<rparr>)"
  proof (cases d)
    case True
    with e obtain ex ws2 where ex: "is_physically_exist X ws1 a = Ret (ex, ws2)"
      and rest: "(if \<not> ex then action_push X (AccountCreation a) lv (add_account a (account_new X) ws2)
       else Ret (lv, ws2)) = Ret (lv', ws')" by auto
    have "reads X ws ws2" using r1 getters_reads(1) [OF ex] by (rule reads_trans)
    moreover have "ex \<longleftrightarrow> view X ws2 a \<noteq> None"
      using is_physically_exist_view [OF ex] getters_reads(1) [OF ex] by (simp add: reads_view)
    ultimately show ?thesis using rest by (auto simp: action_push_def split: if_splits)
  qed (use e r1 in simp)
  then have "(\<exists>J. journals X J lv ws lv' ws' \<and> code_of J = {}) \<and> bal (view X ws') b = bal (view X ws) b \<and>
    (vacant (view X ws) c \<longrightarrow> vacant (view X ws') c)"
  proof (elim disjE exE conjE)
    assume "lv' = lv" "reads X ws ws'"
    then show ?thesis by (auto simp: reads_view intro!: exI [of _ "[]"] journals_reads)
  next
    fix ws2 assume r: "reads X ws ws2" and n: "view X ws2 a = None"
      and ws': "ws' = add_account a (account_new X) ws2"
      and lv': "lv' = lv\<lparr>lv_journal := AccountCreation a # lv_journal lv\<rparr>"
    have "total_supply (view X ws') = total_supply (view X ws2)"
      using supply_upd [of "view X ws2" a] n by (simp add: ws' bal_def)
    moreover have "tidy (view X ws2) \<Longrightarrow> tidy (view X ws')"
      unfolding ws' by (simp add: tidy_upd tidy1_def)
    moreover have "reverts X [AccountCreation a] ws2 ws'" unfolding ws' by (rule reverts_creation [OF n])
    ultimately have "advances X [AccountCreation a] ws2 ws'"
      using n by (auto simp: advances_def good_def numbered_def live_def ws')
    then have "journals X [AccountCreation a] lv ws2 lv' ws'" using lv' by (simp add: journals_def)
    with r have "journals X [AccountCreation a] lv ws lv' ws'" by (rule journals_trans_reads)
    moreover have "view X ws2 = view X ws" using r by (rule reads_view)
    ultimately show ?thesis
      using n by (auto simp: ws' bal_def vacant_def intro!: exI [of _ "[AccountCreation a]"])
  qed
  then show "\<exists>J. journals X J lv ws lv' ws' \<and> code_of J = {}" "bal (view X ws') b = bal (view X ws) b"
    "vacant (view X ws) c \<Longrightarrow> vacant (view X ws') c" by blast+
qed

text \<open>An account with a nonce or a balance is alive.\<close>

lemma used_not_dead:
  assumes "is_dead X v ws a = Ret (d, ws')" "view X ws a = Some x" "v_nonce x \<noteq> 0 \<or> v_balance x \<noteq> 0"
    and "SpuriousDragon \<le> v"
  shows "\<not> d"
proof -
  have "\<not> v < SpuriousDragon" using assms(4) by simp
  with assms(1) have e: "is_empty X ws a = Ret (d, ws')" by (simp add: is_dead_def)
  show ?thesis
  proof (cases "ws_cache ws a")
    case (Some acc)
    with assms(2,3) e show ?thesis by (auto simp: is_empty_def view_def)
  next
    case None
    with assms(2) have "mpt_view X ws a = Some x" by (simp add: view_def)
    then obtain m where "contain_mpt X ws a = Ret (Some m)" "v_nonce x = m_nonce m" "v_balance x = m_balance m"
      by (auto simp: mpt_view_def split: res.splits option.splits)
    with e assms(3) None show ?thesis
      by (auto simp: is_empty_def contain_mpt_def split: option.splits)
  qed
qed

lemma numbered_not_dead:
  "is_dead X v ws a = Ret (d, ws') \<Longrightarrow> numbered (view X ws) a \<Longrightarrow> SpuriousDragon \<le> v \<Longrightarrow> \<not> d"
  by (auto simp: numbered_def dest: used_not_dead)

lemma funded_not_dead:
  assumes "is_dead X v ws a = Ret (d, ws')" "bal (view X ws) a \<noteq> 0" "SpuriousDragon \<le> v"
  shows "\<not> d"
  using assms used_not_dead [OF assms(1)] by (cases "view X ws a") (auto simp: bal_def)

lemma ensure_numbered:
  assumes "ensure_account X v a lv ws = Ret (lv', ws')" "numbered (view X ws) a" "SpuriousDragon \<le> v"
  shows "lv' = lv \<and> reads X ws ws'"
  using assms by (auto simp: ensure_account_def dest: numbered_not_dead is_dead_reads split: if_splits)

lemma transfer_value_journals:
  assumes "transfer_value X s r e lv ws = Ret (ok, lv', ws')" "SpuriousDragon \<le> lv_version lv"
    and "good (view X ws)" "e = 0 \<or> s = r \<or> e \<le> bal (view X ws) s"
  shows "\<exists>J. journals X J lv ws lv' ws'" "\<not> ok \<Longrightarrow> lv' = lv \<and> reads X ws ws'"
proof -
  have "(\<exists>J. journals X J lv ws lv' ws') \<and> (\<not> ok \<longrightarrow> lv' = lv \<and> reads X ws ws')"
    using assms(1)
  proof (cases rule: transfer_value_cases)
    case zero
    then show ?thesis by (auto intro: exI [of _ "[]"])
  next
    case dead
    then show ?thesis by (auto dest: is_dead_reads intro: journals_reads)
  next
    case (self ws1)
    then show ?thesis
      using is_dead_reads [OF self(4)] ensure_account_journals(1) [OF self(5)] journals_trans_reads by blast
  next
    case (transfer ws1 lv1 ws2)
    note r = is_dead_reads [OF transfer(4)] and en = ensure_account_journals [OF transfer(5)]
    from en(1) obtain J where J: "journals X J lv ws1 lv1 ws2" by blast
    have "good (view X ws2)" using journals_good [OF J] assms(3) reads_view [OF r] by simp
    moreover have "e \<le> bal (view X ws2) s" using assms(4) transfer(1,3) en(2) reads_view [OF r] by simp
    ultimately have "journals X [SendEth s r e] lv1 ws2 lv' ws'"
      using send_journals(1) [OF transfer(6,3)] by blast
    with journals_trans_reads [OF r J] journals_trans transfer(2) show ?thesis by blast
  qed (use assms(2) in auto)
  then show "\<exists>J. journals X J lv ws lv' ws'" "\<not> ok \<Longrightarrow> lv' = lv \<and> reads X ws ws'" by blast+
qed

section \<open>Setting up a contract account\<close>

lemma free_address:
  assumes "is_collision X ws a = Ret (False, ws')" "good (view X ws)"
  shows "vacant (view X ws) a \<and> \<not> numbered (view X ws) a \<and> reads X ws ws'"
proof -
  from assms(1) obtain n ws1 c ws2 where n: "get_nonce X ws a = Ret (n, ws1)"
    and c: "get_code X ws1 a = Ret (c, ws2)"
    and rest: "(if unwrap_or n 0 \<noteq> 0 \<or> unwrap_or c [] \<noteq> [] then Ret (True, ws2)
     else bindR (is_storage_empty X ws2 a) (\<lambda>(empty, ws3). Ret (\<not> empty, ws3))) = Ret (False, ws')"
    by (auto simp: is_collision_def)
  from rest have z: "unwrap_or n 0 = 0" "unwrap_or c [] = []" and s: "is_storage_empty X ws2 a = Ret (True, ws')"
    by (auto split: if_splits)
  note r1 = getters_reads(5) [OF n] and r2 = getters_reads(4) [OF c] and r3 = getters_reads(2) [OF s]
  have v: "view X ws1 = view X ws" "view X ws2 = view X ws"
    using reads_view [OF r1] reads_view [OF r2] by simp_all
  have "n = map_option v_nonce (view X ws a)" "c = map_option v_code (view X ws a)"
    using get_nonce_view [OF n] get_code_view [OF c] v by simp_all
  moreover have "case view X ws a of None \<Rightarrow> True | Some x \<Rightarrow> v_storage_root x = EMPTY_STORAGE_ROOT"
    using is_storage_empty_view [OF s] v by simp
  ultimately have "vacant (view X ws) a \<and> \<not> numbered (view X ws) a"
    using z assms(2) by (cases "view X ws a") (auto simp: vacant_def numbered_def good_def tidy_def tidy1_def)
  then show ?thesis using r1 r2 r3 by (auto intro: reads_trans)
qed

lemma new_nonce_journals:
  assumes "new_nonce X a lv ws = Ret (lv', ws')" "SpuriousDragon \<le> lv_version lv"
  shows "journals X [AddNonce a] lv ws lv' ws' \<and> numbered (view X ws') a" "bal (view X ws') b = bal (view X ws) b"
    "vacant (view X ws) c \<Longrightarrow> vacant (view X ws') c"
proof -
  from assms have j: "journaled X (AddNonce a) (inc_nonce a) lv ws = Ret (lv', ws')" by (simp add: new_nonce_def)
  then show "journals X [AddNonce a] lv ws lv' ws' \<and> numbered (view X ws') a" by (rule inc_nonce_journals)
  from j obtain acc where "ws_cache ws a = Some acc" "ws' = add_account a (acc\<lparr>acc_nonce := acc_nonce acc + 1\<rparr>) ws"
    by (auto simp: journaled_def action_push_def inc_nonce_def res_simps split: if_splits)
  then show "bal (view X ws') b = bal (view X ws) b" "vacant (view X ws) c \<Longrightarrow> vacant (view X ws') c"
    by (auto simp: bal_def vacant_def view_cached)
qed

lemma endow_account_journals:
  assumes "endow_account X s a e lv ws = Ret (lv', ws')" "SpuriousDragon \<le> lv_version lv"
    and "good (view X ws)" "numbered (view X ws) a" "vacant (view X ws) a" "s \<noteq> a" "e \<le> bal (view X ws) s"
  shows "\<exists>J. journals X J lv ws lv' ws' \<and> a \<in> code_of J"
proof -
  from assms(1) obtain lv1 ws1 lv2 ws2 lv3 ws3 where
    en: "ensure_account X (lv_version lv) a lv ws = Ret (lv1, ws1)"
    and se: "journaled X (SendEth s a e) (transfer_eth s a e) lv1 ws1 = Ret (lv2, ws2)"
    and rs: "journaled X (ResetStorage a 0) (reset_storage a) lv2 ws2 = Ret (lv3, ws3)"
    and sc: "journaled X (StoreCode a []) (set_code a []) lv3 ws3 = Ret (lv', ws')"
    by (auto simp: endow_account_def)
  have r: "reads X ws ws1" and lv1: "lv1 = lv" using ensure_numbered [OF en assms(4,2)] by auto
  have v1: "view X ws1 = view X ws" using r by (rule reads_view)
  note sj = send_journals [OF se assms(6), unfolded v1, OF assms(3,7)]
  have "numbered (view X ws2) a" using journals_numbered [OF sj(1)] v1 assms(4) by simp
  then obtain x where x: "view X ws2 a = Some x" by (auto simp: numbered_def)
  from reset_storage_journals [OF rs x] sj(2) [OF assms(5)] x obtain r0 where
    rj: "journals X [ResetStorage a r0] lv2 ws2 lv3 ws3" by (auto simp: vacant_def)
  from set_code_journals [OF sc journals_numbered [OF rj]] \<open>numbered (view X ws2) a\<close> obtain c0 where
    cj: "journals X [StoreCode a c0] lv3 ws3 lv' ws'" by blast
  from journals_trans [OF journals_trans [OF journals_trans_reads [OF r sj(1)] rj] cj] lv1 show ?thesis
    by (auto simp: code_of_def)
qed

lemma init_account_journals:
  assumes "init_account X s a e lv ws = Ret (ok, lv', ws')" "SpuriousDragon \<le> lv_version lv"
    and "good (view X ws)" "vacant (view X ws) a" "\<not> numbered (view X ws) a" "numbered (view X ws) s"
    and "e \<le> bal (view X ws) s"
  shows "ok \<and> (\<exists>J. journals X J lv ws lv' ws' \<and> a \<in> code_of J) \<and> numbered (view X ws') a"
proof -
  from assms(1) obtain lv1 ws1 lv2 ws2 dead ws3
    where en: "ensure_account X (lv_version lv) a lv ws = Ret (lv1, ws1)"
    and nn: "new_nonce X a lv1 ws1 = Ret (lv2, ws2)"
    and de: "is_dead X (lv_version lv2) ws2 s = Ret (dead, ws3)"
    and rest: "(if dead then Ret (False, lv2, ws3)
      else bindR (endow_account X s a e lv2 ws3) (\<lambda>(lv3, ws4). Ret (True, lv3, ws4))) = Ret (ok, lv', ws')"
    by (auto simp: init_account_def)
  have ver: "lv_version lv1 = lv_version lv" "lv_version lv2 = lv_version lv"
    using ensure_account_frame [OF en] new_nonce_frame [OF nn] by (auto simp: lv_ext_def)
  note ej = ensure_account_journals [OF en] and nj = new_nonce_journals [OF nn, unfolded ver, OF assms(2)]
  from ej(1) obtain J1 where J1: "journals X J1 lv ws lv1 ws1" by blast
  note J2 = journals_trans [OF J1 conjunct1 [OF nj(1)]]
  have ns: "numbered (view X ws2) s" using J2 assms(6) by (rule journals_numbered)
  have "\<not> dead" using numbered_not_dead [OF de ns] ver assms(2) by simp
  with rest obtain "ok" and ea: "endow_account X s a e lv2 ws3 = Ret (lv', ws')" by auto
  have r: "reads X ws2 ws3" using de by (rule is_dead_reads)
  note v = reads_view [OF r]
  have "\<exists>J. journals X J lv2 ws3 lv' ws' \<and> a \<in> code_of J"
  proof (rule endow_account_journals [OF ea])
    show "good (view X ws3)" using journals_good [OF J2 assms(3)] v by simp
    show "s \<noteq> a" using assms(5,6) by auto
    show "e \<le> bal (view X ws3) s" using assms(7) nj(2) ej(2) v by simp
  qed (use v ver assms(2,4) nj ej(3) in auto)
  then obtain J3 where J3: "journals X J3 lv2 ws3 lv' ws'" "a \<in> code_of J3" by blast
  note J = journals_trans [OF J2 journals_trans_reads [OF r J3(1)]]
  have "numbered (view X ws3) a" using nj(1) v by simp
  with J3 have "numbered (view X ws') a" by (blast intro: journals_numbered)
  with J J3(2) \<open>ok\<close> show ?thesis by fastforce
qed

text \<open>The deposit of the code needs no journal entry of its own.\<close>

lemma deposit_advances:
  assumes "advances X J ws ws1" "a \<in> code_of J" "set_code a c ws1 = Ret ws'" "numbered (view X ws1) a"
  shows "advances X J ws ws'"
proof -
  from assms(3) obtain acc where acc: "ws_cache ws1 a = Some acc" and ws': "ws' = add_account a (acc\<lparr>acc_code := c\<rparr>) ws1"
    by (auto simp: set_code_def update_cached_def res_simps)
  have v: "view X ws1 a = Some (view_account X (ws_data ws1) acc)" using acc by (rule view_cached)
  then have n: "acc_nonce acc \<noteq> 0" using assms(4) by (auto simp: numbered_def)
  have "reverts X J ws ws'"
    unfolding reverts_def
  proof (intro allI impI)
    fix D w' assume "restores X D ws' w'"
    then have "restores X (insert a D) ws1 w'" unfolding ws' using acc by (rule restores_set_code)
    moreover have "reverts X J ws ws1" using assms(1) by (simp add: advances_def)
    ultimately obtain w where "undo_actions J w' = Ret w" "restores X (insert a D - code_of J) ws w"
      unfolding reverts_def by blast
    moreover have "insert a D - code_of J = D - code_of J" using assms(2) by blast
    ultimately show "\<exists>w. undo_actions J w' = Ret w \<and> restores X (D - code_of J) ws w" by auto
  qed
  moreover have "(good (view X ws1) \<longrightarrow> good (view X ws')) \<and> total_supply (view X ws') = total_supply (view X ws1) \<and>
    (\<forall>b. numbered (view X ws1) b \<longrightarrow> numbered (view X ws') b) \<and> (\<forall>b. live (view X ws1) b \<longrightarrow> live (view X ws') b)"
  proof -
    have "total_supply (view X ws') = total_supply (view X ws1)"
      using supply_upd [of "view X ws1" a "(view_account X (ws_data ws1) acc)\<lparr>v_code := c\<rparr>"] v
      by (simp add: ws' bal_def)
    moreover have "tidy (view X ws1) \<Longrightarrow> tidy (view X ws')"
      unfolding ws' using n by (simp add: tidy_upd tidy1_def)
    ultimately show ?thesis using n v by (auto simp: good_def numbered_def live_def ws')
  qed
  ultimately show ?thesis
    using assms(1) ws' by (auto simp: advances_def intro: same_store_trans)
qed

section \<open>Opcodes without sub-calls\<close>

lemma sstore_opcode_journals:
  assumes "sstore_opcode X env evm lv ws ss = Ret (evm', lv', ws', ss')" "live (view X ws) (i_address env)"
  shows "\<exists>J. journals X J lv ws lv' ws'"
proof -
  from assms(1) obtain key val pv ws1 where g: "get_storage_value X ws (i_address env) key = Ret (pv, ws1)"
    and j: "journaled X (Sstorage (i_address env) key 0)
       (if val = 0 then remove_storage (i_address env) key else set_storage (i_address env) key val) lv ws1
       = Ret (lv', ws')"
    by (auto simp: sstore_opcode_def Let_def)
  have r: "reads X ws ws1" using g by (rule get_storage_value_reads)
  have "live (view X ws1) (i_address env)" using assms(2) reads_view [OF r] by simp
  from sstore_journals [OF j this] journals_trans_reads [OF r] show ?thesis by blast
qed

lemma selfdestruct_transfer_cases:
  assumes "selfdestruct_transfer X v a to b lv ws = Ret (lv', ws')"
  obtains (self) "a = to" "journaled X (ResetBalance a 0) (reset_balance a) lv ws = Ret (lv', ws')"
  | (old) "v \<le> TangerineWhistle"
  | (nothing) "lv' = lv" "ws' = ws"
  | (transfer) lv1 ws1 where "a \<noteq> to" "ensure_account X v to lv ws = Ret (lv1, ws1)"
      "journaled X (SendEth a to b) (transfer_eth a to b) lv1 ws1 = Ret (lv', ws')"
  using assms unfolding selfdestruct_transfer_def
  apply (split if_split_asm)
  subgoal by (rule self)
  apply (split if_split_asm)
  subgoal by (rule old) simp
  apply (split if_split_asm)
  subgoal by (elim RetE) (auto intro: transfer)
  by (rule nothing) simp_all

lemma selfdestruct_opcode_journals:
  assumes "selfdestruct_opcode X env evm lv ws ss = Ret (evm', lv', ws', ss')" "SpuriousDragon \<le> e_version evm"
    and "good (view X ws)"
  shows "\<exists>J. journals X J lv ws lv' ws'"
proof -
  let ?a = "i_address env"
  from assms(1) obtain to b ws1 where g: "get_balance X ws ?a = Ret (Some b, ws1)"
    and t: "selfdestruct_transfer X (e_version evm) ?a to b lv ws1 = Ret (lv', ws')"
    by (auto simp: selfdestruct_opcode_def Let_def res_simps)
  have r: "reads X ws ws1" using g by (rule getters_reads)
  have b: "b = bal (view X ws1) ?a"
    using get_balance_view [OF g] reads_view [OF r] by (cases "view X ws ?a") (auto simp: bal_def)
  have "\<not> e_version evm \<le> TangerineWhistle" using assms(2) by (simp add: version_order)
  with t consider "journaled X (ResetBalance ?a 0) (reset_balance ?a) lv ws1 = Ret (lv', ws')"
    | "lv' = lv" "ws' = ws1"
    | lv1 ws2 where "?a \<noteq> to" "ensure_account X (e_version evm) to lv ws1 = Ret (lv1, ws2)"
        "journaled X (SendEth ?a to b) (transfer_eth ?a to b) lv1 ws2 = Ret (lv', ws')"
    by (elim selfdestruct_transfer_cases) simp_all
  then have "\<exists>J. journals X J lv ws1 lv' ws'"
  proof cases
    case 1
    then show ?thesis by (blast dest: reset_balance_journals)
  next
    case 2
    then show ?thesis by (auto intro: exI [of _ "[]"])
  next
    case 3
    note en = ensure_account_journals [OF 3(2)]
    from en(1) obtain J where J: "journals X J lv ws1 lv1 ws2" by blast
    have "good (view X ws2)" using journals_good [OF J] assms(3) reads_view [OF r] by simp
    moreover have "b \<le> bal (view X ws2) ?a" using en(2) b by simp
    ultimately have "journals X [SendEth ?a to b] lv1 ws2 lv' ws'" by (rule send_journals(1) [OF 3(3,1)])
    with journals_trans [OF J] show ?thesis by blast
  qed
  with journals_trans_reads [OF r] show ?thesis by blast
qed

section \<open>The contract\<close>

text \<open>Undoing a frame: its own entries restore the view, then the entries it found are undone too.\<close>

lemma undo_frame_undoes:
  assumes "journals X J lv ws lv1 ws1" "undo_frame lv1 ws1 ss = Ret (lv', ws', ss')"
  shows "\<exists>w. restores X {} ws w \<and> undo_actions (lv_journal lv) w = Ret ws' \<and> lv_journal lv' = []"
  using assms(2)
proof (cases rule: undo_frame_cases)
  case 1
  from assms(1) have j: "lv_journal lv1 = J @ lv_journal lv" "reverts X J ws ws1"
    by (simp_all add: journals_def advances_def)
  moreover have "restores X {} ws1 ws1" by simp
  ultimately obtain w where "undo_actions J ws1 = Ret w" "restores X ({} - code_of J) ws w"
    unfolding reverts_def by blast
  with 1 j(1) show ?thesis by (auto simp: undo_actions_append)
qed

lemma undo_frame_restores:
  assumes "journals X J lv ws lv1 ws1" "lv_journal lv = []" "undo_frame lv1 ws1 ss = Ret (lv', ws', ss')"
  shows "restores X {} ws ws' \<and> lv_journal lv' = []"
  using undo_frame_undoes [OF assms(1,3)] assms(2) by auto

lemma journals_backup [simp]: "journals X J (lv\<lparr>lv_substate_backup := b\<rparr>) ws lv' ws' = journals X J lv ws lv' ws'"
  by (simp add: journals_def)

text \<open>What a call or creation that started with an empty journal promises.\<close>

primrec outcome ::
  "call_result \<Rightarrow> ('t, 'r) ext \<Rightarrow> leviathan \<Rightarrow> ('t, 'r) world_state \<Rightarrow> leviathan \<Rightarrow> ('t, 'r) world_state \<Rightarrow> bool"
where
  "outcome (COk _ _ _) X lv ws lv' ws' \<longleftrightarrow> (\<exists>J. journals X J lv ws lv' ws')"
| "outcome (CErr _ _ _) X lv ws lv' ws' \<longleftrightarrow> restores X {} ws ws' \<and> lv_journal lv' = []"

locale reverting_runner = runner +
  assumes run_journals: "run env evm lv ws ss = Ret (r, evm', lv', ws', ss') \<Longrightarrow>
      SpuriousDragon \<le> e_version evm \<Longrightarrow> good (view X ws) \<Longrightarrow>
      i_byte env = [] \<or> live (view X ws) (i_address env) \<Longrightarrow> \<exists>J. journals X J lv ws lv' ws'"
begin

lemma run_contract_journals:
  assumes "run_contract X run c env g lv ws ss = Ret (r, lv', ws', ss')" "SpuriousDragon \<le> lv_version lv"
    and "good (view X ws)" "c = i_address env \<or> live (view X ws) (i_address env)"
  shows "\<exists>J. journals X J lv ws lv' ws'"
  using assms(1)
proof (cases rule: run_contract_cases)
  case precompile
  then show ?thesis by (auto intro: exI [of _ "[]"])
next
  case (code code ws1 env1 evm0 res evm1)
  note r = getters_reads(4) [OF code(2)]
  have "i_byte env1 = [] \<or> live (view X ws1) (i_address env1)"
  proof (cases "i_byte env1 = []")
    case False
    then have "code \<noteq> None" "unwrap_or code [] \<noteq> []" using code(3) by (cases code; simp)+
    then have "live (view X ws) c"
      using get_code_view [OF code(2)] by (cases "view X ws c") (auto simp: live_def)
    with assms(4) code(3) show ?thesis by (auto simp: reads_view [OF r])
  qed simp
  with run_journals [OF code(5)] assms(2,3) code(4) reads_view [OF r]
  have "\<exists>J. journals X J lv ws1 lv' ws'" by (simp add: evm_new_def Let_def)
  with r show ?thesis by (blast intro: journals_trans_reads)
qed

lemma message_call_runs:
  assumes "message_call X run lv ws ss s o' r c g p e av d dep sudo h = Ret (res, lv', ws', ss')"
    and "SpuriousDragon \<le> lv_version lv" "good (view X ws)"
    and "e = 0 \<or> s = r \<or> e \<le> bal (view X ws) s" "c = r \<or> live (view X ws) r"
  obtains (dead) "res = CErr g None None" "lv_journal lv' = lv_journal lv" "reads X ws ws'"
      "s = r" "\<not> e \<le> bal (view X ws) s"
  | (ran) J lv1 ws1 ss1 where "journals X J lv ws lv1 ws1"
      "(\<exists>g' out. res = COk g' out None \<and> lv' = lv1 \<and> ws' = ws1) \<or>
       (\<exists>g' x. res = CErr g' x None \<and> undo_frame lv1 ws1 ss1 = Ret (lv', ws', ss'))"
  using assms(1)
proof (cases rule: message_call_cases)
  case (dead ss1 ss2)
  have d: "e \<noteq> 0 \<and> is_dead X (lv_version lv) ws s = Ret (True, ws')"
    using dead(3) by (cases rule: transfer_value_cases) auto
  then have "bal (view X ws) s = 0" using funded_not_dead assms(2) by blast
  with d have "\<not> e \<le> bal (view X ws) s" by simp
  with assms(4) d have "s = r" by simp
  with \<open>\<not> e \<le> bal (view X ws) s\<close> transfer_value_journals(2) [OF dead(3)] assms(2-4) dead(4) show ?thesis
    by (intro that(1)) auto
next
  case (run ss1 ss2 lv2 ws1 env result lv3 ws2 ss3)
  from transfer_value_journals(1) [OF run(3)] assms(2-4) obtain J where J: "journals X J lv ws lv2 ws1" by auto
  have "lv_version lv2 = lv_version lv" using transfer_value_frame [OF run(3)] by (simp add: lv_ext_def)
  with run_contract_journals [OF run(5)] assms(2,5) run(4) journals_good [OF J assms(3)] journals_live [OF J]
  obtain K where "journals X K lv2 ws1 lv3 ws2" by auto
  with J have "journals X (K @ J) lv ws lv3 ws2" by (rule journals_trans)
  with run(6) show ?thesis by (intro that(2)) auto
qed

lemma message_call_outcome:
  assumes "message_call X run lv ws ss s o' r c g p e av d dep sudo h = Ret (res, lv', ws', ss')"
    and "SpuriousDragon \<le> lv_version lv" "lv_journal lv = []" "good (view X ws)"
    and "e = 0 \<or> s = r \<or> e \<le> bal (view X ws) s" "c = r \<or> live (view X ws) r"
  shows "outcome res X lv ws lv' ws'"
  using assms(1,2,4-6)
proof (cases rule: message_call_runs)
  case dead
  with assms(3) show ?thesis by (auto intro: reads_restores)
next
  case (ran J lv1 ws1 ss1)
  with undo_frame_restores [OF ran(1) assms(3)] show ?thesis by auto
qed

lemma contract_creation_outcome:
  assumes "contract_creation X run lv ws ss s o' g p e init dep salt sudo h = Ret (res, lv', ws', ss')"
    and "SpuriousDragon \<le> lv_version lv" "lv_journal lv = []" "good (view X ws)"
    and "numbered (view X ws) s" "e \<le> bal (view X ws) s"
  shows "outcome res X lv ws lv' ws'"
  using assms(1)
proof (cases rule: contract_creation_cases)
  case (collision bytes ws1 a)
  with address_preimage_reads [OF collision(1)] is_collision_reads [OF collision(3)] assms(3) show ?thesis
    by (auto intro: reads_restores reads_trans)
next
  case (dead bytes ws1 a ws2 ss1 ss2)
  note r1 = address_preimage_reads [OF dead(1)]
  with free_address [OF dead(3)] assms(4) have f: "vacant (view X ws1) a" "\<not> numbered (view X ws1) a" "reads X ws1 ws2"
    by (auto simp: reads_view)
  with init_account_journals [OF dead(6)] assms(2,4-6) r1 show ?thesis by (auto simp: reads_view)
next
  case (run bytes ws1 a ws2 ss1 ss2 lv2 ws3 env evm r evm1 lv3 ws4 ss3)
  note r1 = address_preimage_reads [OF run(1)]
  with free_address [OF run(3)] assms(4) have f: "vacant (view X ws1) a" "\<not> numbered (view X ws1) a" "reads X ws1 ws2"
    by (auto simp: reads_view)
  have r2: "reads X ws ws2" using r1 f(3) by (rule reads_trans)
  with init_account_journals [OF run(6)] assms(2,4-6) r1 f obtain J where J: "journals X J lv ws2 lv2 ws3"
    "a \<in> code_of J" and n: "numbered (view X ws3) a" by (auto simp: reads_view)
  have ver: "lv_version lv2 = lv_version lv" using init_account_frame [OF run(6)] by (simp add: lv_ext_def)
  have "good (view X ws3)" using journals_good [OF J(1)] assms(4) reads_view [OF r2] by simp
  with run_journals [OF run(9)] ver assms(2) numbered_live [OF n] run(7,8) obtain K where
    K: "journals X K lv2 ws3 lv3 ws4" by (auto simp: evm_new_def Let_def)
  have KJ: "journals X (K @ J) lv ws lv3 ws4" using journals_trans_reads [OF r2 journals_trans [OF J(1) K]] .
  from run(10) show ?thesis
  proof (elim disjE exE conjE)
    fix out g' assume "deposit_code (lv_version lv3) a (e_gas evm1) out ws4 = Ret (Some (g', ws'))"
      and res: "res = COk g' [] (Some a)" "lv' = lv3"
    moreover have "Homestead \<le> lv_version lv3"
      using ver assms(2) run_frame [OF run(9)] by (auto simp: op_frame_def lv_ext_def version_order)
    ultimately have sc: "set_code a out ws4 = Ret ws'"
      by (auto simp: deposit_code_def Let_def split: if_splits)
    have "advances X (K @ J) ws ws'"
      by (rule deposit_advances [OF _ _ sc])
         (use KJ J(2) journals_numbered [OF K n] in \<open>auto simp: journals_def\<close>)
    with KJ res show ?thesis by (auto simp: journals_def)
  next
    fix g' d assume "undo_frame lv3 ws4 ss3 = Ret (lv', ws', ss')" "res = CErr g' d None"
    with undo_frame_restores [OF KJ assms(3)] show ?thesis by simp
  qed
qed

lemma undo_frame_substate:
  assumes "undo_frame lv ws ss = Ret (lv', ws', ss')" "grown ss0 ss" "lv_substate_backup lv = backup ss0"
  shows "a_log ss' = a_log ss0 \<and> a_des ss' = a_des ss0 \<and> a_reimburse ss' = a_reimburse ss0"
  using assms(1) by (cases rule: undo_frame_cases) (auto simp: assms(3) road_backup_grown [OF assms(2)])

lemma failed_call_substate:
  assumes "message_call X run lv ws ss s o' r c g p e av d dep sudo h = Ret (CErr g' x a, lv', ws', ss')"
  shows "a_log ss' = a_log ss \<and> a_des ss' = a_des ss \<and> a_reimburse ss' = a_reimburse ss"
  using assms
proof (cases rule: message_call_cases)
  case (run ss1 ss2 lv2 ws1 env result lv3 ws2 ss3)
  have "op_frame lv2 ws1 ss2 lv3 ws2 ss3" using run_contract_frame [OF run(5)] by blast
  moreover have "grown ss1 ss2" unfolding run(2) by (rule grown_updates)
  moreover have "lv_substate_backup lv2 = backup ss1"
    using transfer_value_frame [OF run(3)] by (simp add: lv_ext_def)
  ultimately have g: "grown ss1 ss3" "lv_substate_backup lv3 = backup ss1"
    by (auto simp: op_frame_def lv_ext_def intro: grown_trans)
  from run(6) have "undo_frame lv3 ws2 ss3 = Ret (lv', ws', ss')" by auto
  from undo_frame_substate [OF this g] run(1) show ?thesis by simp
qed simp

lemma failed_creation_substate:
  assumes "contract_creation X run lv ws ss s o' g p e init dep salt sudo h = Ret (CErr g' x a, lv', ws', ss')"
  shows "a_log ss' = a_log ss \<and> a_des ss' = a_des ss \<and> a_reimburse ss' = a_reimburse ss"
  using assms
proof (cases rule: contract_creation_cases)
  case (run bytes ws1 b ws2 ss1 ss2 lv2 ws3 env evm r evm1 lv3 ws4 ss3)
  have "op_frame lv2 ws3 ss2 lv3 ws4 ss3" using run_frame [OF run(9)] by blast
  moreover have "grown ss1 ss2" unfolding run(5) by (rule grown_updates)
  moreover have "lv_substate_backup lv2 = backup ss1"
    using init_account_frame [OF run(6)] by (simp add: lv_ext_def)
  ultimately have g: "grown ss1 ss3" "lv_substate_backup lv3 = backup ss1"
    by (auto simp: op_frame_def lv_ext_def intro: grown_trans)
  from run(10) have "undo_frame lv3 ws4 ss3 = Ret (lv', ws', ss')" by auto
  from undo_frame_substate [OF this g] run(4) show ?thesis by simp
qed simp_all

lemma call_body_journals:
  assumes "call_body X run env nb s r c g e av d p oo os evm lv ws ss = Ret (evm', lv', ws', ss')"
    and "SpuriousDragon \<le> e_version evm" "good (view X ws)"
    and "\<not> nb \<Longrightarrow> e = 0 \<or> s = r \<or> e \<le> bal (view X ws) s" "c = r \<or> live (view X ws) r"
  shows "\<exists>J. journals X J lv ws lv' ws'"
proof -
  consider "lv' = lv" "ws' = ws"
    | res child where "\<not> nb"
      "message_call X run (leviathan_new (e_version evm)) ws ss s (i_origin env) r c g (i_gas_price env)
         e av d (i_depth env + 1) p (i_block_header env) = Ret (res, child, ws', ss')"
      "finish_call oo os res child evm lv = Ret (evm', lv')"
    using assms(1) by (auto simp: call_body_def split: if_splits)
  then show ?thesis
  proof cases
    case 1
    then show ?thesis by (auto intro: exI [of _ "[]"])
  next
    case 2
    from message_call_outcome [OF 2(2)] assms(2-5) 2(1)
    have "outcome res X (leviathan_new (e_version evm)) ws child ws'" by simp
    with 2(3) show ?thesis
      by (cases res) (auto simp: finish_call_def merge_def journals_def split: option.splits
          intro: advances_restores exI [of _ "[]"])
  qed
qed

lemma create_body_journals:
  assumes "create_body X run env val off sz salt evm lv ws ss = Ret (evm', lv', ws', ss')"
    and "SpuriousDragon \<le> e_version evm" "good (view X ws)"
  shows "\<exists>J. journals X J lv ws lv' ws'"
proof -
  let ?a = "i_address env"
  from assms(1) obtain b ws1 where b: "get_balance X ws ?a = Ret (b, ws1)"
    by (auto simp: create_body_def)
  have r: "reads X ws ws1" using b by (rule getters_reads)
  have bal: "unwrap_or b 0 = bal (view X ws1) ?a"
    using get_balance_view [OF b] reads_view [OF r] by (cases "view X ws ?a") (auto simp: bal_def)
  from assms(1) b consider "lv' = lv" "ws' = ws1"
    | lv1 ws2 g data res child evm2 where "\<not> unwrap_or b 0 < val"
      "journaled X (AddNonce ?a) (inc_nonce ?a) lv ws1 = Ret (lv1, ws2)"
      "contract_creation X run (leviathan_new (e_version evm)) ws2 ss ?a (i_origin env) g (i_gas_price env)
         val data (i_depth env + 1) salt (i_permission env) (i_block_header env) = Ret (res, child, ws', ss')"
      "finish_create res child evm2 lv1 = Ret (evm', lv')"
    by (auto simp: create_body_def Let_def split: if_splits)
  then show ?thesis
  proof cases
    case 1
    with journals_reads [OF r] show ?thesis by blast
  next
    case 2
    note nj = inc_nonce_journals [OF 2(2)]
    have "bal (view X ws2) ?a = bal (view X ws1) ?a"
      using 2(2) by (auto simp: journaled_def action_push_def inc_nonce_def res_simps bal_def view_cached split: if_splits)
    with 2(1) bal have "val \<le> bal (view X ws2) ?a" by simp
    moreover have "good (view X ws2)" using journals_good [of X _ lv ws1 lv1 ws2] nj assms(3) reads_view [OF r] by auto
    ultimately have "outcome res X (leviathan_new (e_version evm)) ws2 child ws'"
      using contract_creation_outcome [OF 2(3)] assms(2) nj by simp
    with 2(4) have "\<exists>K. journals X K lv1 ws2 lv' ws'"
      by (cases res) (auto simp: finish_create_def merge_def journals_def split: option.splits
          intro: advances_restores exI [of _ "[]"])
    with nj journals_trans journals_trans_reads [OF r] show ?thesis by blast
  qed
qed

lemma call_opcodes_journals:
  assumes "call_opcode X run env evm lv ws ss = Ret (evm', lv', ws', ss') \<or>
      callcode_opcode X run env evm lv ws ss = Ret (evm', lv', ws', ss')"
    and "SpuriousDragon \<le> e_version evm" "good (view X ws)" "live (view X ws) (i_address env)"
  shows "\<exists>J. journals X J lv ws lv' ws'"
proof -
  have body: "\<exists>J. journals X J lv ws lv' ws'"
    if "get_balance X ws (i_address env) = Ret (b, ws1)" "c = r \<or> r = i_address env"
      "call_input io isz oo osz (evm\<lparr>e_stack := rest\<rparr>) = Ret (d', evm8)"
      "call_body X run env (unwrap_or b 0 < e) (i_address env) r c g e av d p oo' osz'
         (evm8\<lparr>e_child_gas_mem := None\<rparr>) lv ws1 ss1 = Ret (evm', lv', ws', ss')"
    for b ws1 e r io isz oo osz rest d' evm8 c g av d p oo' osz' ss1
  proof -
    have r: "reads X ws ws1" using that(1) by (rule getters_reads)
    have v: "view X ws1 = view X ws" using r by (rule reads_view)
    have "unwrap_or b 0 = bal (view X ws) (i_address env)"
      using get_balance_view [OF that(1)] by (cases "view X ws (i_address env)") (auto simp: bal_def)
    then have "\<exists>J. journals X J lv ws1 lv' ws'"
      using call_input_version [OF that(3)] assms(2-4) that(2)
      by (intro call_body_journals [OF that(4)]) (auto simp: v)
    with journals_trans_reads [OF r] show ?thesis by blast
  qed
  from assms(1) show ?thesis
  proof
    assume "call_opcode X run env evm lv ws ss = Ret (evm', lv', ws', ss')"
    then show ?thesis
    proof (cases rule: call_opcode_cases)
      case (1 g0 to val io isz oo osz rest data evm8 ss1)
      then show ?thesis by (auto intro: body [OF _ _ 1(2)] exI [of _ "[]"])
    qed
  next
    assume "callcode_opcode X run env evm lv ws ss = Ret (evm', lv', ws', ss')"
    then show ?thesis
    proof (cases rule: callcode_opcode_cases)
      case (1 g0 to val io isz oo osz rest data evm8 ss1)
      then show ?thesis by (auto intro: body [OF _ _ 1(2)] exI [of _ "[]"])
    qed
  qed
qed

lemma delegate_opcodes_journals:
  assumes "delegatecall_opcode X run env evm lv ws ss = Ret (evm', lv', ws', ss') \<or>
      staticcall_opcode X run env evm lv ws ss = Ret (evm', lv', ws', ss')"
    and "SpuriousDragon \<le> e_version evm" "good (view X ws)" "live (view X ws) (i_address env)"
  shows "\<exists>J. journals X J lv ws lv' ws'"
  using assms(1)
proof
  assume "delegatecall_opcode X run env evm lv ws ss = Ret (evm', lv', ws', ss')"
  then show ?thesis
  proof (cases rule: delegatecall_opcode_cases)
    case (1 g0 to io isz oo osz rest data evm8 ss1)
    with call_input_version [OF 1(2)] assms(2-4) show ?thesis
      by (auto intro: call_body_journals exI [of _ "[]"])
  qed
next
  assume "staticcall_opcode X run env evm lv ws ss = Ret (evm', lv', ws', ss')"
  then show ?thesis
  proof (cases rule: staticcall_opcode_cases)
    case (1 g0 to io isz oo osz rest data evm8 ss1)
    with call_input_version [OF 1(2)] assms(2-4) show ?thesis
      by (auto intro: call_body_journals exI [of _ "[]"])
  qed
qed

lemma create_opcodes_journals:
  assumes "create_opcode X run env evm lv ws ss = Ret (evm', lv', ws', ss') \<or>
      create2_opcode X run env evm lv ws ss = Ret (evm', lv', ws', ss')"
    and "SpuriousDragon \<le> e_version evm" "good (view X ws)"
  shows "\<exists>J. journals X J lv ws lv' ws'"
proof -
  from assms(1) obtain val off sz salt st where
    "create_body X run env val off sz salt (evm\<lparr>e_stack := st\<rparr>) lv ws ss = Ret (evm', lv', ws', ss')"
    by (auto simp: create_opcode_def create2_opcode_def pop_eq_Ret)
  from create_body_journals [OF this] assms(2,3) show ?thesis by simp
qed

lemma dispatch_journals:
  assumes "dispatch X run opcode env evm lv ws ss = Ret (r, evm', lv', ws', ss')"
    and "SpuriousDragon \<le> e_version evm" "good (view X ws)" "opcode = 0 \<or> live (view X ws) (i_address env)"
  shows "\<exists>J. journals X J lv ws lv' ws'"
  using assms(1)
proof (cases rule: dispatch_cases)
  case environmental
  then show ?thesis using read_only_opcodes_quiet(1) [of X opcode env evm ws ss evm' ws' ss' lv]
    by (auto simp: quiet_def intro: journals_reads)
next
  case extcodecopy
  then show ?thesis using read_only_opcodes_quiet(2) [of X evm ws ss evm' ws' ss' lv]
    by (auto simp: quiet_def intro: journals_reads)
next
  case sload
  then show ?thesis using read_only_opcodes_quiet(3) [of X env evm ws ss evm' ws' ss' lv]
    by (auto simp: quiet_def intro: journals_reads)
next
  case block
  then show ?thesis by (auto dest: block_info_frame intro: journals_reads)
next
  case sstore
  with assms(4) show ?thesis by (auto intro: sstore_opcode_journals)
next
  case create
  with create_opcodes_journals assms(2,3) show ?thesis by blast
next
  case create2
  with create_opcodes_journals assms(2,3) show ?thesis by blast
next
  case call
  have "live (view X ws) (i_address env)" using assms(4) call(1) by simp
  with call call_opcodes_journals assms(2,3) show ?thesis by blast
next
  case callcode
  have "live (view X ws) (i_address env)" using assms(4) callcode(1) by simp
  with callcode call_opcodes_journals assms(2,3) show ?thesis by blast
next
  case delegatecall
  have "live (view X ws) (i_address env)" using assms(4) delegatecall(1) by simp
  with delegatecall delegate_opcodes_journals assms(2,3) show ?thesis by blast
next
  case staticcall
  have "live (view X ws) (i_address env)" using assms(4) staticcall(1) by simp
  with staticcall delegate_opcodes_journals assms(2,3) show ?thesis by blast
next
  case selfdestruct
  with selfdestruct_opcode_journals assms(2,3) show ?thesis by blast
qed (auto intro: exI [of _ "[]"])

lemma step_journals:
  assumes "safe_op X opcode ss env evm ws c evm1 ws1" "charged opcode c evm1 = Ret evm2"
    and "dispatch X run opcode env evm2 lv ws1 ss = Ret (r, evm', lv', ws', ss')"
    and "SpuriousDragon \<le> e_version evm" "good (view X ws)" "opcode = 0 \<or> live (view X ws) (i_address env)"
  shows "(\<exists>J. journals X J lv ws lv' ws') \<and> e_version evm' = e_version evm"
proof -
  from assms(1) have rd: "reads X ws ws1" and v: "e_version evm1 = e_version evm" by (auto simp: safe_op_def)
  have v2: "e_version evm2 = e_version evm" using charged_version [OF assms(2)] v by simp
  have "\<exists>J. journals X J lv ws1 lv' ws'"
    by (rule dispatch_journals [OF assms(3)]) (use v2 assms(4-6) reads_view [OF rd] in simp_all)
  with journals_trans_reads [OF rd] have "\<exists>J. journals X J lv ws lv' ws'" by blast
  with dispatch_version [OF assms(3)] v2 show ?thesis by simp
qed

lemma iter_journals: "reverting_runner X (evm_iter X run)"
proof (intro reverting_runner.intro reverting_runner_axioms.intro iter_runner)
  fix env evm lv ws ss r evm' lv' ws' ss'
  assume it: "evm_iter X run env evm lv ws ss = Ret (r, evm', lv', ws', ss')"
    and v: "SpuriousDragon \<le> e_version evm" and g: "good (view X ws)"
    and l: "i_byte env = [] \<or> live (view X ws) (i_address env)"
  have l': "current_opcode (i_byte env) (e_pc evm) = 0 \<or> live (view X ws) (i_address env)"
    using l by (auto simp: current_opcode_def)
  from it show "\<exists>J. journals X J lv ws lv' ws'"
  proof (cases rule: evm_iter_cases)
    case unsafe
    then show ?thesis by (auto intro: journals_reads)
  next
    case (halt opcode c evm1 ws1 evm2 b)
    with step_journals [OF halt(2-4) v g] l' show ?thesis by blast
  next
    case (continue opcode c evm1 ws1 evm2 evm3 lv1 ws3 ss1)
    from step_journals [OF continue(2-4) v g] l' continue(1) obtain J where J: "journals X J lv ws lv1 ws3"
      and v3: "e_version evm3 = e_version evm" by blast
    have "i_byte env = [] \<or> live (view X ws3) (i_address env)" using l journals_live [OF J] by blast
    with run_journals [OF continue(5)] v v3 journals_good [OF J g] obtain K where
      "journals X K lv1 ws3 lv' ws'" by auto
    with J journals_trans show ?thesis by blast
  qed
qed

end

lemma evm_run_reverting: "reverting_runner X (evm_run X n)"
proof (induction n)
  case 0
  show ?case by unfold_locales simp_all
next
  case (Suc n)
  then show ?case by (simp add: reverting_runner.iter_journals)
qed

interpretation reverting_interpreter: reverting_runner X "evm_run X n" for X n
  by (rule evm_run_reverting)

section \<open>Concrete inputs\<close>

lemma sample_view:
  "view sample_ext sample_world = [0x100 \<mapsto> view_account sample_ext sample_db (sample_account 1 50),
     0x200 \<mapsto> view_account sample_ext sample_db (sample_account 3 1000)]"
  by (rule ext) (auto simp: view_def sample_world_def mpt_view_def contain_mpt_def trie_lookup_def)

lemma sample_good: "good (view sample_ext sample_world)"
proof -
  have z: "total_supply Map.empty = 0" by (simp add: total_supply_def bal_def)
  have "total_supply (view sample_ext sample_world) = 1050"
    using supply_upd [of Map.empty "0x100" "view_account sample_ext sample_db (sample_account 1 50)"]
      supply_upd [of "[0x100 \<mapsto> view_account sample_ext sample_db (sample_account 1 50)]" "0x200"
        "view_account sample_ext sample_db (sample_account 3 1000)"]
    by (simp add: sample_view z bal_def)
  moreover have "tidy (view sample_ext sample_world)"
    by (auto simp: sample_view tidy_def tidy1_def)
  ultimately show ?thesis by (simp add: good_def)
qed

lemma sample_live: "live (view sample_ext sample_world) 0x100"
  by (simp add: sample_view live_def)

lemma sample_transfer:
  assumes "lv_version lv = Constantinople"
  shows "transfer_value sample_ext 0x200 2 30 lv sample_world =
     Ret (True, lv\<lparr>lv_journal := SendEth 0x200 2 30 # AccountCreation 2 # lv_journal lv\<rparr>,
       add_account 2 ((account_new sample_ext)\<lparr>acc_balance := 30\<rparr>)
         (add_account 0x200 (sample_account 3 970) (add_account 2 (account_new sample_ext) sample_world)))"
proof -
  have c: "ws_cache sample_world 2 = None" by (simp add: sample_world_def)
  show ?thesis
  by (simp add: transfer_value_def ensure_account_def is_dead_def is_empty_def is_physically_exist_def with_account_def
    contain_mpt_def trie_lookup_def add_cache_def assms c
    journaled_def action_push_def transfer_eth_def send_eth_def add_balance_def update_cached_def add_account_def account_new_def Let_def version_order)
qed

lemma sample_undo:
  "undo_actions (SendEth 0x200 2 30 # AccountCreation 2 # J)
     (add_account 2 ((account_new sample_ext)\<lparr>acc_balance := 30\<rparr>)
         (add_account 0x200 (sample_account 3 970) (add_account 2 (account_new sample_ext) sample_world))) =
     undo_actions J sample_world"
proof -
  have "[0x100 \<mapsto> sample_account 1 50, 0x200 \<mapsto> sample_account 3 1000]((2 :: address) := None) =
     [0x100 \<mapsto> sample_account 1 50, 0x200 \<mapsto> sample_account 3 1000]" by auto
  then show ?thesis
    by (simp add: undo_action_def transfer_eth_def send_eth_def add_balance_def update_cached_def add_account_def
      delete_account_def account_new_def sample_world_def fun_upd_twist)
qed

lemma sample_failed_call:
  assumes "lv_version lv = Constantinople" "undo_actions (lv_journal lv) sample_world = Ret w"
  shows "\<exists>lv' ws' ss'. message_call sample_ext (evm_run sample_ext n) lv sample_world
     substate_new 0x200 0x200 2 2 0 1 30 30 [] 0 True sample_header = Ret (CErr 0 None None, lv', ws', ss')"
  by (simp add: message_call_def sample_transfer run_contract_def precompiled_def sha256_def take_gas_def word_gas_def
     into_word_def undo_frame_def roleback_def sample_undo road_backup_def backup_def drain_from_def substate_new_def
     Let_def version_order assms del: undo_actions.simps(2))

lemma invalid_code_fails:
  assumes "i_byte env = [0xfe]" "e_pc evm = 0" "length (e_stack evm) \<le> 1024"
  shows "evm_run X (Suc n) env evm lv ws ss = Ret (RErr None, evm, lv, ws, ss)"
  using assms
  by (simp add: evm_iter_def current_opcode_def is_safe_def SAFE_TABLE_def fork_disabled_def gas_def
      GAS_TABLE_def is_safe_jump_def is_safe_returndata_def is_safe_static_def execution_def advance_pc_def
      dispatch_def sat_sub_def Let_def)

lemma sample_unknown:
  assumes "ws_cache sample_world a = None"
  shows "is_collision sample_ext sample_world a = Ret (False, sample_world)"
  by (simp add: is_collision_def get_nonce_def get_code_def is_storage_empty_def with_account_def
    contain_mpt_def trie_lookup_def Let_def assms add_cache_def)

lemma sample_init:
  assumes "lv_version lv = Constantinople"
  shows "\<exists>lv' ws'. init_account sample_ext 0x200 7 30 lv sample_world = Ret (True, lv', ws')"
proof -
  have c: "ws_cache sample_world 7 = None" by (simp add: sample_world_def)
  show ?thesis
  by (simp add: init_account_def ensure_account_def is_dead_def is_empty_def is_physically_exist_def with_account_def
    contain_mpt_def trie_lookup_def add_cache_def assms c new_nonce_def inc_nonce_def endow_account_def
    reset_storage_def set_code_def get_code_def
    journaled_def action_push_def transfer_eth_def send_eth_def add_balance_def update_cached_def add_account_def account_new_def Let_def version_order)
qed

lemma sample_failed_creation:
  "\<exists>lv' ws' ss'. contract_creation sample_ext (evm_run sample_ext (Suc 0)) (leviathan_new Constantinople) sample_world
     substate_new 0x200 0x200 9 1 30 [0xfe] 0 None True sample_header = Ret (CErr 0 None None, lv', ws', ss')"
proof -
  have c: "ws_cache sample_world 7 = None" by (simp add: sample_world_def)
  define ss1 where "ss1 = substate_new\<lparr>a_access := push_new 7 (a_access substate_new)\<rparr>"
  define ss2 where "ss2 = ss1\<lparr>a_touch := push_new 7 (a_touch ss1)\<rparr>"
  define lv1 where "lv1 = (leviathan_new Constantinople)\<lparr>lv_substate_backup := backup ss1\<rparr>"
  have v: "lv_version lv1 = Constantinople" by (simp add: lv1_def)
  obtain lv2 ws2 where i: "init_account sample_ext 0x200 7 30 lv1 sample_world = Ret (True, lv2, ws2)"
    using sample_init [OF v] by blast
  have fr: "lv_version lv2 = Constantinople" "lv_substate_backup lv2 = backup ss1"
    using init_account_frame [OF i] v by (simp_all add: lv_ext_def lv1_def)
  have "\<exists>ws3 ss3. undo_frame lv2 ws2 ss2 = Ret (lv2\<lparr>lv_journal := []\<rparr>, ws3, ss3)"
  proof -
    obtain J where "journals sample_ext J lv1 sample_world lv2 ws2"
      using init_account_journals [OF i] free_address [OF sample_unknown [OF c] sample_good]
      by (auto simp: v version_order sample_good [unfolded sample_view] numbered_def sample_view bal_def)
    then have "lv_journal lv2 = J" and r: "reverts sample_ext J sample_world ws2"
      by (simp_all add: journals_def advances_def lv1_def)
    moreover have "restores sample_ext {} ws2 ws2" by simp
    with r obtain w where "undo_actions J ws2 = Ret w" unfolding reverts_def by blast
    moreover have "grown ss1 ss2" unfolding ss2_def by (rule grown_updates)
    ultimately show ?thesis by (simp add: undo_frame_def roleback_def fr road_backup_grown)
  qed
  then obtain ws3 ss3 where u: "undo_frame lv2 ws2 ss2 = Ret (lv2\<lparr>lv_journal := []\<rparr>, ws3, ss3)" by blast
  show ?thesis
    by (simp add: contract_creation_def address_preimage_def get_nonce_def with_account_def from_word_def
      sample_unknown [OF c] Let_def ss1_def [symmetric] ss2_def [symmetric] lv1_def [symmetric] i u invalid_code_fails evm_new_def
      del: evm_run.simps)
qed

section \<open>Properties\<close>

text \<open>
  C7.  The journal reverts a frame: whatever a frame of a live account did, sub-calls included, undoing
  the entries it added to the journal never panics and puts back the nonce, balance, code and storage of
  every account.
\<close>

theorem run_journal_reverts:
  assumes "evm_run X n env evm lv ws ss = Ret (r, evm', lv', ws', ss')"
    and "SpuriousDragon \<le> e_version evm" "good (view X ws)" "live (view X ws) (i_address env)"
  shows "\<exists>J w. lv_journal lv' = J @ lv_journal lv \<and> undo_actions J ws' = Ret w \<and> view X w = view X ws"
proof -
  from reverting_interpreter.run_journals [OF assms(1-3)] assms(4) obtain J where
    "lv_journal lv' = J @ lv_journal lv" and r: "reverts X J ws ws'"
    by (auto simp: journals_def advances_def)
  moreover have "restores X {} ws' ws'" by simp
  with r obtain w where "undo_actions J ws' = Ret w" unfolding reverts_def by blast
  ultimately show ?thesis using reverts_view by blast
qed

theorem run_journal_reverts_witness:
  "\<exists>r evm' lv' ws' ss' J w. evm_run sample_ext (Suc 0) (sample_env []) (sample_machine [] 5)
      (leviathan_new Constantinople) sample_world substate_new = Ret (r, evm', lv', ws', ss') \<and>
    lv_journal lv' = J \<and> undo_actions J ws' = Ret w \<and> view sample_ext w = view sample_ext sample_world"
  using run_journal_reverts [OF sample_stop [of 0 5 "leviathan_new Constantinople" sample_world substate_new]]
    sample_stop [of 0 5 "leviathan_new Constantinople" sample_world substate_new] sample_good sample_live
  by (simp add: version_order del: evm_run.simps)

text \<open>
  C3.  No Ether is created: the sum of all balances after a frame, sub-calls, creations and
  self-destructions included, is at most the sum before, and the world stays well formed.
\<close>

theorem run_creates_no_ether:
  assumes "evm_run X n env evm lv ws ss = Ret (r, evm', lv', ws', ss')"
    and "SpuriousDragon \<le> e_version evm" "good (view X ws)" "live (view X ws) (i_address env)"
  shows "total_supply (view X ws') \<le> total_supply (view X ws) \<and> good (view X ws')"
  using reverting_interpreter.run_journals [OF assms(1-3)] assms(3,4) by (auto simp: journals_def advances_def)

theorem run_creates_no_ether_witness:
  "\<exists>r evm' lv' ws' ss'. evm_run sample_ext (Suc 0) (sample_env []) (sample_machine [] 5)
      (leviathan_new Constantinople) sample_world substate_new = Ret (r, evm', lv', ws', ss') \<and>
    total_supply (view sample_ext ws') \<le> total_supply (view sample_ext sample_world)"
  using run_creates_no_ether [OF sample_stop [of 0 5 "leviathan_new Constantinople" sample_world substate_new]]
    sample_stop [of 0 5 "leviathan_new Constantinople" sample_world substate_new] sample_good sample_live
  by (simp add: version_order del: evm_run.simps)

text \<open>
  C2.  A failed message call changes nothing: started with an empty journal, as every sub-call is, it puts
  back the view of every account, the value transferred included, and leaves the logs, the destroyed
  accounts and the refund counter as they were.
\<close>

theorem failed_call_restores:
  assumes "message_call X (evm_run X n) lv ws ss s o' r c g p e av d dep sudo h = Ret (CErr g' x a, lv', ws', ss')"
    and "SpuriousDragon \<le> lv_version lv" "lv_journal lv = []" "good (view X ws)"
    and "e = 0 \<or> s = r \<or> e \<le> bal (view X ws) s" "c = r \<or> live (view X ws) r"
  shows "view X ws' = view X ws \<and> a_log ss' = a_log ss \<and> a_des ss' = a_des ss \<and> a_reimburse ss' = a_reimburse ss"
  using reverting_interpreter.message_call_outcome [OF assms] reverting_interpreter.failed_call_substate [OF assms(1)]
  by (auto dest: restores_view)

theorem failed_call_restores_witness:
  "\<exists>lv' ws' ss'. message_call sample_ext (evm_run sample_ext 0) (leviathan_new Constantinople) sample_world
      substate_new 0x200 0x200 2 2 0 1 30 30 [] 0 True sample_header = Ret (CErr 0 None None, lv', ws', ss') \<and>
    view sample_ext ws' = view sample_ext sample_world"
proof -
  obtain lv' ws' ss' where m: "message_call sample_ext (evm_run sample_ext 0) (leviathan_new Constantinople)
      sample_world substate_new 0x200 0x200 2 2 0 1 30 30 [] 0 True sample_header = Ret (CErr 0 None None, lv', ws', ss')"
    using sample_failed_call [of "leviathan_new Constantinople" sample_world 0] by auto
  from failed_call_restores [OF m _ _ sample_good] m show ?thesis
    by (auto simp: version_order bal_def sample_view)
qed

text \<open>
  C8.  A failed contract creation changes nothing: neither the new account, nor its endowment, nor what
  its initialisation code did remains.
\<close>

theorem failed_creation_restores:
  assumes "contract_creation X (evm_run X n) lv ws ss s o' g p e init dep salt sudo h = Ret (CErr g' x a, lv', ws', ss')"
    and "SpuriousDragon \<le> lv_version lv" "lv_journal lv = []" "good (view X ws)"
    and "numbered (view X ws) s" "e \<le> bal (view X ws) s"
  shows "view X ws' = view X ws \<and> a_log ss' = a_log ss \<and> a_des ss' = a_des ss \<and> a_reimburse ss' = a_reimburse ss"
  using reverting_interpreter.contract_creation_outcome [OF assms]
    reverting_interpreter.failed_creation_substate [OF assms(1)]
  by (auto dest: restores_view)

theorem failed_creation_restores_witness:
  "\<exists>lv' ws' ss'. contract_creation sample_ext (evm_run sample_ext (Suc 0)) (leviathan_new Constantinople)
      sample_world substate_new 0x200 0x200 9 1 30 [0xfe] 0 None True sample_header =
        Ret (CErr 0 None None, lv', ws', ss') \<and> view sample_ext ws' = view sample_ext sample_world"
proof -
  obtain lv' ws' ss' where m: "contract_creation sample_ext (evm_run sample_ext (Suc 0))
      (leviathan_new Constantinople) sample_world substate_new 0x200 0x200 9 1 30 [0xfe] 0 None True sample_header =
        Ret (CErr 0 None None, lv', ws', ss')"
    using sample_failed_creation by blast
  from failed_creation_restores [OF m _ _ sample_good] m show ?thesis
    by (auto simp: version_order numbered_def bal_def sample_view)
qed

text \<open>
  C36.  The journal is never cleared when a call succeeds, so a failing call undoes more than itself:
  after its own entries it also undoes every entry that was in the journal when it started, those of
  earlier transactions executed by the same LEVIATHAN object included.
\<close>

theorem failed_call_undoes_older_entries:
  assumes "message_call X (evm_run X n) lv ws ss s o' r c g p e av d dep sudo h = Ret (CErr g' x a, lv', ws', ss')"
    and "SpuriousDragon \<le> lv_version lv" "good (view X ws)" "e \<le> bal (view X ws) s" "c = r \<or> live (view X ws) r"
  shows "\<exists>w. view X w = view X ws \<and> undo_actions (lv_journal lv) w = Ret ws' \<and> lv_journal lv' = []"
proof -
  have "e = 0 \<or> s = r \<or> e \<le> bal (view X ws) s" using assms(4) by simp
  from assms(1-3) this assms(5) show ?thesis
  proof (cases rule: reverting_interpreter.message_call_runs)
    case (ran J lv1 ws1 ss1)
    with undo_frame_undoes [OF ran(1)] restores_view show ?thesis by blast
  qed (use assms(4) in auto)
qed

theorem failed_call_undoes_older_entries_witness:
  "\<exists>lv' ws' ss' y. message_call sample_ext (evm_run sample_ext 0)
      ((leviathan_new Constantinople)\<lparr>lv_journal := [AddNonce 0x100]\<rparr>) sample_world
      substate_new 0x200 0x200 2 2 0 1 30 30 [] 0 True sample_header = Ret (CErr 0 None None, lv', ws', ss') \<and>
    view sample_ext ws' 0x100 = Some y \<and> v_nonce y = 0"
proof -
  let ?lv = "(leviathan_new Constantinople)\<lparr>lv_journal := [AddNonce 0x100]\<rparr>"
  obtain lv' ws' ss' where m: "message_call sample_ext (evm_run sample_ext 0) ?lv
      sample_world substate_new 0x200 0x200 2 2 0 1 30 30 [] 0 True sample_header = Ret (CErr 0 None None, lv', ws', ss')"
    using sample_failed_call [of ?lv _ 0] by (auto simp: undo_action_def dec_nonce_def update_cached_def)
  from failed_call_undoes_older_entries [OF m _ sample_good] obtain w where
    v: "view sample_ext w = view sample_ext sample_world" and u: "dec_nonce 0x100 w = Ret ws'"
    by (auto simp: version_order bal_def sample_view undo_action_def)
  from u obtain acc where acc: "ws_cache w 0x100 = Some acc" "ws' = add_account 0x100 (acc\<lparr>acc_nonce := acc_nonce acc - 1\<rparr>) w"
    by (auto simp: dec_nonce_def update_cached_def res_simps split: if_splits)
  have "view sample_ext w 0x100 = Some (view_account sample_ext (ws_data w) acc)" using acc(1) by (rule view_cached)
  then have "acc_nonce acc = 1" by (auto simp: v sample_view dest: arg_cong [where f = v_nonce])
  with m acc show ?thesis by auto
qed

end
