(* ===== verification/Locks.thy ===== *)
theory Locks
  imports Main
begin

text \<open>
  The locks of the node (\<open>src/src/bin/abci_node\<close>): the state and the cache of pending senders are
  behind \<open>RwLock\<close>s, the LEVIATHAN object behind a \<open>Mutex\<close>.  A handler is the sequence of the
  acquisitions and releases its guards perform; handlers run concurrently, one step at a time.
\<close>

section \<open>Handlers\<close>

datatype lock = CacheLock | StateLock | LeviathanLock

datatype mode = ReadMode | WriteMode

datatype lock_op = Acquire lock mode | Release lock

text \<open>\<open>validate_transaction\<close> keeps the cache guard while it reads the state on a miss.\<close>

definition check_tx_locks :: "lock_op list" where
  "check_tx_locks = [Acquire CacheLock WriteMode, Acquire StateLock WriteMode, Release StateLock, Release CacheLock]"

text \<open>On a hit the cache guard is the only one; the returns before the look-up take no lock.\<close>

definition check_tx_hit_locks :: "lock_op list" where
  "check_tx_hit_locks = [Acquire CacheLock WriteMode, Release CacheLock]"

text \<open>\<open>commit\<close> keeps the state guard while it clears the cache.\<close>

definition commit_locks :: "lock_op list" where
  "commit_locks = [Acquire StateLock ReadMode, Acquire CacheLock WriteMode, Release CacheLock, Release StateLock]"

text \<open>\<open>tx_execution\<close>, then the root hash in a scope of its own.\<close>

definition tx_execution_locks :: "lock_op list" where
  "tx_execution_locks =
     [Acquire StateLock WriteMode, Acquire LeviathanLock WriteMode, Release LeviathanLock, Release StateLock]"

definition finalize_locks :: "lock_op list" where
  "finalize_locks = tx_execution_locks @ [Acquire StateLock WriteMode, Release StateLock]"

definition init_chain_locks :: "lock_op list" where
  "init_chain_locks = [Acquire StateLock WriteMode, Release StateLock]"

text \<open>The queries read the state, \<open>get_logs\<close> twice; \<open>get_transaction_count\<close> takes it for writing.\<close>

definition query_locks :: "lock_op list" where
  "query_locks = [Acquire StateLock ReadMode, Release StateLock]"

definition get_logs_locks :: "lock_op list" where
  "get_logs_locks = query_locks @ query_locks"

definition transaction_count_locks :: "lock_op list" where
  "transaction_count_locks = [Acquire StateLock WriteMode, Release StateLock]"

section \<open>Interleavings\<close>

text \<open>A thread: the locks it holds and what it still has to do.\<close>

type_synonym thread = "(lock \<times> mode) list \<times> lock_op list"

definition may_acquire :: "thread list \<Rightarrow> nat \<Rightarrow> lock \<Rightarrow> mode \<Rightarrow> bool" where
  "may_acquire ts i l m \<longleftrightarrow>
     (\<forall>j<length ts. j \<noteq> i \<longrightarrow> (\<forall>m'. (l, m') \<in> set (fst (ts ! j)) \<longrightarrow> m = ReadMode \<and> m' = ReadMode))"

inductive lock_step :: "thread list \<Rightarrow> thread list \<Rightarrow> bool" where
  acquire: "i < length ts \<Longrightarrow> ts ! i = (held, Acquire l m # ops) \<Longrightarrow> may_acquire ts i l m \<Longrightarrow>
      lock_step ts (ts[i := ((l, m) # held, ops)])"
| release: "i < length ts \<Longrightarrow> ts ! i = (held, Release l # ops) \<Longrightarrow>
      lock_step ts (ts[i := (filter (\<lambda>(l', _). l' \<noteq> l) held, ops)])"

definition deadlocked :: "thread list \<Rightarrow> bool" where
  "deadlocked ts \<longleftrightarrow> (\<exists>t\<in>set ts. snd t \<noteq> []) \<and> (\<nexists>ts'. lock_step ts ts')"

definition started :: "lock_op list list \<Rightarrow> thread list" where
  "started = map (\<lambda>ops. ([], ops))"

section \<open>Lock order\<close>

text \<open>Every lock is acquired above those held, and a handler ends without locks.\<close>

primrec ordered :: "(lock \<Rightarrow> nat) \<Rightarrow> (lock \<times> mode) list \<Rightarrow> lock_op list \<Rightarrow> bool" where
  "ordered r held [] \<longleftrightarrow> held = []"
| "ordered r held (op # ops) \<longleftrightarrow>
     (case op of
        Acquire l m \<Rightarrow> (\<forall>(l', _)\<in>set held. r l' < r l) \<and> ordered r ((l, m) # held) ops
      | Release l \<Rightarrow> ordered r (filter (\<lambda>(l', _). l' \<noteq> l) held) ops)"

definition all_ordered :: "(lock \<Rightarrow> nat) \<Rightarrow> thread list \<Rightarrow> bool" where
  "all_ordered r ts \<longleftrightarrow> (\<forall>(held, ops)\<in>set ts. ordered r held ops)"

lemma all_ordered_nth: "all_ordered r ts \<Longrightarrow> i < length ts \<Longrightarrow> ts ! i = (held, ops) \<Longrightarrow> ordered r held ops"
  unfolding all_ordered_def by (metis (mono_tags, lifting) case_prodD nth_mem)

lemma all_ordered_upd: "all_ordered r ts \<Longrightarrow> ordered r held ops \<Longrightarrow> all_ordered r (ts[i := (held, ops)])"
  unfolding all_ordered_def using set_update_subset_insert [of ts i "(held, ops)"] by blast

lemma lock_step_ordered: "lock_step ts ts' \<Longrightarrow> all_ordered r ts \<Longrightarrow> all_ordered r ts'"
  by (induction rule: lock_step.induct) (fastforce intro: all_ordered_upd dest: all_ordered_nth)+

lemma steps_ordered: "lock_step\<^sup>*\<^sup>* ts ts' \<Longrightarrow> all_ordered r ts \<Longrightarrow> all_ordered r ts'"
  by (induction rule: rtranclp_induct) (auto intro: lock_step_ordered)

text \<open>In a deadlock every unfinished thread waits for a lock somebody else holds.\<close>

lemma deadlocked_waits:
  assumes "deadlocked ts" "i < length ts" "ts ! i = (held, op # ops)"
  obtains l m j m' where "op = Acquire l m" "j < length ts" "(l, m') \<in> set (fst (ts ! j))"
proof (cases op)
  case (Acquire l m)
  with assms have "\<not> may_acquire ts i l m" unfolding deadlocked_def by (blast intro: lock_step.acquire)
  then show ?thesis using Acquire that unfolding may_acquire_def by blast
next
  case (Release l)
  with assms show ?thesis unfolding deadlocked_def by (blast intro: lock_step.release)
qed

text \<open>A waiting thread waits for a lock whose holder waits for a higher one, without end.\<close>

lemma ordered_no_deadlock:
  assumes "all_ordered r ts"
  shows "\<not> deadlocked ts"
proof
  assume d: "deadlocked ts"
  define waits where "waits n \<longleftrightarrow> (\<exists>i held l m ops. i < length ts \<and> ts ! i = (held, Acquire l m # ops) \<and> r l = n)" for n
  have higher: "\<exists>k>n. waits k" if "waits n" for n
  proof -
    from that obtain i held l m ops where i: "i < length ts" "ts ! i = (held, Acquire l m # ops)" "r l = n"
      unfolding waits_def by blast
    from deadlocked_waits [OF d i(1,2)] obtain j m' where j: "j < length ts" "(l, m') \<in> set (fst (ts ! j))"
      by (metis lock_op.inject(1))
    obtain held' ops' where t: "ts ! j = (held', ops')" by (cases "ts ! j")
    have o: "ordered r held' ops'" using assms j(1) t by (rule all_ordered_nth)
    then obtain op ops'' where ops: "ops' = op # ops''" using j(2) t by (cases ops') auto
    from deadlocked_waits [OF d j(1)] t ops obtain l' mm where op: "op = Acquire l' mm" by metis
    have "r l < r l'" using o ops op j(2) t by auto
    moreover have "waits (r l')" unfolding waits_def using j(1) t ops op by blast
    ultimately show ?thesis using i(3) by blast
  qed
  from d obtain t where t: "t \<in> set ts" "snd t \<noteq> []" unfolding deadlocked_def by blast
  then obtain i where i: "i < length ts" "ts ! i = t" by (meson in_set_conv_nth)
  obtain held op ops where "t = (held, op # ops)" using t(2) by (cases t; cases "snd t") auto
  with deadlocked_waits [OF d i(1)] i(2) have "\<exists>n. waits n" unfolding waits_def by (metis i(1))
  moreover have "waits n \<Longrightarrow> n \<le> r CacheLock + r StateLock + r LeviathanLock" for n
  proof -
    assume "waits n"
    then obtain l where "r l = n" unfolding waits_def by blast
    then show ?thesis by (cases l) auto
  qed
  ultimately obtain n where "waits n" "\<And>k. waits k \<Longrightarrow> k \<le> n"
    using ex_has_greatest_nat [of waits] by (metis (no_types) GreatestI_nat Greatest_le_nat)
  with higher show False by (meson not_le)
qed

primrec pool_rank :: "lock \<Rightarrow> nat" where
  "pool_rank CacheLock = 0"
| "pool_rank StateLock = 1"
| "pool_rank LeviathanLock = 2"

primrec commit_rank :: "lock \<Rightarrow> nat" where
  "commit_rank StateLock = 0"
| "commit_rank CacheLock = 1"
| "commit_rank LeviathanLock = 2"

lemmas handler_locks = check_tx_locks_def check_tx_hit_locks_def commit_locks_def tx_execution_locks_def finalize_locks_def
  init_chain_locks_def
  query_locks_def get_logs_locks_def transaction_count_locks_def

lemma all_ordered_started: "all_ordered r (started progs) \<longleftrightarrow> (\<forall>p\<in>set progs. ordered r [] p)"
  by (auto simp: all_ordered_def started_def)

section \<open>Properties\<close>

text \<open>
  C26.  The handlers that run while the node accepts transactions never block each other for good: any
  number of CheckTx (with the sender cached or not), FinalizeBlock, InitChain and query handlers, or of Commit with the latter three,
  reach no deadlock in any interleaving.
\<close>

theorem handlers_no_deadlock:
  assumes "lock_step\<^sup>*\<^sup>* (started progs) ts"
    and "set progs \<subseteq> {check_tx_locks, check_tx_hit_locks, finalize_locks, init_chain_locks, query_locks, get_logs_locks,
        transaction_count_locks} \<or>
      set progs \<subseteq> {commit_locks, finalize_locks, init_chain_locks, query_locks, get_logs_locks, transaction_count_locks}"
  shows "\<not> deadlocked ts"
proof -
  have "all_ordered pool_rank (started progs) \<or> all_ordered commit_rank (started progs)"
    using assms(2)
  proof
    assume "set progs \<subseteq> {check_tx_locks, check_tx_hit_locks, finalize_locks, init_chain_locks, query_locks, get_logs_locks,
        transaction_count_locks}"
    then have "all_ordered pool_rank (started progs)"
      unfolding all_ordered_started by (auto simp: handler_locks dest!: subsetD)
    then show ?thesis ..
  next
    assume "set progs \<subseteq> {commit_locks, finalize_locks, init_chain_locks, query_locks, get_logs_locks, transaction_count_locks}"
    then have "all_ordered commit_rank (started progs)"
      unfolding all_ordered_started by (auto simp: handler_locks dest!: subsetD)
    then show ?thesis ..
  qed
  then show ?thesis using steps_ordered [OF assms(1)] ordered_no_deadlock by blast
qed

theorem handlers_no_deadlock_witness:
  "\<not> deadlocked (started [check_tx_locks, finalize_locks, check_tx_hit_locks, query_locks])"
  by (rule handlers_no_deadlock [OF rtranclp.rtrancl_refl]) simp

text \<open>
  C27.  CheckTx and Commit take the cache and the state in opposite orders: one of each, run
  concurrently, can reach a configuration in which neither can proceed.
\<close>

theorem check_tx_commit_deadlock:
  "\<exists>ts. lock_step\<^sup>*\<^sup>* (started [check_tx_locks, commit_locks]) ts \<and> deadlocked ts"
proof -
  let ?a = "([(CacheLock, WriteMode)], [Acquire StateLock WriteMode, Release StateLock, Release CacheLock])"
  let ?b = "([(StateLock, ReadMode)], [Acquire CacheLock WriteMode, Release CacheLock, Release StateLock])"
  have "lock_step (started [check_tx_locks, commit_locks]) [?a, ([], commit_locks)]"
    using lock_step.acquire [of 0 "started [check_tx_locks, commit_locks]" "[]" CacheLock WriteMode]
    by (simp add: started_def check_tx_locks_def may_acquire_def less_Suc_eq)
  moreover have "lock_step [?a, ([], commit_locks)] [?a, ?b]"
    using lock_step.acquire [of 1 "[?a, ([], commit_locks)]" "[]" StateLock ReadMode]
    by (simp add: commit_locks_def may_acquire_def less_Suc_eq)
  ultimately have "lock_step\<^sup>*\<^sup>* (started [check_tx_locks, commit_locks]) [?a, ?b]"
    by (meson converse_rtranclp_into_rtranclp r_into_rtranclp)
  moreover have "\<not> may_acquire [?a, ?b] 0 StateLock WriteMode" "\<not> may_acquire [?a, ?b] 1 CacheLock WriteMode"
    unfolding may_acquire_def by (auto intro: exI [of _ "1 :: nat"] exI [of _ "0 :: nat"])
  then have "\<nexists>ts'. lock_step [?a, ?b] ts'"
    by (auto elim!: lock_step.cases simp: less_Suc_eq)
  then have "deadlocked [?a, ?b]" unfolding deadlocked_def by simp
  ultimately show ?thesis by blast
qed

end
