(* ===== verification/Reference_State.thy ===== *)
theory Reference_State
  imports Sample
begin

text \<open>
  The first implementation of the \<open>State\<close> trait, \<open>src/src/leviathan/state_method.rs\<close>: a world state that
  is a hash map from addresses to accounts, without cache, trie or database.  The build replaced it by the
  trie-backed one of \<open>mpt_method.rs\<close> (theory \<open>World_State\<close>); here it serves as the reference the new one
  is compared with.
\<close>

section \<open>The reference implementation\<close>

text \<open>The fields of \<open>Account\<close> that the file uses.\<close>

record ref_account =
  ra_nonce :: u64
  ra_balance :: u256
  ra_storage :: "u256 \<rightharpoonup> u256"
  ra_code :: "byte list"

type_synonym ref_state = "address \<rightharpoonup> ref_account"

definition ref_is_empty :: "ref_state \<Rightarrow> address \<Rightarrow> bool" where
  "ref_is_empty m a =
     (case m a of
        Some acc \<Rightarrow> \<not> (ra_nonce acc \<noteq> 0 \<or> ra_balance acc \<noteq> 0 \<or> length (ra_code acc) \<noteq> 0 \<or>
          ra_storage acc \<noteq> Map.empty)
      | None \<Rightarrow> True)"





















section \<open>Operations as data\<close>







section \<open>The simulation\<close>

text \<open>The hash map keeps no slot with value 0: a slot is set to 0 by removing it.\<close>

definition represents_account :: "ref_account \<Rightarrow> account_view \<Rightarrow> bool" where
  "represents_account r v \<longleftrightarrow> ra_nonce r = v_nonce v \<and> ra_balance r = v_balance v \<and> ra_code r = v_code v \<and>
     (\<lambda>k. unwrap_or (ra_storage r k) 0) = v_storage v \<and> (\<forall>k. ra_storage r k \<noteq> Some 0)"

text \<open>The accounts an observer of the world state sees are those of the map.\<close>

definition represents :: "('t, 'r) ext \<Rightarrow> ref_state \<Rightarrow> ('t, 'r) world_state \<Rightarrow> bool" where
  "represents X m ws \<longleftrightarrow> (\<forall>a. rel_option represents_account (m a) (view X ws a))"

text \<open>The entries of the state trie decode, and exactly the empty code has the empty code's hash.\<close>

definition trie_sound :: "('t, 'r) ext \<Rightarrow> ('t, 'r) world_state \<Rightarrow> bool" where
  "trie_sound X ws \<longleftrightarrow>
     (\<forall>a bs. trie_lookup X ws a = Ret (Some bs) \<longrightarrow> x_decode_mpt X bs \<noteq> None) \<and>
     (\<forall>h c. db_get_code X (ws_data ws) (to_be_bytes h) = Some c \<longrightarrow> (c = [] \<longleftrightarrow> h = EMPTY_CODE_HASH))"

text \<open>An account that has storage has a nonce, a balance or code as well.\<close>

definition storage_has_owner :: "('t, 'r) ext \<Rightarrow> ('t, 'r) world_state \<Rightarrow> address \<Rightarrow> bool" where
  "storage_has_owner X ws a \<longleftrightarrow>
     (case view X ws a of
        None \<Rightarrow> True
      | Some v \<Rightarrow> v_nonce v \<noteq> 0 \<or> v_balance v \<noteq> 0 \<or> v_code v \<noteq> [] \<or> v_storage v = (\<lambda>_. 0))"





lemma represents_account_updates [simp]:
  assumes "represents_account r v"
  shows "x \<noteq> 0 \<Longrightarrow> represents_account (r\<lparr>ra_storage := (ra_storage r)(k \<mapsto> x)\<rparr>) (v\<lparr>v_storage := (v_storage v)(k := x)\<rparr>)"
    and "represents_account (r\<lparr>ra_storage := (ra_storage r)(k := None)\<rparr>) (v\<lparr>v_storage := (v_storage v)(k := 0)\<rparr>)"
  using assms by (auto simp: represents_account_def fun_eq_iff)


text \<open>The map of an account is empty when an observer reads only zeros.\<close>

lemma represents_storage_empty:
  assumes "represents_account r v"
  shows "ra_storage r = Map.empty \<longleftrightarrow> v_storage v = (\<lambda>_. 0)"
proof
  assume "v_storage v = (\<lambda>_. 0)"
  then have "unwrap_or (ra_storage r k) 0 = 0" for k
    using assms by (auto simp: represents_account_def fun_eq_iff)
  moreover have "ra_storage r k \<noteq> Some 0" for k using assms by (simp add: represents_account_def)
  ultimately show "ra_storage r = Map.empty" by (metis (no_types) not_None_eq unwrap_or.simps(2) ext)
qed (use assms in \<open>auto simp: represents_account_def\<close>)

lemma representsD: "represents X m ws \<Longrightarrow> rel_option represents_account (m a) (view X ws a)"
  by (simp add: represents_def)







lemma is_empty_view:
  assumes "is_empty X ws a = Ret (b, ws')" "trie_sound X ws"
  shows "b \<longleftrightarrow> (case view X ws a of None \<Rightarrow> True | Some v \<Rightarrow> v_nonce v = 0 \<and> v_balance v = 0 \<and> v_code v = [])"
proof (cases "ws_cache ws a")
  case (Some acc)
  with assms(1) show ?thesis by (auto simp: is_empty_def view_cached)
next
  case None
  from assms(1) None obtain r where r: "trie_lookup X ws a = Ret r" by (auto simp: is_empty_def)
  show ?thesis
  proof (cases r)
    case None': None
    with assms(1) None r show ?thesis by (simp add: is_empty_def view_def mpt_view_def contain_mpt_def)
  next
    case (Some bs)
    with assms(2) r obtain m where m: "x_decode_mpt X bs = Some m" unfolding trie_sound_def by blast
    from assms(1) None r Some m have e: "bindR (add_cache X ws a m) (\<lambda>ws'.
        Ret (\<not> (m_nonce m \<noteq> 0 \<or> m_balance m \<noteq> 0 \<or> m_code_hash m \<noteq> EMPTY_CODE_HASH), ws')) = Ret (b, ws')"
      by (simp add: is_empty_def)
    then have b: "b \<longleftrightarrow> m_nonce m = 0 \<and> m_balance m = 0 \<and> m_code_hash m = EMPTY_CODE_HASH" by auto
    from e obtain c where c: "db_get_code X (ws_data ws) (to_be_bytes (m_code_hash m)) = Some c"
      by (auto simp: add_cache_def res_simps)
    from c assms(2) have "c = [] \<longleftrightarrow> m_code_hash m = EMPTY_CODE_HASH" unfolding trie_sound_def by blast
    with b c m None r Some show ?thesis by (simp add: view_def mpt_view_def contain_mpt_def)
  qed
qed


text \<open>Outside the condition the answers differ: the new one calls an account with nothing but storage empty.\<close>

lemma emptiness_differs:
  assumes "represents X m ws" "trie_sound X ws" "\<not> storage_has_owner X ws a" "is_empty X ws a = Ret (b, ws')"
  shows "b \<and> \<not> ref_is_empty m a"
  using representsD [OF assms(1), of a]
proof (cases rule: option.rel_cases)
  case (Some r v)
  with assms(3) represents_storage_empty [OF Some(3)] is_empty_view [OF assms(4,2)] show ?thesis
    by (auto simp: ref_is_empty_def storage_has_owner_def represents_account_def)
qed (use assms(3) in \<open>simp add: storage_has_owner_def\<close>)








lemma same_store_after_add [simp]: "same_store ws (add_account a acc ws1) \<longleftrightarrow> same_store ws ws1"
  by (simp add: same_store_def add_account_def)



section \<open>Properties\<close>



end
