(* ===== verification/Store.thy ===== *)
theory Store
  imports Sample
begin

text \<open>
  The contract of the database wrapper (\<open>Rocks_DB\<close>): it refines a store with one map per column family.
  Puts update the store, a successful flush keeps it, a database that is opened again shows it, and a
  lookup reads it unless another family has a pending write under the same key.  A failed flush loses the
  batch.
\<close>

section \<open>The store behind the wrapper\<close>

type_synonym kv_store = "cf \<Rightarrow> byte list \<rightharpoonup> byte list"

definition kv_put :: "cf \<Rightarrow> byte list \<Rightarrow> byte list \<Rightarrow> kv_store \<Rightarrow> kv_store" where
  "kv_put c k v s = s(c := (s c)(k \<mapsto> v))"

text \<open>The last write of a batch to a key of a family, and to a key of any family.\<close>

definition batch_value :: "write_batch \<Rightarrow> kv_store" where
  "batch_value b c k = map_of (rev (map (\<lambda>(c, k, v). ((c, k), v)) b)) (c, k)"

definition last_value :: "write_batch \<Rightarrow> byte list \<rightharpoonup> byte list" where
  "last_value b = map_of (rev (map snd b))"

definition on_disk :: "('t, 'r) ext \<Rightarrow> 'r \<Rightarrow> kv_store" where
  "on_disk X r c k = unwrap_or (x_get_cf X r c k) None"

text \<open>The contents of the wrapper: what is on disk, overwritten by the pending batch.\<close>

definition store_of :: "('t, 'r) ext \<Rightarrow> 'r rocks_db \<Rightarrow> kv_store" where
  "store_of X d c = on_disk X (db_handle d) c ++ batch_value (db_batch d) c"

text \<open>The overlay holds the last pending write of every key.\<close>

definition tracked :: "'r rocks_db \<Rightarrow> bool" where
  "tracked d \<longleftrightarrow> db_overlay d = (\<lambda>k. map_option Some (last_value (db_batch d) k))"

text \<open>No other family has a pending write under the key.\<close>

definition unshared :: "cf \<Rightarrow> byte list \<Rightarrow> 'r rocks_db \<Rightarrow> bool" where
  "unshared c k d \<longleftrightarrow> (\<forall>(c', k', v)\<in>set (db_batch d). k' = k \<longrightarrow> c' = c)"

text \<open>What RocksDB documents: a successful write applies the puts of the batch in order.\<close>

definition applies_batches :: "('t, 'r) ext \<Rightarrow> bool" where
  "applies_batches X \<longleftrightarrow> (\<forall>r b r'. x_write X r b = Some r' \<longrightarrow>
     (\<forall>c. on_disk X r' c = on_disk X r c ++ batch_value b c))"

lemma batch_value_Nil [simp]: "batch_value [] c = Map.empty"
  and batch_value_snoc: "batch_value (b @ [(c', k', v)]) c = (if c = c' then (batch_value b c)(k' \<mapsto> v) else batch_value b c)"
  by (auto simp: batch_value_def)

lemma last_value_Nil [simp]: "last_value [] = Map.empty"
  and last_value_snoc [simp]: "last_value (b @ [(c, k, v)]) = (last_value b)(k \<mapsto> v)"
  by (simp_all add: last_value_def)

lemma last_value_unshared:
  "\<forall>(c', k', v)\<in>set b. k' = k \<longrightarrow> c' = c \<Longrightarrow> last_value b k = batch_value b c k"
proof (induction b rule: rev_induct)
  case (snoc e b)
  then show ?case by (cases e) (auto simp: batch_value_snoc)
qed simp

lemma db_put_sel [simp]:
  "db_handle (db_put c k v d) = db_handle d"
  "db_batch (db_put c k v d) = db_batch d @ [(c, k, v)]"
  "db_overlay (db_put c k v d) = (db_overlay d)(k \<mapsto> Some v)"
  "db_block_number (db_put c k v d) = db_block_number d"
  by (simp_all add: db_put_def)

lemma rocks_db_new_sel [simp]:
  "db_handle (rocks_db_new r) = r" "db_batch (rocks_db_new r) = []" "db_overlay (rocks_db_new r) = Map.empty"
  "db_block_number (rocks_db_new r) = None"
  by (simp_all add: rocks_db_new_def)

lemma tracked_new [simp]: "tracked (rocks_db_new r)"
  by (simp add: tracked_def)

lemma tracked_put [simp]: "tracked d \<Longrightarrow> tracked (db_put c k v d)"
  by (auto simp: tracked_def)

lemma store_of_put: "store_of X (db_put c k v d) = kv_put c k v (store_of X d)"
  by (rule ext) (simp add: store_of_def kv_put_def batch_value_snoc)

lemma store_of_new [simp]: "store_of X (rocks_db_new r) = on_disk X r"
  by (rule ext) (simp add: store_of_def)

lemma lookup_store:
  assumes "tracked d" "unshared c k d"
  shows "db_lookup X c d k = store_of X d c k"
proof -
  have "last_value (db_batch d) k = batch_value (db_batch d) c k"
    using assms(2) by (intro last_value_unshared) (simp add: unshared_def)
  with assms(1) show ?thesis
    by (simp add: db_lookup_def tracked_def store_of_def on_disk_def map_add_def split: option.split)
qed

lemma flush_cases:
  assumes "db_flush X d = (ok, d')"
  obtains (written) r where "ok" "x_write X (db_handle d) (db_batch d) = Some r"
      "d' = d\<lparr>db_batch := [], db_handle := r, db_overlay := Map.empty\<rparr>"
  | (failed) "\<not> ok" "x_write X (db_handle d) (db_batch d) = None" "d' = d\<lparr>db_batch := []\<rparr>"
  using assms by (auto simp: db_flush_def Let_def split: option.splits)

lemma flush_store:
  assumes "db_flush X d = (True, d')" "applies_batches X"
  shows "store_of X d' = store_of X d" "tracked d'" "db_batch d' = []" "on_disk X (db_handle d') = store_of X d"
    "db_block_number d' = db_block_number d"
proof -
  from assms(1) obtain r where w: "x_write X (db_handle d) (db_batch d) = Some r"
    and d': "d' = d\<lparr>db_batch := [], db_handle := r, db_overlay := Map.empty\<rparr>"
    by (cases rule: flush_cases) simp_all
  from assms(2) w have "\<forall>c. on_disk X r c = on_disk X (db_handle d) c ++ batch_value (db_batch d) c"
    unfolding applies_batches_def by blast
  then have r: "on_disk X r = store_of X d" by (auto simp: store_of_def fun_eq_iff)
  with d' show "store_of X d' = store_of X d" by (auto simp: store_of_def fun_eq_iff)
  from d' r show "tracked d'" "db_batch d' = []" "on_disk X (db_handle d') = store_of X d"
    "db_block_number d' = db_block_number d"
    by (simp_all add: tracked_def)
qed

lemma flush_unshared [simp]: "db_batch d = [] \<Longrightarrow> unshared c k d"
  by (simp add: unshared_def)


section \<open>A database in memory\<close>

text \<open>The handle is the store itself; the second database fails to write anything.\<close>

definition memory_ext :: "(unit, kv_store) ext" where
  "memory_ext = sample_ext_on (\<lambda>r c k. Some (r c k)) (\<lambda>r b. Some (\<lambda>c. r c ++ batch_value b c))"

definition full_disk_ext :: "(unit, kv_store) ext" where
  "full_disk_ext = sample_ext_on (\<lambda>r c k. Some (r c k)) (\<lambda>r b. if b = [] then Some r else None)"

lemma on_disk_sample [simp]: "on_disk (sample_ext_on (\<lambda>r c k. Some (r c k)) w) r = r"
  by (simp add: on_disk_def fun_eq_iff)

lemma memory_applies [simp]: "applies_batches memory_ext" "applies_batches full_disk_ext"
  by (auto simp: applies_batches_def memory_ext_def full_disk_ext_def split: if_splits)

section \<open>Properties\<close>

text \<open>
  C19.  The wrapper refines a store with one map per column family, given that RocksDB applies the batches
  it accepts: a put is an update of the store; a lookup reads the store when no other family has a pending
  write under the key; a successful flush changes nothing that can be seen, leaves no pending write, and
  opening the database again gives the same store.  That the overlay holds the last pending write of each
  key is an invariant of these operations.
\<close>

theorem wrapper_refines_store:
  assumes "tracked d" "applies_batches X"
  shows "(\<forall>c k v. tracked (db_put c k v d) \<and> store_of X (db_put c k v d) = kv_put c k v (store_of X d)) \<and>
    (\<forall>c k. unshared c k d \<longrightarrow> db_lookup X c d k = store_of X d c k) \<and>
    (\<forall>d'. db_flush X d = (True, d') \<longrightarrow> tracked d' \<and> db_batch d' = [] \<and> store_of X d' = store_of X d \<and>
      store_of X (rocks_db_new (db_handle d')) = store_of X d)"
  using assms by (auto simp: store_of_put lookup_store flush_store)

theorem wrapper_refines_store_witness:
  "\<exists>d'. db_flush memory_ext (db_put CF_BLOCK [1] [2] (rocks_db_new (\<lambda>_. Map.empty))) = (True, d') \<and>
     store_of memory_ext (rocks_db_new (db_handle d')) CF_BLOCK [1] = Some [2]"
proof -
  let ?d = "db_put CF_BLOCK [1] [2] (rocks_db_new (\<lambda>_. Map.empty :: byte list \<rightharpoonup> byte list))"
  obtain d' where f: "db_flush memory_ext ?d = (True, d')" by (simp add: db_flush_def Let_def memory_ext_def)
  with wrapper_refines_store [of ?d memory_ext]
  have "store_of memory_ext (rocks_db_new (db_handle d')) = store_of memory_ext ?d" by auto
  moreover have "store_of memory_ext ?d CF_BLOCK [1] = Some [2]" by (simp add: store_of_put kv_put_def)
  ultimately have "store_of memory_ext (rocks_db_new (db_handle d')) CF_BLOCK [1] = Some [2]" by (simp only:)
  with f show ?thesis by blast
qed

text \<open>
  C28.  A flush that fails loses the pending writes, because it takes the batch out of the wrapper before it
  writes it: lookups go on answering from the overlay, but the next flush succeeds, clears the overlay, and
  leaves on disk what was there before the first one.
\<close>

theorem failed_flush_loses_batch:
  assumes "tracked d" "applies_batches X" "db_flush X d = (False, d1)" "db_flush X d1 = (True, d2)"
  shows "(\<forall>c k. db_lookup X c d1 k = db_lookup X c d k) \<and>
    (\<forall>c k. db_lookup X c d2 k = on_disk X (db_handle d) c k) \<and> on_disk X (db_handle d2) = on_disk X (db_handle d)"
proof -
  from assms(3) have d1: "d1 = d\<lparr>db_batch := []\<rparr>" by (cases rule: flush_cases) simp_all
  then have "store_of X d1 = on_disk X (db_handle d)" by (auto simp: store_of_def fun_eq_iff)
  with flush_store [OF assms(4,2)] show ?thesis
    by (simp add: lookup_store) (simp add: d1 db_lookup_def split: option.split)
qed

theorem failed_flush_loses_batch_witness:
  "\<exists>d1 d2. db_flush full_disk_ext (db_put CF_BLOCK [1] [2] (rocks_db_new (\<lambda>_. Map.empty))) = (False, d1) \<and>
     db_flush full_disk_ext d1 = (True, d2) \<and> db_lookup full_disk_ext CF_BLOCK d1 [1] = Some [2] \<and>
     db_lookup full_disk_ext CF_BLOCK d2 [1] = None"
proof -
  let ?d = "db_put CF_BLOCK [1] [2] (rocks_db_new (\<lambda>_. Map.empty :: byte list \<rightharpoonup> byte list))"
  obtain d1 where f: "db_flush full_disk_ext ?d = (False, d1)" "db_batch d1 = []"
    by (simp add: db_flush_def Let_def full_disk_ext_def)
  then obtain d2 where g: "db_flush full_disk_ext d1 = (True, d2)"
    by (simp add: db_flush_def Let_def full_disk_ext_def)
  from failed_flush_loses_batch [OF _ _ f(1) g] have "db_lookup full_disk_ext CF_BLOCK d1 [1] = Some [2]"
    "db_lookup full_disk_ext CF_BLOCK d2 [1] = None"
    by (simp_all add: db_lookup_put) (simp add: full_disk_ext_def)
  with f(1) g show ?thesis by blast
qed

end
