(* ===== verification/Commit.thy ===== *)
theory Commit
  imports World_View
begin

text \<open>
  Writing accounts to the tries: the commit at the end of a transaction
  (\<open>src/src/leviathan/leviathan.rs\<close>), the genesis account, the constructors of the world state and
  the readers of past states (\<open>src/src/leviathan/world_state.rs\<close>).

  A \<open>HashMap\<close> is iterated in an order the language leaves open.  Every definition that iterates one
  takes the sequence of its entries from an argument of type \<open>iteration\<close>, which ranges over all
  orders.
\<close>

section \<open>Iteration orders\<close>

record iteration =
  it_accounts :: "(address \<rightharpoonup> account) \<Rightarrow> (address \<times> account) list"
  it_slots :: "address \<Rightarrow> (u256 \<rightharpoonup> u256) \<Rightarrow> (u256 \<times> u256) list"

text \<open>An iteration visits every entry of a finite map exactly once.\<close>

definition enumerates :: "('k \<times> 'v) list \<Rightarrow> ('k \<rightharpoonup> 'v) \<Rightarrow> bool" where
  "enumerates kvs m \<longleftrightarrow> distinct (map fst kvs) \<and> map_of kvs = m"

definition iterates :: "iteration \<Rightarrow> bool" where
  "iterates it \<longleftrightarrow>
     (\<forall>m. finite (dom m) \<longrightarrow> enumerates (it_accounts it m) m) \<and>
     (\<forall>a m. finite (dom m) \<longrightarrow> enumerates (it_slots it a m) m)"

section \<open>Roots\<close>

text \<open>
  \<open>root_hash().unwrap()\<close>: the trie hands its new nodes to the database one by one; the removals it
  also asks for are ignored by \<open>trie_db_remove\<close>.
\<close>

definition trie_root ::
  "('t, 'r) ext \<Rightarrow> 'r rocks_db \<Rightarrow> 't \<Rightarrow> (b256 \<times> 't \<times> 'r rocks_db) res" where
  "trie_root X d t =
     bindR (unwrap (x_trie_root X d t)) (\<lambda>(root, t', nodes).
     Ret (root, t', fold (\<lambda>(k, v). trie_db_insert k v) nodes d))"

definition update_eth_trie ::
  "('t, 'r) ext \<Rightarrow> b256 \<Rightarrow> ('t, 'r) world_state \<Rightarrow> ('t, 'r) world_state res" where
  "update_eth_trie X state_root ws =
     bindR (unwrap (x_trie_from X (ws_data ws) state_root)) (\<lambda>new_eth_trie.
     Ret (ws\<lparr>ws_trie := new_eth_trie\<rparr>))"

text \<open>The two statements that end a commit.\<close>

definition publish_root :: "('t, 'r) ext \<Rightarrow> ('t, 'r) world_state \<Rightarrow> ('t, 'r) world_state res" where
  "publish_root X ws =
     bindR (trie_root X (ws_data ws) (ws_trie ws)) (\<lambda>(new_state_root, t, d).
     update_eth_trie X new_state_root (ws\<lparr>ws_data := d, ws_trie := t\<rparr>))"

section \<open>Accounts\<close>

definition slot_key :: "('t, 'r) ext \<Rightarrow> u256 \<Rightarrow> byte list" where
  "slot_key X k = to_be_bytes (x_keccak256 X (to_be_bytes k))"

definition account_key :: "('t, 'r) ext \<Rightarrow> address \<Rightarrow> byte list" where
  "account_key X a = to_be_bytes (x_keccak256 X (address_bytes a))"

text \<open>One iteration of the loop over the cached slots; the flag records a change.\<close>

definition write_slot ::
  "('t, 'r) ext \<Rightarrow> 'r rocks_db \<Rightarrow> u256 \<times> u256 \<Rightarrow> 't \<times> bool \<Rightarrow> ('t \<times> bool) res" where
  "write_slot X d = (\<lambda>(k, v) (t, changed).
     (let key_hash = slot_key X k;
          existing_val_opt = unwrap_or (x_trie_get X d t key_hash) None in
      if v = 0 then
        if existing_val_opt \<noteq> None then Ret (x_trie_remove X d t key_hash, True) else Ret (t, changed)
      else
        let val_rlp_bytes = x_encode_u256 X v in
        if existing_val_opt \<noteq> Some val_rlp_bytes then
          bindR (unwrap (x_trie_insert X d t key_hash val_rlp_bytes)) (\<lambda>t'. Ret (t', True))
        else Ret (t, changed)))"

primrec write_slots ::
  "('t, 'r) ext \<Rightarrow> 'r rocks_db \<Rightarrow> (u256 \<times> u256) list \<Rightarrow> 't \<times> bool \<Rightarrow> ('t \<times> bool) res" where
  "write_slots X d [] st = Ret st"
| "write_slots X d (kv # kvs) st = bindR (write_slot X d kv st) (write_slots X d kvs)"

text \<open>The storage root an account gets, and the database after its nodes were handed over.\<close>

definition commit_storage ::
  "('t, 'r) ext \<Rightarrow> (u256 \<times> u256) list \<Rightarrow> b256 \<Rightarrow> 'r rocks_db \<Rightarrow> (b256 \<times> 'r rocks_db) res" where
  "commit_storage X slots storage_hash d =
     bindR (unwrap (x_trie_from X d storage_hash)) (\<lambda>storage_trie.
     bindR (write_slots X d slots (storage_trie, False)) (\<lambda>(t, storage_changed).
     if storage_changed then bindR (trie_root X d t) (\<lambda>(root, _, d1). Ret (root, d1))
     else Ret (storage_hash, d)))"

definition store_code :: "('t, 'r) ext \<Rightarrow> byte list \<Rightarrow> 'r rocks_db \<Rightarrow> 'r rocks_db" where
  "store_code X code d =
     (let code_hash = to_be_bytes (x_keccak256 X code) in
      if db_get_code X d code_hash = None then insert_code code_hash code d else d)"

text \<open>The entry of the state trie is replaced when it is absent or differs.\<close>

definition put_account ::
  "('t, 'r) ext \<Rightarrow> address \<Rightarrow> byte list \<Rightarrow> ('t, 'r) world_state \<Rightarrow> ('t, 'r) world_state res" where
  "put_account X a rlp ws =
     (let address_hash = account_key X a;
          existing_mpt_val = unwrap_or (x_trie_get X (ws_data ws) (ws_trie ws) address_hash) None;
          should_insert = (case existing_mpt_val of None \<Rightarrow> True | Some old_rlp \<Rightarrow> old_rlp \<noteq> rlp) in
      if should_insert then
        bindR (unwrap (x_trie_insert X (ws_data ws) (x_trie_remove X (ws_data ws) (ws_trie ws) address_hash)
          address_hash rlp)) (\<lambda>t. Ret (ws\<lparr>ws_trie := t\<rparr>))
      else Ret ws)"

text \<open>The body of the loop over the cache.\<close>

definition commit_account ::
  "('t, 'r) ext \<Rightarrow> iteration \<Rightarrow> address \<times> account \<Rightarrow> ('t, 'r) world_state \<Rightarrow> ('t, 'r) world_state res" where
  "commit_account X it = (\<lambda>(a, acc) ws.
     bindR (commit_storage X (it_slots it a (acc_storage acc)) (acc_storage_hash acc) (ws_data ws))
       (\<lambda>(storage_root, d1).
     let d2 = store_code X (acc_code acc) d1;
         code_hash = x_keccak256 X (acc_code acc);
         mpt_account = mpt_account_new (acc_nonce acc) (acc_balance acc) storage_root code_hash in
     put_account X a (x_encode_mpt X mpt_account) (ws\<lparr>ws_data := d2\<rparr>)))"

primrec commit_accounts ::
  "('t, 'r) ext \<Rightarrow> iteration \<Rightarrow> (address \<times> account) list \<Rightarrow> ('t, 'r) world_state \<Rightarrow>
   ('t, 'r) world_state res" where
  "commit_accounts X it [] ws = Ret ws"
| "commit_accounts X it (e # es) ws = bindR (commit_account X it e ws) (commit_accounts X it es)"

definition commit_cache ::
  "('t, 'r) ext \<Rightarrow> iteration \<Rightarrow> ('t, 'r) world_state \<Rightarrow> ('t, 'r) world_state res" where
  "commit_cache X it ws =
     bindR (commit_accounts X it (it_accounts it (ws_cache ws)) ws) (publish_root X)"

definition init_mpt_account ::
  "('t, 'r) ext \<Rightarrow> iteration \<Rightarrow> address \<Rightarrow> account \<Rightarrow> ('t, 'r) world_state \<Rightarrow> ('t, 'r) world_state res" where
  "init_mpt_account X it a cache_account ws =
     bindR (commit_account X it (a, cache_account) ws) (publish_root X)"

section \<open>Constructors\<close>

text \<open>\<open>WorldState::new\<close>, with the handle of the opened database.\<close>

definition world_state_new :: "('t, 'r) ext \<Rightarrow> 'r \<Rightarrow> ('t, 'r) world_state res" where
  "world_state_new X db =
     (let data = rocks_db_new db in
      bindR (trie_root X data (x_trie_new X data)) (\<lambda>(_, eth_trie, data1).
      let hash = to_be_bytes (x_keccak256 X []) in
      Ret \<lparr>ws_cache = Map.empty, ws_data = insert_code hash [] data1, ws_trie = eth_trie,
           ws_parent_block = 0\<rparr>))"

definition new_for_call :: "('t, 'r) ext \<Rightarrow> 'r rocks_db \<Rightarrow> b256 \<Rightarrow> ('t, 'r) world_state res" where
  "new_for_call X data state_root =
     bindR (unwrap (x_trie_from X data state_root)) (\<lambda>eth_trie.
     Ret \<lparr>ws_cache = Map.empty, ws_data = data, ws_trie = eth_trie, ws_parent_block = 0\<rparr>)"

section \<open>Readers\<close>

definition current_block_number :: "('t, 'r) ext \<Rightarrow> ('t, 'r) world_state \<Rightarrow> int \<times> ('t, 'r) world_state" where
  "current_block_number X ws =
     (let (n, d) = get_block_number X (ws_data ws) in (unwrap_or n 0, ws\<lparr>ws_data := d\<rparr>))"

text \<open>Block hash and index of a transaction.\<close>

definition get_block_hash ::
  "('t, 'r) ext \<Rightarrow> ('t, 'r) world_state \<Rightarrow> byte list \<Rightarrow> (b256 \<times> u64) option" where
  "get_block_hash X ws k =
     (case get_txlookup X (ws_data ws) k of
        None \<Rightarrow> None
      | Some tx_lookup_raw \<Rightarrow>
          if length tx_lookup_raw < 40 then None
          else Some (from_be_bytes (take 32 tx_lookup_raw),
                     of_nat (be_val (take 8 (drop 32 tx_lookup_raw)))))"

text \<open>The account of a past state, shared by the two readers.\<close>

definition past_account ::
  "('t, 'r) ext \<Rightarrow> ('t, 'r) world_state \<Rightarrow> address \<Rightarrow> b256 \<Rightarrow> mpt_account option res" where
  "past_account X ws a state_root =
     bindR (unwrap (x_trie_from X (ws_data ws) state_root)) (\<lambda>target_state.
     Ret (case unwrap_or (x_trie_get X (ws_data ws) target_state (account_key X a)) None of
            None \<Rightarrow> None
          | Some mpt_byte_vec \<Rightarrow> x_decode_mpt X mpt_byte_vec))"

definition get_balance_state ::
  "('t, 'r) ext \<Rightarrow> ('t, 'r) world_state \<Rightarrow> address \<Rightarrow> b256 \<Rightarrow> u256 option res" where
  "get_balance_state X ws a state_root =
     bindR (past_account X ws a state_root) (\<lambda>m. Ret (map_option m_balance m))"

definition get_code_state ::
  "('t, 'r) ext \<Rightarrow> ('t, 'r) world_state \<Rightarrow> address \<Rightarrow> b256 \<Rightarrow> byte list option res" where
  "get_code_state X ws a state_root =
     bindR (past_account X ws a state_root) (\<lambda>m.
     case m of
       None \<Rightarrow> Ret None
     | Some mpt_account \<Rightarrow> Ret (db_get_code X (ws_data ws) (to_be_bytes (m_code_hash mpt_account))))"

end
