(* ===== verification/Transaction.thy ===== *)
theory Transaction
  imports Interpreter Commit
begin

text \<open>
  Transactions: recovery of the sender and the checks before execution
  (\<open>src/src/leviathan/transaction_check.rs\<close>), and the execution of a transaction with its payment of
  gas, its refund, the removal of dead and destroyed accounts and the commit to the tries
  (\<open>src/src/leviathan/leviathan.rs\<close>).
\<close>

section \<open>Sender\<close>

text \<open>The error messages of \<open>transaction_checks\<close>.\<close>

datatype check_error =
    TwTooLarge | InvalidV | BadSignature | SenderNotFound | NonceMismatch | SenderHasCode
  | GasLimitTooLow | BalanceTooLow | InitCodeTooLong | PriceBelowBaseFee

text \<open>Recovery id and chain id from \<open>v\<close>.\<close>

definition split_v :: "u256 \<Rightarrow> check_error + (nat \<times> u64 option)" where
  "split_v w_value =
     (let w = unat w_value in
      if w \<ge> 2 ^ 64 then Inl TwTooLarge
      else if w = 27 \<or> w = 28 then Inr (w - 27, None)
      else if w \<ge> 35 then Inr ((w - 35) mod 2, Some (of_nat ((w - 35) div 2)))
      else Inl InvalidV)"

definition to_slice :: "tx_kind \<Rightarrow> byte list" where
  "to_slice kind = (case kind of TxCall a \<Rightarrow> address_bytes a | TxCreate \<Rightarrow> [])"

text \<open>The RLP list that is signed; with a chain id the three fields of EIP-155 follow.\<close>

definition signing_payload :: "('t, 'r) ext \<Rightarrow> transaction \<Rightarrow> u64 option \<Rightarrow> byte list" where
  "signing_payload X tx chain_id =
     (let payload_length =
            x_rlp_u64_len X (of_nat (t_nonce tx)) + x_encode_u256_len X (t_price tx) +
            x_encode_u256_len X (t_gas_limit tx) + x_rlp_bytes_len X (to_slice (t_to tx)) +
            x_encode_u256_len X (t_value tx) + x_rlp_bytes_len X (t_data tx) +
            (case chain_id of
               None \<Rightarrow> 0
             | Some cid \<Rightarrow> x_rlp_u64_len X cid + x_rlp_u64_len X 0 + x_rlp_u64_len X 0) in
      x_rlp_header X payload_length @ x_rlp_u64 X (of_nat (t_nonce tx)) @ x_encode_u256 X (t_price tx) @
      x_encode_u256 X (t_gas_limit tx) @ x_rlp_bytes X (to_slice (t_to tx)) @
      x_encode_u256 X (t_value tx) @ x_rlp_bytes X (t_data tx) @
      (case chain_id of
         None \<Rightarrow> []
       | Some cid \<Rightarrow> x_rlp_u64 X cid @ x_rlp_u64 X 0 @ x_rlp_u64 X 0))"

definition recover_sender :: "('t, 'r) ext \<Rightarrow> transaction \<Rightarrow> (check_error + address) res" where
  "recover_sender X tx =
     (case split_v (t_w tx) of
        Inl e \<Rightarrow> Ret (Inl e)
      | Inr (recovery_id, chain_id) \<Rightarrow>
          let tx_hash_bytes = to_be_bytes (x_keccak256 X (signing_payload X tx chain_id));
              sig_bytes = to_be_bytes (t_r tx) @ to_be_bytes (t_s tx) in
          (case x_ecdsa_recover X tx_hash_bytes sig_bytes recovery_id of
             None \<Rightarrow> Ret (Inl BadSignature)
           | Some uncompressed_pubkey \<Rightarrow>
               bindR (slice_of uncompressed_pubkey 1 65) (\<lambda>k.
               Ret (Inr (from_word (x_keccak256 X k))))))"

section \<open>Checks\<close>

definition is_create :: "tx_kind \<Rightarrow> bool" where
  "is_create kind \<longleftrightarrow> kind = TxCreate"

text \<open>The checks on the balance, the init code and the price, the last ones.\<close>

definition payment_checks ::
  "('t, 'r) ext \<Rightarrow> VersionId \<Rightarrow> transaction \<Rightarrow> u256 \<Rightarrow> block_header \<Rightarrow> address \<Rightarrow>
   ('t, 'r) world_state \<Rightarrow> ((check_error + address) \<times> ('t, 'r) world_state) res" where
  "payment_checks X v tx pre_cost header sender ws =
     bindR (get_balance X ws sender) (\<lambda>(b, ws1).
     bindR (unwrap b) (\<lambda>sender_balance.
     Ret (if sender_balance < pre_cost then Inl BalanceTooLow
          else if Shanghai \<le> v \<and> is_create (t_to tx) \<and> length (t_data tx) > 49152
          then Inl InitCodeTooLong
          else if t_price tx < (case h_base_fee_per_gas header of Some fee \<Rightarrow> ucast fee | None \<Rightarrow> 0)
          then Inl PriceBelowBaseFee
          else Inr sender, ws1)))"

text \<open>The checks that follow once the sender is known.\<close>

definition sender_checks ::
  "('t, 'r) ext \<Rightarrow> VersionId \<Rightarrow> transaction \<Rightarrow> u256 \<Rightarrow> u256 \<Rightarrow> block_header \<Rightarrow> address \<Rightarrow>
   ('t, 'r) world_state \<Rightarrow> ((check_error + address) \<times> ('t, 'r) world_state) res" where
  "sender_checks X v tx init_gas pre_cost header sender ws =
     bindR (get_nonce X ws sender) (\<lambda>(n, ws1).
     case n of
       None \<Rightarrow> Ret (Inl SenderNotFound, ws1)
     | Some sender_nonce \<Rightarrow>
         if unat sender_nonce \<noteq> t_nonce tx then Ret (Inl NonceMismatch, ws1)
         else
           bindR (get_code X ws1 sender) (\<lambda>(c, ws2).
           bindR (unwrap c) (\<lambda>sender_code.
           if sender_code \<noteq> [] then Ret (Inl SenderHasCode, ws2)
           else if t_gas_limit tx < init_gas then Ret (Inl GasLimitTooLow, ws2)
           else payment_checks X v tx pre_cost header sender ws2)))"

definition transaction_checks ::
  "('t, 'r) ext \<Rightarrow> VersionId \<Rightarrow> transaction \<Rightarrow> u256 \<Rightarrow> u256 \<Rightarrow> block_header \<Rightarrow> ('t, 'r) world_state \<Rightarrow>
   ((check_error + address) \<times> ('t, 'r) world_state) res" where
  "transaction_checks X v tx init_gas pre_cost header ws =
     bindR (recover_sender X tx) (\<lambda>r.
     case r of
       Inl e \<Rightarrow> Ret (Inl e, ws)
     | Inr sender \<Rightarrow> sender_checks X v tx init_gas pre_cost header sender ws)"

section \<open>Costs\<close>

definition data_gas :: "VersionId \<Rightarrow> byte list \<Rightarrow> u256" where
  "data_gas v data =
     foldl (\<lambda>acc b. sat_add acc (if b = 0 then 4 else if v < Istanbul then 68 else 16)) 0 data"

definition contract_gas :: "VersionId \<Rightarrow> transaction \<Rightarrow> u256" where
  "contract_gas v tx =
     (case t_to tx of
        TxCall _ \<Rightarrow> 0
      | TxCreate \<Rightarrow>
          if Homestead \<le> v then
            let g = sat_add 0 32000 in
            if Shanghai \<le> v then
              let words = sat_add (of_nat (length (t_data tx))) 31 div 32;
                  word_gas = sat_mul words 2 in
              sat_add g word_gas
            else g
          else 0)"

definition intrinsic_gas :: "VersionId \<Rightarrow> transaction \<Rightarrow> u256" where
  "intrinsic_gas v tx = 21000 + data_gas v (t_data tx) + contract_gas v tx"

text \<open>A saturating product, then a wrapping sum.\<close>

definition max_cost :: "transaction \<Rightarrow> u256" where
  "max_cost tx = sat_mul (t_gas_limit tx) (t_price tx) + t_value tx"

section \<open>Before the call\<close>

text \<open>
  Sender, gas and substate at the start; \<open>None\<close> is the early return \<open>Err((0, []))\<close>.  An \<open>eth_call\<close>
  skips the checks and the payment.
\<close>

definition first_substate :: "address \<Rightarrow> block_header \<Rightarrow> substate" where
  "first_substate sender header = substate_new\<lparr>a_touch := [sender, h_beneficiary header]\<rparr>"

definition start_transaction ::
  "('t, 'r) ext \<Rightarrow> leviathan \<Rightarrow> transaction \<Rightarrow> block_header \<Rightarrow> ('t, 'r) world_state \<Rightarrow>
   ((address \<times> u256 \<times> substate) option \<times> ('t, 'r) world_state) res" where
  "start_transaction X lv tx header ws =
     (case lv_eth_call lv of
        Some sender \<Rightarrow> Ret (Some (sender, t_gas_limit tx, first_substate sender header), ws)
      | None \<Rightarrow>
          bindR (transaction_checks X (lv_version lv) tx (intrinsic_gas (lv_version lv) tx)
            (max_cost tx) header ws) (\<lambda>(r, ws1).
          case r of
            Inl e \<Rightarrow> Ret (None, ws1)
          | Inr sender \<Rightarrow>
              bindR (is_dead X (lv_version lv) ws1 sender) (\<lambda>(dead, ws2).
              if dead then Ret (None, ws2)
              else
                bindR (inc_nonce sender ws2) (\<lambda>ws3.
                bindR (buy_gas sender (t_gas_limit tx) (t_price tx) ws3) (\<lambda>(g, ws4).
                bindR (unwrap g) (\<lambda>gas.
                Ret (Some (sender, gas, first_substate sender header), ws4)))))))"

section \<open>After the call\<close>

text \<open>\<open>add_balance\<close> on an account that is created first if it does not exist.\<close>

definition credit ::
  "('t, 'r) ext \<Rightarrow> VersionId \<Rightarrow> address \<Rightarrow> u256 \<Rightarrow> ('t, 'r) world_state \<Rightarrow> ('t, 'r) world_state res" where
  "credit X v a amount ws =
     bindR (is_dead X v ws a) (\<lambda>(dead, ws1).
     bindR
       (if dead then
          bindR (is_physically_exist X ws1 a) (\<lambda>(ex, ws2).
          Ret (if \<not> ex then add_account a (account_new X) ws2 else ws2))
        else Ret ws1)
       (add_balance a amount))"

definition remove_account ::
  "('t, 'r) ext \<Rightarrow> address \<Rightarrow> ('t, 'r) world_state \<Rightarrow> ('t, 'r) world_state" where
  "remove_account X a ws =
     ws\<lparr>ws_trie := x_trie_remove X (ws_data ws) (ws_trie ws) (account_key X a),
        ws_cache := (ws_cache ws)(a := None)\<rparr>"

text \<open>The loops that pop \<open>a_touch\<close> and \<open>a_des\<close>; the lists come last element first.\<close>

primrec sweep_touched ::
  "('t, 'r) ext \<Rightarrow> VersionId \<Rightarrow> address list \<Rightarrow> ('t, 'r) world_state \<Rightarrow> ('t, 'r) world_state res" where
  "sweep_touched X v [] ws = Ret ws"
| "sweep_touched X v (a # as) ws =
     bindR (is_dead X v ws a) (\<lambda>(dead, ws1).
     sweep_touched X v as (if dead then remove_account X a ws1 else ws1))"

definition sweep_destroyed ::
  "('t, 'r) ext \<Rightarrow> address list \<Rightarrow> ('t, 'r) world_state \<Rightarrow> ('t, 'r) world_state" where
  "sweep_destroyed X as ws = fold (remove_account X) as ws"

definition miner_price :: "VersionId \<Rightarrow> transaction \<Rightarrow> block_header \<Rightarrow> u256" where
  "miner_price v tx header =
     (if v < London then t_price tx
      else case h_base_fee_per_gas header of
             Some basefee \<Rightarrow> t_price tx - ucast basefee
           | None \<Rightarrow> t_price tx)"

text \<open>Refund, reward, removals and commit; the two arms of the source share this code.\<close>

definition settle ::
  "('t, 'r) ext \<Rightarrow> iteration \<Rightarrow> VersionId \<Rightarrow> transaction \<Rightarrow> block_header \<Rightarrow> address \<Rightarrow> u256 \<Rightarrow>
   substate \<Rightarrow> ('t, 'r) world_state \<Rightarrow> (u256 \<times> ('t, 'r) world_state) res" where
  "settle X it v tx header sender gas_back ss ws =
     (let reimburse = sat_mul gas_back (t_price tx);
          final_billed_gas = sat_sub (t_gas_limit tx) gas_back;
          reward = sat_mul final_billed_gas (miner_price v tx header) in
      bindR (credit X v sender reimburse ws) (\<lambda>ws1.
      bindR (credit X v (h_beneficiary header) reward ws1) (\<lambda>ws2.
      bindR (sweep_touched X v (rev (a_touch ss)) ws2) (\<lambda>ws3.
      bindR (commit_cache X it (sweep_destroyed X (rev (a_des ss)) ws3)) (\<lambda>ws4.
      Ret (final_billed_gas, ws4))))))"

text \<open>The gas that is returned after a success: what is left and the capped refund.\<close>

definition refunded_gas :: "VersionId \<Rightarrow> transaction \<Rightarrow> u256 \<Rightarrow> substate \<Rightarrow> u256" where
  "refunded_gas v tx gas_left ss =
     (let used_gas = sat_sub (t_gas_limit tx) gas_left;
          max_refund = (if v < London then used_gas div 2 else used_gas div 5);
          reimburse_u256 = of_int (max (a_reimburse ss) 0) in
      sat_add gas_left (min max_refund reimburse_u256))"

section \<open>Execution\<close>

text \<open>\<open>Result<(U256, Vec<Log>), (U256, Vec<Log>)>\<close>.\<close>

datatype tx_result = TxOk u256 "evm_log list" | TxErr u256 "evm_log list"

definition finish_eth_call ::
  "transaction \<Rightarrow> call_result \<Rightarrow> leviathan \<Rightarrow> substate \<Rightarrow> tx_result \<times> leviathan" where
  "finish_eth_call tx result lv ss =
     (case result of
        COk g return_data _ \<Rightarrow>
          (TxOk (sat_sub (t_gas_limit tx) g) (a_log ss), lv\<lparr>lv_return_data := return_data\<rparr>)
      | CErr g return_data _ \<Rightarrow>
          (TxErr (sat_sub (t_gas_limit tx) g) [], lv\<lparr>lv_return_data := unwrap_or return_data []\<rparr>))"

definition finish_transaction ::
  "('t, 'r) ext \<Rightarrow> iteration \<Rightarrow> transaction \<Rightarrow> block_header \<Rightarrow> address \<Rightarrow> call_result \<Rightarrow> leviathan \<Rightarrow>
   ('t, 'r) world_state \<Rightarrow> substate \<Rightarrow> (tx_result \<times> leviathan \<times> ('t, 'r) world_state) res" where
  "finish_transaction X it tx header sender result lv ws ss =
     (case result of
        COk g return_data _ \<Rightarrow>
          bindR (settle X it (lv_version lv) tx header sender (refunded_gas (lv_version lv) tx g ss) ss ws)
            (\<lambda>(billed, ws1). Ret (TxOk billed (a_log ss), lv\<lparr>lv_return_data := return_data\<rparr>, ws1))
      | CErr g return_data _ \<Rightarrow>
          bindR (settle X it (lv_version lv) tx header sender g ss ws)
            (\<lambda>(billed, ws1). Ret (TxErr billed [], lv\<lparr>lv_return_data := unwrap_or return_data []\<rparr>, ws1)))"

definition transaction_call ::
  "('t, 'r) ext \<Rightarrow> ('t, 'r) runner \<Rightarrow> transaction \<Rightarrow> block_header \<Rightarrow> address \<Rightarrow> u256 \<Rightarrow> leviathan \<Rightarrow>
   ('t, 'r) world_state \<Rightarrow> substate \<Rightarrow> (call_result \<times> ('t, 'r) call_state) res" where
  "transaction_call X run tx header sender gas_in lv ws ss =
     (case t_to tx of
        TxCreate \<Rightarrow>
          contract_creation X run lv ws ss sender sender gas_in (t_price tx) (t_value tx) (t_data tx) 0
            None True header
      | TxCall to_address \<Rightarrow>
          message_call X run lv ws (ss\<lparr>a_touch := a_touch ss @ [to_address]\<rparr>) sender sender to_address
            to_address gas_in (t_price tx) (t_value tx) (t_value tx) (t_data tx) 0 True header)"

definition transaction_execution ::
  "('t, 'r) ext \<Rightarrow> ('t, 'r) runner \<Rightarrow> iteration \<Rightarrow> leviathan \<Rightarrow> ('t, 'r) world_state \<Rightarrow> transaction \<Rightarrow>
   block_header \<Rightarrow> (tx_result \<times> leviathan \<times> ('t, 'r) world_state) res" where
  "transaction_execution X run it lv ws tx header =
     (let lv0 = lv\<lparr>lv_return_data := []\<rparr> in
      bindR (start_transaction X lv0 tx header ws) (\<lambda>(st, ws1).
      case st of
        None \<Rightarrow> Ret (TxErr 0 [], lv0, ws1)
      | Some (sender, gas0, ss) \<Rightarrow>
          bindR (transaction_call X run tx header sender
            (sat_sub gas0 (intrinsic_gas (lv_version lv0) tx)) lv0 ws1 ss)
            (\<lambda>(result, lv1, ws2, ss1).
          if lv_eth_call lv1 \<noteq> None then
            let (r, lv2) = finish_eth_call tx result lv1 ss1 in Ret (r, lv2, ws2)
          else finish_transaction X it tx header sender result lv1 ws2 ss1)))"

end
