(* ===== verification/Node.thy ===== *)
theory Node
  imports Transaction
begin

text \<open>
  The node of \<open>src/src/bin/abci_node\<close>: the application state and its construction, the recovery of a
  sender (\<open>utils.rs\<close>), the admission of transactions to the memory pool (\<open>tx_check.rs\<close>,
  \<open>check_tx\<close> of \<open>my_abci.rs\<close>), genesis and commit (\<open>my_abci.rs\<close>).

  Every handler holds the lock of the state it works on until it returns, so a handler is a function
  from the application state to the new one.  The order in which the locks are taken is the subject of
  the theory \<open>Locks\<close>.
\<close>

section \<open>External functions\<close>

type_synonym bloom = "2048 word"
type_synonym u128 = "128 word"

text \<open>The header of a block: the part execution reads, and the fields the node fills in.\<close>

record full_header = block_header +
  h_receipts_root :: b256
  h_transactions_root :: b256
  h_state_root :: b256
  h_gas_used :: u64
  h_logs_bloom :: bloom
  h_parent_hash :: b256

record receipt =
  rc_status :: bool
  rc_cumulative_gas_used :: u64
  rc_logs :: "evm_log list"

text \<open>
  The crates the node calls on top of those of \<open>ext\<close>: RLP codecs of transactions, receipts with their
  bloom filters, headers and bodies, tries over a memory database (\<open>'m\<close> with database \<open>'d\<close>), bloom
  filters, the cache of recently seen senders (\<open>'c\<close>), hexadecimal output and contract addresses.
\<close>

record ('m, 'd, 'c) node_ext =
  n_decode_tx :: "byte list \<Rightarrow> string + transaction"
  n_encode_tx :: "transaction \<Rightarrow> byte list"
  n_encode_index :: "usize \<Rightarrow> byte list"
  n_logs_bloom :: "evm_log list \<Rightarrow> bloom"
  n_bloom_contains :: "bloom \<Rightarrow> byte list \<Rightarrow> bool"
  n_encode_receipt :: "receipt \<Rightarrow> bloom \<Rightarrow> byte list"
  n_decode_receipt :: "byte list \<Rightarrow> (receipt \<times> bloom) option"
  n_default_header :: full_header
  n_encode_header :: "full_header \<Rightarrow> byte list"
  n_decode_header :: "byte list \<Rightarrow> full_header option"
  n_hash_slow :: "full_header \<Rightarrow> b256"
  n_encode_body :: "transaction list \<Rightarrow> byte list"
  n_decode_body :: "byte list \<Rightarrow> transaction list option"
  n_memory_db :: 'd
  n_mem_new :: "'d \<Rightarrow> 'm"
  n_mem_from :: "'d \<Rightarrow> b256 \<Rightarrow> 'm option"
  n_mem_insert :: "'d \<Rightarrow> 'm \<Rightarrow> byte list \<Rightarrow> byte list \<Rightarrow> 'm option"
  n_mem_root :: "'d \<Rightarrow> 'm \<Rightarrow> (b256 \<times> 'm \<times> 'd) option"
  n_lru_new :: "nat \<Rightarrow> 'c"
  n_lru_get :: "'c \<Rightarrow> address \<Rightarrow> mpt_account option \<times> 'c"
  n_lru_put :: "'c \<Rightarrow> address \<Rightarrow> mpt_account \<Rightarrow> 'c"
  n_lru_clear :: "'c \<Rightarrow> 'c"
  n_hex :: "byte list \<Rightarrow> string"
  n_create_address :: "address \<Rightarrow> u64 \<Rightarrow> address"

section \<open>The application\<close>

record ('t, 'r, 'c) leviathan_app =
  ap_state :: "('t, 'r) world_state"
  ap_leviathan :: leviathan
  ap_version :: VersionId
  ap_cache :: 'c

definition leviathan_app_new ::
  "('t, 'r) ext \<Rightarrow> ('m, 'd, 'c) node_ext \<Rightarrow> VersionId \<Rightarrow> 'r \<Rightarrow> ('t, 'r, 'c) leviathan_app res" where
  "leviathan_app_new X N version db =
     bindR (world_state_new X db) (\<lambda>ws.
     Ret \<lparr>ap_state = ws, ap_leviathan = leviathan_new version, ap_version = version,
          ap_cache = n_lru_new N 100\<rparr>)"

text \<open>\<open>root_hash().unwrap()\<close> on the trie of the world state.\<close>

definition state_root_hash ::
  "('t, 'r) ext \<Rightarrow> ('t, 'r) world_state \<Rightarrow> (b256 \<times> ('t, 'r) world_state) res" where
  "state_root_hash X ws =
     bindR (trie_root X (ws_data ws) (ws_trie ws)) (\<lambda>(root, t, d).
     Ret (root, ws\<lparr>ws_data := d, ws_trie := t\<rparr>))"

section \<open>Senders\<close>

text \<open>The source repeats the recovery of \<open>transaction_checks\<close>; its errors become \<open>None\<close>.\<close>

definition get_sender :: "('t, 'r) ext \<Rightarrow> transaction \<Rightarrow> address option res" where
  "get_sender X tx =
     bindR (recover_sender X tx) (\<lambda>r. Ret (case r of Inl _ \<Rightarrow> None | Inr sender \<Rightarrow> Some sender))"

section \<open>Admission to the memory pool\<close>

text \<open>The account of the sender: the cache of pending senders first, then the state trie.\<close>

definition pending_account ::
  "('t, 'r) ext \<Rightarrow> ('m, 'd, 'c) node_ext \<Rightarrow> address \<Rightarrow> ('t, 'r, 'c) leviathan_app \<Rightarrow>
   (mpt_account option \<times> ('t, 'r, 'c) leviathan_app) res" where
  "pending_account X N sender app =
     (let (cached, cache) = n_lru_get N (ap_cache app) sender; app1 = app\<lparr>ap_cache := cache\<rparr> in
      case cached of
        Some target \<Rightarrow> Ret (Some target, app1)
      | None \<Rightarrow> bindR (contain_mpt X (ap_state app) sender) (\<lambda>m. Ret (m, app1)))"

text \<open>The checks on the account, in the order of the source.\<close>

definition pool_checks :: "VersionId \<Rightarrow> transaction \<Rightarrow> mpt_account \<Rightarrow> bool" where
  "pool_checks v tx target \<longleftrightarrow>
     unat (m_nonce target) = t_nonce tx \<and>
     m_code_hash target = EMPTY_CODE_HASH \<and>
     \<not> t_gas_limit tx < intrinsic_gas v tx \<and>
     \<not> m_balance target < max_cost tx \<and>
     \<not> (Shanghai \<le> v \<and> is_create (t_to tx) \<and> length (t_data tx) > 49152)"

text \<open>The account after the transaction, as the pool will see it; the nonce is checked arithmetic.\<close>

definition charge_pending :: "transaction \<Rightarrow> mpt_account \<Rightarrow> mpt_account res" where
  "charge_pending tx target =
     (if m_nonce target = -1 then Panic
      else Ret (target\<lparr>m_nonce := m_nonce target + 1,
                       m_balance := sat_sub (m_balance target) (max_cost tx)\<rparr>))"

definition validate_transaction ::
  "('t, 'r) ext \<Rightarrow> ('m, 'd, 'c) node_ext \<Rightarrow> transaction \<Rightarrow> ('t, 'r, 'c) leviathan_app \<Rightarrow>
   (bool \<times> ('t, 'r, 'c) leviathan_app) res" where
  "validate_transaction X N tx app =
     bindR (recover_sender X tx) (\<lambda>r.
     case r of
       Inl _ \<Rightarrow> Ret (False, app)
     | Inr sender \<Rightarrow>
         bindR (pending_account X N sender app) (\<lambda>(m, app1).
         case m of
           None \<Rightarrow> Ret (False, app1)
         | Some target \<Rightarrow>
             if \<not> pool_checks (ap_version app) tx target then Ret (False, app1)
             else
               bindR (charge_pending tx target) (\<lambda>updated_target.
               Ret (True, app1\<lparr>ap_cache := n_lru_put N (ap_cache app1) sender updated_target\<rparr>))))"

text \<open>The response code and log of \<open>check_tx\<close>.\<close>

definition check_tx ::
  "('t, 'r) ext \<Rightarrow> ('m, 'd, 'c) node_ext \<Rightarrow> byte list \<Rightarrow> ('t, 'r, 'c) leviathan_app \<Rightarrow>
   ((nat \<times> string) \<times> ('t, 'r, 'c) leviathan_app) res" where
  "check_tx X N raw app =
     (case n_decode_tx N raw of
        Inr tx \<Rightarrow>
          bindR (validate_transaction X N tx app) (\<lambda>(is_valid, app1).
          Ret (if \<not> is_valid then (1, ''Validation Failed'') else (0, []), app1))
      | Inl err \<Rightarrow> Ret ((1, ''RLP Decode Error: '' @ err), app))"

section \<open>Genesis and commit\<close>

definition genesis_address :: address where
  "genesis_address = 0xc755095A6D433b4E744f706881D5d7E0D84237B5"

definition genesis_balance :: u256 where
  "genesis_balance = 10 ^ 18 * 10000"

definition init_chain ::
  "('t, 'r) ext \<Rightarrow> iteration \<Rightarrow> ('t, 'r, 'c) leviathan_app \<Rightarrow> (byte list \<times> ('t, 'r, 'c) leviathan_app) res" where
  "init_chain X it app =
     bindR (init_mpt_account X it genesis_address ((account_new X)\<lparr>acc_balance := genesis_balance\<rparr>) (ap_state app))
       (\<lambda>ws1.
     bindR (state_root_hash X ws1) (\<lambda>(root, ws2).
     Ret (to_be_bytes root, app\<lparr>ap_state := ws2\<rparr>)))"

text \<open>The constant answer to \<open>Info\<close>: no block has been executed yet, whatever the database holds.\<close>

record response_info =
  ri_data :: string
  ri_version :: string
  ri_app_version :: nat
  ri_last_block_height :: int
  ri_last_block_app_hash :: "byte list"

definition info :: response_info where
  "info = \<lparr>ri_data = ''leviathan-mock'', ri_version = ''0.1.0'', ri_app_version = 1, ri_last_block_height = 0,
     ri_last_block_app_hash = []\<rparr>"

text \<open>A failed write of the database is a panic.\<close>

definition commit_block ::
  "('t, 'r) ext \<Rightarrow> ('m, 'd, 'c) node_ext \<Rightarrow> ('t, 'r, 'c) leviathan_app \<Rightarrow> ('t, 'r, 'c) leviathan_app res" where
  "commit_block X N app =
     (let (written, d) = db_flush X (ws_data (ap_state app)) in
      if \<not> written then Panic
      else Ret (app\<lparr>ap_state := (ap_state app)\<lparr>ws_data := d\<rparr>, ap_cache := n_lru_clear N (ap_cache app)\<rparr>))"

end
