(* ===== verification/Block.thy ===== *)
theory Block
  imports Node
begin

text \<open>
  The execution of a block: \<open>tx_execution\<close> of \<open>src/src/bin/abci_node/req_execution.rs\<close> and
  \<open>finalize_block\<close> of \<open>my_abci.rs\<close>.  The loop over the transactions carries a record of what it
  accumulates; all transactions run on the one LEVIATHAN object and world state of the application.
\<close>

section \<open>Requests and results\<close>

record finalize_request =
  fr_proposer_address :: "byte list"
  fr_seconds :: "i64 option"
  fr_height :: i64
  fr_txs :: "byte list list"

record event_attribute =
  ea_key :: string
  ea_value :: string
  ea_index :: bool

record abci_event =
  ev_type :: string
  ev_attributes :: "event_attribute list"

record exec_tx_result =
  er_code :: nat
  er_log :: string
  er_events :: "abci_event list"
  er_gas_wanted :: i64
  er_gas_used :: i64

text \<open>What the loop accumulates.\<close>

record ('m) block_build =
  bb_results :: "exec_tx_result list"
  bb_gas :: u64
  bb_bloom :: bloom
  bb_decoded :: "transaction list"
  bb_hashes :: "b256 list"
  bb_tx_trie :: 'm
  bb_receipt_trie :: 'm

section \<open>Keys\<close>

definition ascii :: "string \<Rightarrow> byte list" where
  "ascii s = map of_char s"

definition receipt_key :: "b256 \<Rightarrow> byte list" where
  "receipt_key h = ascii ''receipt:'' @ to_be_bytes h"

definition tx_lookup_key :: "b256 \<Rightarrow> byte list" where
  "tx_lookup_key h = ascii ''tx_lookup:'' @ to_be_bytes h"

definition header_key :: "byte list \<Rightarrow> byte list" where
  "header_key h = ascii ''header:'' @ h"

definition body_key :: "byte list \<Rightarrow> byte list" where
  "body_key h = ascii ''body:'' @ h"

section \<open>Events\<close>

text \<open>\<open>format!("{}", i)\<close> of an index.\<close>

fun decimal :: "nat \<Rightarrow> string" where
  "decimal n = (if n < 10 then [char_of (48 + n)] else decimal (n div 10) @ [char_of (48 + n mod 10)])"

declare decimal.simps [simp del]

definition attribute :: "string \<Rightarrow> string \<Rightarrow> bool \<Rightarrow> event_attribute" where
  "attribute k v i = \<lparr>ea_key = k, ea_value = v, ea_index = i\<rparr>"

definition log_event :: "('m, 'd, 'c) node_ext \<Rightarrow> evm_log \<Rightarrow> abci_event" where
  "log_event N eth_log =
     \<lparr>ev_type = ''evm_log'',
      ev_attributes =
        [attribute ''address'' (''0x'' @ n_hex N (address_bytes (log_address eth_log))) True] @
        map (\<lambda>(i, topic). attribute (''topic'' @ decimal i) (''0x'' @ n_hex N (to_be_bytes topic)) True)
          (enumerate 0 (log_topics eth_log)) @
        [attribute ''data'' (''0x'' @ n_hex N (log_data eth_log)) False]\<rparr>"

section \<open>One transaction\<close>

text \<open>\<open>u64::try_from(..)\<close> and its saturation.\<close>

definition to_u64 :: "u256 \<Rightarrow> u64 option" where
  "to_u64 w = (if unat w < 2 ^ 64 then Some (ucast w) else None)"

definition u64_add :: "u64 \<Rightarrow> u64 \<Rightarrow> u64 res" where
  "u64_add a b = (if unat a + unat b < 2 ^ 64 then Ret (a + b) else Panic)"

text \<open>
  The part the two arms of the source share: gas, receipt, bloom, the stored receipt and the receipt
  trie.  The logs of a failed execution are passed on as they come.
\<close>

definition record_receipt ::
  "('t, 'r) ext \<Rightarrow> ('m, 'd, 'c) node_ext \<Rightarrow> 'd \<Rightarrow> byte list \<Rightarrow> b256 \<Rightarrow> bool \<Rightarrow> u256 \<Rightarrow> evm_log list \<Rightarrow>
   ('t, 'r) world_state \<Rightarrow> 'm block_build \<Rightarrow> (('t, 'r) world_state \<times> 'm block_build) res" where
  "record_receipt X N memdb mpt_key tx_hash status final_bill_gas logs ws bb =
     bindR (unwrap (to_u64 final_bill_gas)) (\<lambda>billed.
     bindR (u64_add (bb_gas bb) billed) (\<lambda>cumulative_gas.
     let receipt = \<lparr>rc_status = status, rc_cumulative_gas_used = cumulative_gas, rc_logs = logs\<rparr>;
         logs_bloom = n_logs_bloom N logs;
         rlp_receipt = n_encode_receipt N receipt logs_bloom;
         ws1 = ws\<lparr>ws_data := insert_receipt (receipt_key tx_hash) rlp_receipt (ws_data ws)\<rparr> in
     bindR (unwrap (n_mem_insert N memdb (bb_receipt_trie bb) mpt_key rlp_receipt)) (\<lambda>t.
     Ret (ws1, bb\<lparr>bb_gas := cumulative_gas, bb_bloom := bb_bloom bb OR logs_bloom, bb_receipt_trie := t\<rparr>))))"

definition tx_response ::
  "('m, 'd, 'c) node_ext \<Rightarrow> transaction \<Rightarrow> tx_result \<Rightarrow> exec_tx_result" where
  "tx_response N tx result =
     (let gas_wanted = unwrap_or (to_u64 (t_gas_limit tx)) (-1) in
      case result of
        TxOk final_bill_gas logs \<Rightarrow>
          \<lparr>er_code = 0, er_log = ''Success'', er_events = map (log_event N) logs,
           er_gas_wanted = gas_wanted, er_gas_used = unwrap_or (to_u64 final_bill_gas) (-1)\<rparr>
      | TxErr final_bill_gas logs \<Rightarrow>
          \<lparr>er_code = 1, er_log = ''Execution Failed'', er_events = [],
           er_gas_wanted = gas_wanted, er_gas_used = unwrap_or (to_u64 final_bill_gas) (-1)\<rparr>)"

definition decode_failure :: "string \<Rightarrow> exec_tx_result" where
  "decode_failure err =
     \<lparr>er_code = 1, er_log = ''Decode Error: '' @ err, er_events = [], er_gas_wanted = 0, er_gas_used = 0\<rparr>"

text \<open>One iteration of the loop; \<open>i\<close> is the position in the request.\<close>

definition execute_one ::
  "('t, 'r) ext \<Rightarrow> ('m, 'd, 'c) node_ext \<Rightarrow> ('t, 'r) runner \<Rightarrow> iteration \<Rightarrow> full_header \<Rightarrow> 'd \<Rightarrow>
   nat \<times> byte list \<Rightarrow> leviathan \<times> ('t, 'r) world_state \<times> 'm block_build \<Rightarrow>
   (leviathan \<times> ('t, 'r) world_state \<times> 'm block_build) res" where
  "execute_one X N run it header memdb = (\<lambda>(i, transaction_rlp) (lv, ws, bb).
     (case n_decode_tx N transaction_rlp of
        Inl err \<Rightarrow> Ret (lv, ws, bb\<lparr>bb_results := bb_results bb @ [decode_failure err]\<rparr>)
      | Inr tx \<Rightarrow>
          let mpt_key = n_encode_index N i in
          bindR (unwrap (n_mem_insert N memdb (bb_tx_trie bb) mpt_key transaction_rlp)) (\<lambda>t.
          let tx_hash = x_keccak256 X transaction_rlp;
              bb1 = bb\<lparr>bb_decoded := bb_decoded bb @ [tx], bb_tx_trie := t,
                       bb_hashes := bb_hashes bb @ [tx_hash]\<rparr> in
          bindR (transaction_execution X run it lv ws tx (block_header.truncate header)) (\<lambda>(result, lv1, ws1).
          bindR (case result of
                   TxOk final_bill_gas logs \<Rightarrow>
                     record_receipt X N memdb mpt_key tx_hash True final_bill_gas logs ws1 bb1
                 | TxErr final_bill_gas logs \<Rightarrow>
                     record_receipt X N memdb mpt_key tx_hash False final_bill_gas logs ws1 bb1) (\<lambda>(ws2, bb2).
          Ret (lv1, ws2, bb2\<lparr>bb_results := bb_results bb2 @ [tx_response N tx result]\<rparr>))))))"

primrec execute_all ::
  "('t, 'r) ext \<Rightarrow> ('m, 'd, 'c) node_ext \<Rightarrow> ('t, 'r) runner \<Rightarrow> iteration \<Rightarrow> full_header \<Rightarrow> 'd \<Rightarrow>
   (nat \<times> byte list) list \<Rightarrow> leviathan \<times> ('t, 'r) world_state \<times> 'm block_build \<Rightarrow>
   (leviathan \<times> ('t, 'r) world_state \<times> 'm block_build) res" where
  "execute_all X N run it header memdb [] st = Ret st"
| "execute_all X N run it header memdb (e # es) st =
     bindR (execute_one X N run it header memdb e st) (execute_all X N run it header memdb es)"

section \<open>The block\<close>

definition from_slice :: "byte list \<Rightarrow> address res" where
  "from_slice bs = (if length bs = 20 then Ret (of_nat (be_val bs)) else Panic)"

definition first_header :: "('m, 'd, 'c) node_ext \<Rightarrow> finalize_request \<Rightarrow> full_header res" where
  "first_header N req =
     bindR (from_slice (fr_proposer_address req)) (\<lambda>beneficiary.
     Ret ((n_default_header N)\<lparr>h_beneficiary := beneficiary, h_timestamp := unwrap_or (fr_seconds req) 0,
            h_number := fr_height req, h_gas_limit := 30000000\<rparr>))"

text \<open>The two tries of the block, with the memory database they share.\<close>

definition block_tries :: "('m, 'd, 'c) node_ext \<Rightarrow> ('d \<times> 'm \<times> 'm) res" where
  "block_tries N =
     bindR (unwrap (n_mem_root N (n_memory_db N) (n_mem_new N (n_memory_db N)))) (\<lambda>(origin_root, _, memdb).
     bindR (unwrap (n_mem_from N memdb origin_root)) (\<lambda>transaction_trie.
     bindR (unwrap (n_mem_from N memdb origin_root)) (\<lambda>receipt_trie.
     Ret (memdb, transaction_trie, receipt_trie))))"

text \<open>The header is completed once all transactions ran.\<close>

definition seal_header ::
  "('t, 'r) ext \<Rightarrow> ('m, 'd, 'c) node_ext \<Rightarrow> 'd \<Rightarrow> full_header \<Rightarrow> 'm block_build \<Rightarrow>
   ('t, 'r) world_state \<Rightarrow> (full_header \<times> ('t, 'r) world_state) res" where
  "seal_header X N memdb header bb ws =
     bindR (unwrap (n_mem_root N memdb (bb_receipt_trie bb))) (\<lambda>(receipts_root, _, memdb1).
     bindR (unwrap (n_mem_root N memdb1 (bb_tx_trie bb))) (\<lambda>(transactions_root, _, _).
     bindR (state_root_hash X ws) (\<lambda>(state_root, ws1).
     Ret (header\<lparr>h_receipts_root := receipts_root, h_transactions_root := transactions_root,
            h_state_root := state_root, h_gas_used := bb_gas bb, h_logs_bloom := bb_bloom bb,
            h_parent_hash := ws_parent_block ws1\<rparr>, ws1))))"

text \<open>The lookup entries: block hash and position among the decoded transactions.\<close>

definition insert_lookups ::
  "b256 \<Rightarrow> b256 list \<Rightarrow> 'r rocks_db \<Rightarrow> 'r rocks_db" where
  "insert_lookups block_hash txs d =
     fold (\<lambda>(k, v). insert_txlookup k v)
       (map (\<lambda>(i, tx_hash). (tx_lookup_key tx_hash, to_be_bytes block_hash @ be_bytes 8 i)) (enumerate 0 txs)) d"

text \<open>Everything after the header is complete.\<close>

definition store_block ::
  "('t, 'r) ext \<Rightarrow> ('m, 'd, 'c) node_ext \<Rightarrow> i64 \<Rightarrow> full_header \<Rightarrow> 'm block_build \<Rightarrow>
   ('t, 'r) world_state \<Rightarrow> ('t, 'r) world_state res" where
  "store_block X N height header bb ws =
     (let rlp_header = n_encode_header N header;
          current_block_hash = x_keccak256 X rlp_header;
          hash_bytes = to_be_bytes current_block_hash in
      bindR (update_block_number (sint height) hash_bytes (ws_data ws)) (\<lambda>d1.
      let d2 = insert_lookups current_block_hash (bb_hashes bb) d1;
          d3 = insert_block (header_key hash_bytes) rlp_header d2;
          d4 = insert_block (body_key hash_bytes) (n_encode_body N (bb_decoded bb)) d3 in
      Ret (ws\<lparr>ws_parent_block := current_block_hash, ws_data := d4\<rparr>)))"

definition tx_execution ::
  "('t, 'r) ext \<Rightarrow> ('m, 'd, 'c) node_ext \<Rightarrow> ('t, 'r) runner \<Rightarrow> iteration \<Rightarrow> finalize_request \<Rightarrow>
   ('t, 'r, 'c) leviathan_app \<Rightarrow> (exec_tx_result list \<times> ('t, 'r, 'c) leviathan_app) res" where
  "tx_execution X N run it req app =
     bindR (first_header N req) (\<lambda>header.
     bindR (block_tries N) (\<lambda>(memdb, transaction_trie, receipt_trie).
     bindR (execute_all X N run it header memdb (enumerate 0 (fr_txs req))
       (ap_leviathan app, ap_state app,
        \<lparr>bb_results = [], bb_gas = 0, bb_bloom = 0, bb_decoded = [], bb_hashes = [],
         bb_tx_trie = transaction_trie, bb_receipt_trie = receipt_trie\<rparr>)) (\<lambda>(lv, ws, bb).
     bindR (seal_header X N memdb header bb ws) (\<lambda>(block_header, ws1).
     bindR (store_block X N (fr_height req) block_header bb ws1) (\<lambda>ws2.
     Ret (bb_results bb, app\<lparr>ap_leviathan := lv, ap_state := ws2\<rparr>))))))"

text \<open>The results and the application hash of \<open>finalize_block\<close>.\<close>

definition finalize_block ::
  "('t, 'r) ext \<Rightarrow> ('m, 'd, 'c) node_ext \<Rightarrow> ('t, 'r) runner \<Rightarrow> iteration \<Rightarrow> finalize_request \<Rightarrow>
   ('t, 'r, 'c) leviathan_app \<Rightarrow>
   ((exec_tx_result list \<times> byte list) \<times> ('t, 'r, 'c) leviathan_app) res" where
  "finalize_block X N run it req app =
     bindR (tx_execution X N run it req app) (\<lambda>(tx_results, app1).
     bindR (state_root_hash X (ap_state app1)) (\<lambda>(new_state_root, ws).
     Ret ((tx_results, to_be_bytes new_state_root), app1\<lparr>ap_state := ws\<rparr>)))"

end
