(* ===== verification/Rpc.thy ===== *)
theory Rpc
  imports Block
begin

text \<open>
  The queries of the JSON-RPC server \<open>src/src/bin/abci_node/my_rpc.rs\<close>, with the readers of stored
  receipts and blocks of \<open>world_state.rs\<close> and the log filters of \<open>utils.rs\<close>.  A query that reads the
  current block number may cache it in the database wrapper, so the queries return the world state.
\<close>

section \<open>Readers of the world state\<close>

record full_block =
  fb_header :: full_header
  fb_transactions :: "transaction list"

definition get_receipt_struct ::
  "('t, 'r) ext \<Rightarrow> ('m, 'd, 'c) node_ext \<Rightarrow> ('t, 'r) world_state \<Rightarrow> byte list \<Rightarrow> (receipt \<times> bloom) option" where
  "get_receipt_struct X N ws k =
     (case get_receipt X (ws_data ws) k of
        None \<Rightarrow> None
      | Some rlp_receipt \<Rightarrow> n_decode_receipt N rlp_receipt)"

definition get_full_block ::
  "('t, 'r) ext \<Rightarrow> ('m, 'd, 'c) node_ext \<Rightarrow> ('t, 'r) world_state \<Rightarrow> byte list \<Rightarrow> full_block option" where
  "get_full_block X N ws k =
     (case get_block X (ws_data ws) (header_key k) of
        None \<Rightarrow> None
      | Some header_rlp \<Rightarrow>
          (case n_decode_header N header_rlp of
             None \<Rightarrow> None
           | Some header \<Rightarrow>
               (case get_block X (ws_data ws) (body_key k) of
                  None \<Rightarrow> None
                | Some body_rlp \<Rightarrow>
                    (case n_decode_body N body_rlp of
                       None \<Rightarrow> None
                     | Some body \<Rightarrow> Some \<lparr>fb_header = header, fb_transactions = body\<rparr>))))"

definition get_full_block_from_index ::
  "('t, 'r) ext \<Rightarrow> ('m, 'd, 'c) node_ext \<Rightarrow> ('t, 'r) world_state \<Rightarrow> int \<Rightarrow> full_block option res" where
  "get_full_block_from_index X N ws index =
     bindR (get_blockhash_from_index X (ws_data ws) index) (\<lambda>h.
     case h of
       None \<Rightarrow> Ret None
     | Some block_hash \<Rightarrow> Ret (get_full_block X N ws block_hash))"

section \<open>Log filters\<close>

text \<open>A filter with the elements of its sets in some order.\<close>

record log_filter =
  lf_address :: "address list"
  lf_topics :: "b256 list list"
  lf_from_block :: "u64 option"
  lf_to_block :: "u64 option"

text \<open>A set of alternatives that is empty admits everything.\<close>

definition admits :: "('a \<Rightarrow> bool) \<Rightarrow> 'a list \<Rightarrow> bool" where
  "admits p xs \<longleftrightarrow> xs = [] \<or> (\<exists>x\<in>set xs. p x)"

definition is_bloom_match :: "('m, 'd, 'c) node_ext \<Rightarrow> bloom \<Rightarrow> log_filter \<Rightarrow> bool" where
  "is_bloom_match N b f \<longleftrightarrow>
     admits (\<lambda>a. n_bloom_contains N b (address_bytes a)) (lf_address f) \<and>
     (\<forall>topic_set\<in>set (lf_topics f). admits (\<lambda>t. n_bloom_contains N b (to_be_bytes t)) topic_set)"

definition is_exact_match :: "evm_log \<Rightarrow> log_filter \<Rightarrow> bool" where
  "is_exact_match log f \<longleftrightarrow>
     admits (\<lambda>a. log_address log = a) (lf_address f) \<and>
     (\<forall>(i, topic_set)\<in>set (enumerate 0 (lf_topics f)).
        admits (\<lambda>t. i < length (log_topics log) \<and> t = log_topics log ! i) topic_set)"

record rpc_log =
  rl_inner :: evm_log
  rl_block_hash :: b256
  rl_block_number :: u64
  rl_transaction_hash :: b256
  rl_transaction_index :: u64
  rl_log_index :: u64

definition format_to_rpc_log :: "u64 \<Rightarrow> b256 \<Rightarrow> b256 \<Rightarrow> u64 \<Rightarrow> u64 \<Rightarrow> evm_log \<Rightarrow> rpc_log" where
  "format_to_rpc_log block_number block_hash transaction_hash transaction_index log_index log =
     \<lparr>rl_inner = log, rl_block_hash = block_hash, rl_block_number = block_number,
      rl_transaction_hash = transaction_hash, rl_transaction_index = transaction_index,
      rl_log_index = log_index\<rparr>"

section \<open>Numbers in text\<close>

definition hex_digit :: "nat \<Rightarrow> char" where
  "hex_digit d = (if d < 10 then char_of (48 + d) else char_of (87 + d))"

text \<open>\<open>format!("0x{:x}", n)\<close>.\<close>

fun hex_digits :: "nat \<Rightarrow> string" where
  "hex_digits n = (if n < 16 then [hex_digit n] else hex_digits (n div 16) @ [hex_digit (n mod 16)])"

declare hex_digits.simps [simp del]

definition hex_number :: "nat \<Rightarrow> string" where
  "hex_number n = ''0x'' @ hex_digits n"

fun trim_0x :: "string \<Rightarrow> string" where
  "trim_0x (CHR ''0'' # CHR ''x'' # cs) = trim_0x cs"
| "trim_0x cs = cs"

definition digit_value :: "char \<Rightarrow> nat option" where
  "digit_value c =
     (let n = of_char c in
      if 48 \<le> n \<and> n \<le> 57 then Some (n - 48)
      else if 97 \<le> n \<and> n \<le> 102 then Some (n - 87)
      else if 65 \<le> n \<and> n \<le> 70 then Some (n - 55)
      else None)"

fun digits_value :: "int \<Rightarrow> string \<Rightarrow> int option" where
  "digits_value acc [] = Some acc"
| "digits_value acc (c # cs) =
     (case digit_value c of None \<Rightarrow> None | Some d \<Rightarrow> digits_value (acc * 16 + int d) cs)"

text \<open>\<open>i64::from_str_radix(s, 16)\<close>.\<close>

definition parse_i64_hex :: "string \<Rightarrow> int option" where
  "parse_i64_hex s =
     (let (negative, ds) = (case s of CHR ''-'' # cs \<Rightarrow> (True, cs) | CHR ''+'' # cs \<Rightarrow> (False, cs) | _ \<Rightarrow> (False, s)) in
      if ds = [] then None
      else case digits_value 0 ds of
             None \<Rightarrow> None
           | Some m \<Rightarrow>
               let n = (if negative then - m else m) in
               if - (2 ^ 63) \<le> n \<and> n < 2 ^ 63 then Some n else None)"

section \<open>Blocks by number\<close>

datatype block_tag = TagLatest | TagPending | TagEarliest | TagFinalized | TagSafe | TagNumber u64

text \<open>Errors of the server: a code and a message.\<close>

type_synonym rpc_error = "int \<times> string"

text \<open>\<open>None\<close> is an unsupported tag.\<close>

definition tag_number ::
  "('t, 'r) ext \<Rightarrow> block_tag \<Rightarrow> ('t, 'r) world_state \<Rightarrow> u64 option \<times> ('t, 'r) world_state" where
  "tag_number X tag ws =
     (if tag = TagLatest \<or> tag = TagPending then
        let (n, ws1) = current_block_number X ws in (Some (of_int n), ws1)
      else case tag of
             TagNumber n \<Rightarrow> (Some n, ws)
           | TagEarliest \<Rightarrow> (Some 0, ws)
           | _ \<Rightarrow> (None, ws))"

text \<open>The block a query with an optional tag is about, with the two errors of the source.\<close>

definition query_block ::
  "('t, 'r) ext \<Rightarrow> ('m, 'd, 'c) node_ext \<Rightarrow> block_tag option \<Rightarrow> ('t, 'r) world_state \<Rightarrow>
   ((rpc_error + full_block) \<times> ('t, 'r) world_state) res" where
  "query_block X N tag ws =
     (case tag_number X (unwrap_or tag TagLatest) ws of
        (None, ws1) \<Rightarrow> Ret (Inl (-32602, ''Unsupported block tag''), ws1)
      | (Some block_number, ws1) \<Rightarrow>
          bindR (get_full_block_from_index X N ws1 (sint block_number)) (\<lambda>b.
          Ret (case b of None \<Rightarrow> Inl (-32603, ''Block not found'') | Some block \<Rightarrow> Inr block, ws1)))"

section \<open>Constant queries\<close>

definition chain_id :: string where
  "chain_id = ''0x539''"

definition client_version :: string where
  "client_version = ''Leviathan/v0.2.0-rust''"

definition gas_price :: string where
  "gas_price = ''0x1''"

section \<open>Accounts\<close>

definition rpc_block_number ::
  "('t, 'r) ext \<Rightarrow> ('t, 'r) world_state \<Rightarrow> string \<times> ('t, 'r) world_state" where
  "rpc_block_number X ws =
     (let (n, ws1) = current_block_number X ws in (hex_number (unat (of_int n :: u64)), ws1))"

definition get_transaction_count ::
  "('t, 'r) ext \<Rightarrow> address \<Rightarrow> ('t, 'r) world_state \<Rightarrow> string res" where
  "get_transaction_count X a ws =
     bindR (contain_mpt X ws a) (\<lambda>m.
     Ret (hex_number (case m of Some account \<Rightarrow> unat (m_nonce account) | None \<Rightarrow> 0)))"

definition rpc_get_balance ::
  "('t, 'r) ext \<Rightarrow> ('m, 'd, 'c) node_ext \<Rightarrow> address \<Rightarrow> string option \<Rightarrow> ('t, 'r) world_state \<Rightarrow>
   (string \<times> ('t, 'r) world_state) res" where
  "rpc_get_balance X N a index_string ws =
     (let block_param = unwrap_or index_string ''latest'';
          (index, ws1) =
            (if block_param = ''latest'' \<or> block_param = ''pending'' then
               let (n, ws1) = current_block_number X ws in (Some n, ws1)
             else (parse_i64_hex (trim_0x block_param), ws)) in
      case index of
        None \<Rightarrow> Ret (''0x0'', ws1)
      | Some index \<Rightarrow>
          bindR (get_full_block_from_index X N ws1 index) (\<lambda>b.
          case b of
            None \<Rightarrow> Ret (hex_number 0, ws1)
          | Some block \<Rightarrow>
              bindR (get_balance_state X ws1 a (h_state_root (fb_header block))) (\<lambda>balance.
              Ret (hex_number (unat (unwrap_or balance 0)), ws1))))"

definition rpc_get_code ::
  "('t, 'r) ext \<Rightarrow> ('m, 'd, 'c) node_ext \<Rightarrow> address \<Rightarrow> block_tag option \<Rightarrow> ('t, 'r) world_state \<Rightarrow>
   ((rpc_error + string) \<times> ('t, 'r) world_state) res" where
  "rpc_get_code X N a tag ws =
     bindR (query_block X N tag ws) (\<lambda>(q, ws1).
     case q of
       Inl e \<Rightarrow> Ret (Inl e, ws1)
     | Inr block \<Rightarrow>
         bindR (get_code_state X ws1 a (h_state_root (fb_header block))) (\<lambda>c.
         Ret (Inr (case c of Some code \<Rightarrow> ''0x'' @ n_hex N code | None \<Rightarrow> ''0x''), ws1)))"

end
