(* ===== verification/Queries.thy ===== *)
theory Queries
  imports Rpc
begin

text \<open>
  The queries of \<open>my_rpc.rs\<close> that assemble answers from blocks, transactions and receipts or execute a
  call: receipts, transactions, blocks, \<open>eth_call\<close>, \<open>eth_estimateGas\<close> and \<open>eth_getLogs\<close>.
\<close>

section \<open>Transactions\<close>

text \<open>\<open>try_into().unwrap_or(0)\<close>.\<close>

definition u64_or_0 :: "u256 \<Rightarrow> u64" where
  "u64_or_0 w = unwrap_or (to_u64 w) 0"

definition u128_or_0 :: "u256 \<Rightarrow> u128" where
  "u128_or_0 w = (if unat w < 2 ^ 128 then ucast w else 0)"

text \<open>Parity and chain id from \<open>v\<close>; an invalid \<open>v\<close> reads as parity 0 without chain id.\<close>

definition parity_and_chain :: "u256 \<Rightarrow> bool \<times> u64 option" where
  "parity_and_chain w =
     (let v = unat (u64_or_0 w) in
      if v = 27 \<or> v = 28 then (v = 28, None)
      else if v \<ge> 35 then ((v - 35) mod 2 \<noteq> 0, Some (of_nat ((v - 35) div 2)))
      else (False, None))"

record rpc_transaction =
  rt_chain_id :: "u64 option"
  rt_nonce :: u64
  rt_gas_price :: u128
  rt_gas_limit :: u64
  rt_to :: tx_kind
  rt_value :: u256
  rt_input :: "byte list"
  rt_signature :: "u256 \<times> u256 \<times> bool"
  rt_hash :: b256
  rt_from :: address
  rt_block_hash :: b256
  rt_block_number :: u64
  rt_transaction_index :: u64
  rt_block_timestamp :: u64

definition make_rpc_transaction ::
  "transaction \<Rightarrow> b256 \<Rightarrow> address \<Rightarrow> b256 \<Rightarrow> u64 \<Rightarrow> u64 \<Rightarrow> u64 \<Rightarrow> rpc_transaction" where
  "make_rpc_transaction tx tx_hash sender block_hash number index timestamp =
     (let (y_parity, chain) = parity_and_chain (t_w tx) in
      \<lparr>rt_chain_id = chain, rt_nonce = of_nat (t_nonce tx), rt_gas_price = u128_or_0 (t_price tx),
       rt_gas_limit = u64_or_0 (t_gas_limit tx), rt_to = t_to tx, rt_value = t_value tx,
       rt_input = t_data tx, rt_signature = (t_r tx, t_s tx, y_parity), rt_hash = tx_hash,
       rt_from = sender, rt_block_hash = block_hash, rt_block_number = number,
       rt_transaction_index = index, rt_block_timestamp = timestamp\<rparr>)"

text \<open>Block, index and transaction that a transaction hash stands for.\<close>

definition find_transaction ::
  "('t, 'r) ext \<Rightarrow> ('m, 'd, 'c) node_ext \<Rightarrow> ('t, 'r) world_state \<Rightarrow> b256 \<Rightarrow>
   (b256 \<times> u64 \<times> full_block \<times> transaction) option" where
  "find_transaction X N ws tx_hash =
     (case get_block_hash X ws (tx_lookup_key tx_hash) of
        None \<Rightarrow> None
      | Some (block_hash, tx_index) \<Rightarrow>
          (case get_full_block X N ws (to_be_bytes block_hash) of
             None \<Rightarrow> None
           | Some block \<Rightarrow>
               if unat tx_index < length (fb_transactions block)
               then Some (block_hash, tx_index, block, fb_transactions block ! unat tx_index)
               else None))"

definition get_transaction_by_hash ::
  "('t, 'r) ext \<Rightarrow> ('m, 'd, 'c) node_ext \<Rightarrow> ('t, 'r) world_state \<Rightarrow> b256 \<Rightarrow> rpc_transaction option res" where
  "get_transaction_by_hash X N ws tx_hash =
     (case find_transaction X N ws tx_hash of
        None \<Rightarrow> Ret None
      | Some (block_hash, tx_index, block, tx) \<Rightarrow>
          bindR (get_sender X tx) (\<lambda>sender.
          Ret (map_option (\<lambda>sender_address.
            make_rpc_transaction tx tx_hash sender_address block_hash (h_number (fb_header block)) tx_index
              (h_timestamp (fb_header block))) sender)))"

section \<open>Receipts\<close>

record rpc_receipt =
  rr_transaction_hash :: b256
  rr_transaction_index :: u64
  rr_block_hash :: b256
  rr_block_number :: u64
  rr_from :: address
  rr_to :: "address option"
  rr_gas_used :: u64
  rr_contract_address :: "address option"
  rr_status :: bool
  rr_cumulative_gas_used :: u64
  rr_logs :: "rpc_log list"
  rr_logs_bloom :: bloom

text \<open>\<open>None\<close> when the receipt of the previous transaction is missing; the difference is checked.\<close>

definition receipt_gas_used ::
  "('t, 'r) ext \<Rightarrow> ('m, 'd, 'c) node_ext \<Rightarrow> ('t, 'r) world_state \<Rightarrow> full_block \<Rightarrow> u64 \<Rightarrow> receipt \<Rightarrow>
   u64 option res" where
  "receipt_gas_used X N ws block tx_index receipt =
     (if tx_index = 0 then Ret (Some (rc_cumulative_gas_used receipt))
      else
        let prev_tx = fb_transactions block ! (unat tx_index - 1);
            prev_tx_hash = x_keccak256 X (n_encode_tx N prev_tx) in
        case get_receipt_struct X N ws (receipt_key prev_tx_hash) of
          None \<Rightarrow> Ret None
        | Some (prev_receipt, _) \<Rightarrow>
            if rc_cumulative_gas_used receipt < rc_cumulative_gas_used prev_receipt then Panic
            else Ret (Some (rc_cumulative_gas_used receipt - rc_cumulative_gas_used prev_receipt)))"

definition get_transaction_receipt ::
  "('t, 'r) ext \<Rightarrow> ('m, 'd, 'c) node_ext \<Rightarrow> ('t, 'r) world_state \<Rightarrow> b256 \<Rightarrow> rpc_receipt option res" where
  "get_transaction_receipt X N ws tx_hash =
     (case get_receipt_struct X N ws (receipt_key tx_hash) of
        None \<Rightarrow> Ret None
      | Some (receipt, logs_bloom) \<Rightarrow>
          (case find_transaction X N ws tx_hash of
             None \<Rightarrow> Ret None
           | Some (block_hash, tx_index, block, tx) \<Rightarrow>
               bindR (receipt_gas_used X N ws block tx_index receipt) (\<lambda>g.
               case g of
                 None \<Rightarrow> Ret None
               | Some gas_used \<Rightarrow>
                   bindR (get_sender X tx) (\<lambda>sender_opt.
                   let number = h_number (fb_header block);
                       contract_address = (if is_create (t_to tx)
                         then map_option (\<lambda>sender. n_create_address N sender (of_nat (t_nonce tx))) sender_opt
                         else None);
                       rpc_logs = map (\<lambda>(i, log). format_to_rpc_log number block_hash tx_hash tx_index (of_nat i) log)
                         (enumerate 0 (rc_logs receipt)) in
                   Ret (Some \<lparr>rr_transaction_hash = tx_hash, rr_transaction_index = tx_index,
                     rr_block_hash = block_hash, rr_block_number = number,
                     rr_from = unwrap_or sender_opt 0,
                     rr_to = (case t_to tx of TxCreate \<Rightarrow> None | TxCall a \<Rightarrow> Some a),
                     rr_gas_used = gas_used, rr_contract_address = contract_address,
                     rr_status = rc_status receipt, rr_cumulative_gas_used = rc_cumulative_gas_used receipt,
                     rr_logs = rpc_logs, rr_logs_bloom = logs_bloom\<rparr>)))))"

section \<open>Blocks\<close>

datatype block_transactions = FullTransactions "rpc_transaction list" | TransactionHashes "b256 list"

record rpc_block =
  rb_hash :: b256
  rb_header :: full_header
  rb_size :: nat
  rb_transactions :: block_transactions

primrec rpc_transactions ::
  "('t, 'r) ext \<Rightarrow> ('m, 'd, 'c) node_ext \<Rightarrow> b256 \<Rightarrow> u64 \<Rightarrow> u64 \<Rightarrow> (nat \<times> transaction) list \<Rightarrow>
   rpc_transaction list res" where
  "rpc_transactions X N block_hash number timestamp [] = Ret []"
| "rpc_transactions X N block_hash number timestamp (e # es) =
     (let (i, tx) = e in
      bindR (get_sender X tx) (\<lambda>sender.
      bindR (rpc_transactions X N block_hash number timestamp es) (\<lambda>ts.
      Ret (make_rpc_transaction tx (x_keccak256 X (n_encode_tx N tx)) (unwrap_or sender 0) block_hash number
             (of_nat i) timestamp # ts))))"

definition get_block_by_number ::
  "('t, 'r) ext \<Rightarrow> ('m, 'd, 'c) node_ext \<Rightarrow> block_tag \<Rightarrow> bool \<Rightarrow> ('t, 'r) world_state \<Rightarrow>
   (rpc_block option \<times> ('t, 'r) world_state) res" where
  "get_block_by_number X N tag full_transactions ws =
     (case tag_number X tag ws of
        (None, ws1) \<Rightarrow> Ret (None, ws1)
      | (Some block_number, ws1) \<Rightarrow>
          bindR (get_full_block_from_index X N ws1 (sint block_number)) (\<lambda>b.
          case b of
            None \<Rightarrow> Ret (None, ws1)
          | Some block \<Rightarrow>
              let header_rlp = n_encode_header N (fb_header block);
                  calculated_block_hash = x_keccak256 X header_rlp;
                  txs = fb_transactions block in
              bindR (if full_transactions
                     then bindR (rpc_transactions X N calculated_block_hash block_number
                            (h_timestamp (fb_header block)) (enumerate 0 txs)) (\<lambda>ts. Ret (FullTransactions ts))
                     else Ret (TransactionHashes (map (\<lambda>tx. x_keccak256 X (n_encode_tx N tx)) txs)))
                (\<lambda>transactions.
              Ret (Some \<lparr>rb_hash = calculated_block_hash, rb_header = fb_header block,
                rb_size = length header_rlp, rb_transactions = transactions\<rparr>, ws1))))"

section \<open>Calls\<close>

record call_request =
  cr_nonce :: "u64 option"
  cr_gas_price :: "u128 option"
  cr_gas :: "u64 option"
  cr_to :: "tx_kind option"
  cr_value :: "u256 option"
  cr_input :: "byte list option"
  cr_from :: "address option"

definition request_transaction :: "call_request \<Rightarrow> transaction" where
  "request_transaction request =
     \<lparr>t_nonce = unat (unwrap_or (cr_nonce request) 0), t_price = ucast (unwrap_or (cr_gas_price request) 0),
      t_gas_limit = ucast (unwrap_or (cr_gas request) 30000000), t_to = unwrap_or (cr_to request) TxCreate,
      t_value = unwrap_or (cr_value request) 0, t_data = unwrap_or (cr_input request) [],
      t_w = 0, t_r = 0, t_s = 0\<rparr>"

text \<open>
  The part \<open>eth_call\<close> and \<open>estimate_gas\<close> share: execution on a temporary world state at the root of
  the block.  The database wrapper is shared with the node.
\<close>

definition simulate ::
  "('t, 'r) ext \<Rightarrow> ('m, 'd, 'c) node_ext \<Rightarrow> ('t, 'r) runner \<Rightarrow> iteration \<Rightarrow> VersionId \<Rightarrow> call_request \<Rightarrow>
   block_tag option \<Rightarrow> ('t, 'r) world_state \<Rightarrow>
   ((rpc_error + (tx_result \<times> leviathan)) \<times> ('t, 'r) world_state) res" where
  "simulate X N run it version request tag ws =
     bindR (query_block X N tag ws) (\<lambda>(q, ws1).
     case q of
       Inl e \<Rightarrow> Ret (Inl e, ws1)
     | Inr block \<Rightarrow>
         bindR (new_for_call X (ws_data ws1) (h_state_root (fb_header block))) (\<lambda>tmp_state.
         let tmp_leviathan = (leviathan_new version)\<lparr>lv_eth_call := Some (unwrap_or (cr_from request) 0)\<rparr> in
         bindR (transaction_execution X run it tmp_leviathan tmp_state (request_transaction request)
           (block_header.truncate (n_default_header N))) (\<lambda>(result, lv, tmp_state1).
         Ret (Inr (result, lv), ws1\<lparr>ws_data := ws_data tmp_state1\<rparr>))))"

definition eth_call ::
  "('t, 'r) ext \<Rightarrow> ('m, 'd, 'c) node_ext \<Rightarrow> ('t, 'r) runner \<Rightarrow> iteration \<Rightarrow> VersionId \<Rightarrow> call_request \<Rightarrow>
   block_tag option \<Rightarrow> ('t, 'r) world_state \<Rightarrow> ((rpc_error + string) \<times> ('t, 'r) world_state) res" where
  "eth_call X N run it version request tag ws =
     bindR (simulate X N run it version request tag ws) (\<lambda>(r, ws1).
     Ret (case r of Inl e \<Rightarrow> Inl e | Inr (_, lv) \<Rightarrow> Inr (''0x'' @ n_hex N (lv_return_data lv)), ws1))"

definition estimate_gas ::
  "('t, 'r) ext \<Rightarrow> ('m, 'd, 'c) node_ext \<Rightarrow> ('t, 'r) runner \<Rightarrow> iteration \<Rightarrow> VersionId \<Rightarrow> call_request \<Rightarrow>
   block_tag option \<Rightarrow> ('t, 'r) world_state \<Rightarrow> ((rpc_error + string) \<times> ('t, 'r) world_state) res" where
  "estimate_gas X N run it version request tag ws =
     bindR (simulate X N run it version request tag ws) (\<lambda>(r, ws1).
     Ret (case r of
            Inl e \<Rightarrow> Inl e
          | Inr (result, _) \<Rightarrow>
              Inr (hex_number (unat (case result of TxOk used_gas _ \<Rightarrow> used_gas | TxErr used_gas _ \<Rightarrow> used_gas))), ws1))"

section \<open>Logs\<close>

text \<open>First pass: the blocks of the range whose bloom filter matches, with their numbers.\<close>

primrec matching_blocks ::
  "('t, 'r) ext \<Rightarrow> ('m, 'd, 'c) node_ext \<Rightarrow> log_filter \<Rightarrow> ('t, 'r) world_state \<Rightarrow> nat list \<Rightarrow>
   (full_block \<times> u64) list res" where
  "matching_blocks X N f ws [] = Ret []"
| "matching_blocks X N f ws (n # ns) =
     (let block_num = (of_nat n :: u64) in
      bindR (get_full_block_from_index X N ws (sint block_num)) (\<lambda>b.
      bindR (matching_blocks X N f ws ns) (\<lambda>rest.
      Ret (case b of
             None \<Rightarrow> rest
           | Some block \<Rightarrow>
               if \<not> is_bloom_match N (h_logs_bloom (fb_header block)) f then rest
               else (block, block_num) # rest))))"

text \<open>The logs of one transaction; \<open>None\<close> is the error of a receipt that does not decode; the source words its message in Japanese.\<close>

definition transaction_logs ::
  "('t, 'r) ext \<Rightarrow> ('m, 'd, 'c) node_ext \<Rightarrow> log_filter \<Rightarrow> ('t, 'r) world_state \<Rightarrow> full_block \<Rightarrow> u64 \<Rightarrow>
   nat \<times> transaction \<Rightarrow> rpc_log list option" where
  "transaction_logs X N f ws block block_num = (\<lambda>(tx_index, tx).
     (let tx_hash = x_keccak256 X (n_encode_tx N tx) in
      case get_receipt X (ws_data ws) (receipt_key tx_hash) of
        None \<Rightarrow> Some []
      | Some rlp \<Rightarrow>
          (case n_decode_receipt N rlp of
             None \<Rightarrow> None
           | Some (receipt, logs_bloom) \<Rightarrow>
               if \<not> is_bloom_match N logs_bloom f then Some []
               else Some (map (\<lambda>(log_index, log).
                      format_to_rpc_log block_num (n_hash_slow N (fb_header block)) tx_hash (of_nat tx_index)
                        (of_nat log_index) log)
                    (filter (\<lambda>(_, log). is_exact_match log f) (enumerate 0 (rc_logs receipt)))))))"

text \<open>The loops over blocks and transactions stop at the first error.\<close>

primrec collect_logs :: "('a \<Rightarrow> 'b list option) \<Rightarrow> 'a list \<Rightarrow> 'b list option" where
  "collect_logs g [] = Some []"
| "collect_logs g (x # xs) =
     (case g x of
        None \<Rightarrow> None
      | Some ls \<Rightarrow> map_option (\<lambda>rest. ls @ rest) (collect_logs g xs))"

text \<open>The Japanese message of a receipt that does not decode, as the UTF-8 bytes of the literal.\<close>

definition invalid_params_message :: string where
  "invalid_params_message = map char_of
    [(0xE7 :: nat), 0x84, 0xA1, 0xE5, 0x8A, 0xB9, 0xE3, 0x81, 0xAA, 0xE3, 0x83, 0x91, 0xE3, 0x83, 0xA9,
     0xE3, 0x83, 0xA1, 0xE3, 0x83, 0xBC, 0xE3, 0x82, 0xBF, 0xE3, 0x81, 0xA7, 0xE3, 0x81, 0x99]"

definition get_logs ::
  "('t, 'r) ext \<Rightarrow> ('m, 'd, 'c) node_ext \<Rightarrow> log_filter \<Rightarrow> ('t, 'r) world_state \<Rightarrow>
   ((rpc_error + rpc_log list) \<times> ('t, 'r) world_state) res" where
  "get_logs X N f ws =
     (let (latest, ws1) = current_block_number X ws;
          latest_block_num = (of_int latest :: u64);
          from_block = unwrap_or (lf_from_block f) latest_block_num;
          to_block = unwrap_or (lf_to_block f) latest_block_num in
      bindR (matching_blocks X N f ws1 [unat from_block ..< Suc (unat to_block)]) (\<lambda>blocks.
      Ret (case collect_logs (\<lambda>(block, block_num).
               collect_logs (transaction_logs X N f ws1 block block_num) (enumerate 0 (fb_transactions block))) blocks of
             None \<Rightarrow> Inl (-32602, invalid_params_message)
           | Some logs \<Rightarrow> Inr logs, ws1)))"

section \<open>Sending a transaction\<close>

text \<open>
  The HTTP client of CometBFT and the hexadecimal decoder, with the messages of their errors.  The answer
  is the hash of the raw transaction, the key of its receipt and of its lookup entry.
\<close>

record 'h net_ext =
  net_hex_decode :: "string \<Rightarrow> string + byte list"
  net_client :: "string \<Rightarrow> string + 'h"
  net_broadcast_tx_sync :: "'h \<Rightarrow> byte list \<Rightarrow> string + unit"

definition send_raw_transaction ::
  "('t, 'r) ext \<Rightarrow> ('m, 'd, 'c) node_ext \<Rightarrow> 'h net_ext \<Rightarrow> string \<Rightarrow> rpc_error + string" where
  "send_raw_transaction X N H tx_bytes =
     (case net_hex_decode H (trim_0x tx_bytes) of
        Inl e \<Rightarrow> Inl (-32602, ''Hex decode error: '' @ e)
      | Inr tx_data \<Rightarrow>
          let eth_tx_hash = x_keccak256 X tx_data in
          case net_client H ''http://127.0.0.1:26657'' of
            Inl e \<Rightarrow> Inl (-32603, ''CometBFT Client error: '' @ e)
          | Inr client \<Rightarrow>
              case net_broadcast_tx_sync H client tx_data of
                Inl e \<Rightarrow> Inl (-32603, ''Broadcast error: '' @ e)
              | Inr _ \<Rightarrow> Inr (''0x'' @ n_hex N (to_be_bytes eth_tx_hash)))"

end
