(* ===== verification/Transaction_Laws.thy ===== *)
theory Transaction_Laws
  imports Transaction Fuel_Mono Sample
begin

text \<open>
  What a transaction promises: its intrinsic gas in closed form, the checks as a function of the
  sender's account, the payment before and after the call, termination, and what \<open>eth_call\<close> and a
  rejected transaction leave untouched.
\<close>

section \<open>Intrinsic gas\<close>

text \<open>Reference: the sum of the data costs over the naturals.\<close>

definition byte_cost :: "VersionId \<Rightarrow> byte \<Rightarrow> nat" where
  "byte_cost v b = (if b = 0 then 4 else if v < Istanbul then 68 else 16)"

definition create_cost :: "VersionId \<Rightarrow> transaction \<Rightarrow> nat" where
  "create_cost v tx =
     (if t_to tx = TxCreate \<and> Homestead \<le> v
      then 32000 + (if Shanghai \<le> v then 2 * ((length (t_data tx) + 31) div 32) else 0) else 0)"

lemma byte_cost_le: "byte_cost v b \<le> 68"
  by (simp add: byte_cost_def)

lemma sum_list_byte_cost_le: "sum_list (map (byte_cost v) data) \<le> 68 * length data"
  using byte_cost_le [of v] by (induction data) (auto intro: add_mono)

lemma data_gas_fold:
  assumes "unat g + sum_list (map (byte_cost v) data) < 2 ^ 256"
  shows "unat (foldl (\<lambda>acc b. sat_add acc (if b = 0 then 4 else if v < Istanbul then 68 else 16)) g data) =
    unat g + sum_list (map (byte_cost v) data)"
  using assms
proof (induction data arbitrary: g)
  case (Cons b data)
  have "unat (sat_add g (if b = 0 then 4 else if v < Istanbul then 68 else 16)) = unat g + byte_cost v b"
    using Cons.prems by (auto simp: nat_word byte_cost_def)
  then show ?case
    using Cons.IH [of "sat_add g (if b = 0 then 4 else if v < Istanbul then 68 else 16)"] Cons.prems
    by simp
qed simp

lemma unat_data_gas:
  "68 * length data < 2 ^ 256 \<Longrightarrow> unat (data_gas v data) = sum_list (map (byte_cost v) data)"
  using data_gas_fold [of 0 v data] sum_list_byte_cost_le [of v data] by (simp add: data_gas_def)

lemma unat_contract_gas:
  assumes "length (t_data tx) < 2 ^ 240"
  shows "unat (contract_gas v tx) = create_cost v tx"
proof -
  have "unat (of_nat (length (t_data tx)) :: u256) = length (t_data tx)"
    using assms by (simp add: unat_of_nat)
  then show ?thesis
    using assms
    by (auto simp: contract_gas_def create_cost_def Let_def nat_word unat_div version_order split: tx_kind.split)
qed

lemma unat_intrinsic_gas:
  assumes "length (t_data tx) < 2 ^ 240"
  shows "unat (intrinsic_gas v tx) = 21000 + sum_list (map (byte_cost v) (t_data tx)) + create_cost v tx"
proof -
  have d: "unat (data_gas v (t_data tx)) = sum_list (map (byte_cost v) (t_data tx))"
    using assms by (intro unat_data_gas) simp
  have "(length (t_data tx) + 31) div 32 \<le> length (t_data tx) + 31" by (rule div_le_dividend)
  then have c: "create_cost v tx \<le> 32000 + 2 * length (t_data tx) + 62" by (auto simp: create_cost_def)
  have "21000 + unat (data_gas v (t_data tx)) + unat (contract_gas v tx) < 2 ^ 256"
    using assms c sum_list_byte_cost_le [of v "t_data tx"] d unat_contract_gas [OF assms, of v] by simp
  then show ?thesis
    unfolding intrinsic_gas_def by (simp add: unat_add_u256 d unat_contract_gas [OF assms])
qed

section \<open>Checks\<close>

text \<open>The checks on the account of the sender, as a function of what an observer sees of it.\<close>

definition check_account ::
  "VersionId \<Rightarrow> transaction \<Rightarrow> u256 \<Rightarrow> u256 \<Rightarrow> block_header \<Rightarrow> account_view option \<Rightarrow> check_error option"
where
  "check_account v tx init_gas pre_cost header acc =
     (case acc of
        None \<Rightarrow> Some SenderNotFound
      | Some a \<Rightarrow>
          if unat (v_nonce a) \<noteq> t_nonce tx then Some NonceMismatch
          else if v_code a \<noteq> [] then Some SenderHasCode
          else if t_gas_limit tx < init_gas then Some GasLimitTooLow
          else if v_balance a < pre_cost then Some BalanceTooLow
          else if Shanghai \<le> v \<and> t_to tx = TxCreate \<and> length (t_data tx) > 49152 then Some InitCodeTooLong
          else if t_price tx < (case h_base_fee_per_gas header of Some fee \<Rightarrow> ucast fee | None \<Rightarrow> 0)
          then Some PriceBelowBaseFee
          else None)"

definition verdict :: "address \<Rightarrow> check_error option \<Rightarrow> check_error + address" where
  "verdict s e = (case e of None \<Rightarrow> Inr s | Some e \<Rightarrow> Inl e)"

lemma payment_checks_view:
  assumes "payment_checks X v tx pc h s ws = Ret (r, ws')" "view X ws s = Some a"
    and "unat (v_nonce a) = t_nonce tx" "v_code a = []" "\<not> t_gas_limit tx < ig"
  shows "reads X ws ws' \<and> r = verdict s (check_account v tx ig pc h (Some a))"
proof -
  from assms(1) obtain b where b: "get_balance X ws s = Ret (Some b, ws')"
    and r: "r = (if b < pc then Inl BalanceTooLow
          else if Shanghai \<le> v \<and> is_create (t_to tx) \<and> length (t_data tx) > 49152
          then Inl InitCodeTooLong
          else if t_price tx < (case h_base_fee_per_gas h of Some fee \<Rightarrow> ucast fee | None \<Rightarrow> 0)
          then Inl PriceBelowBaseFee
          else Inr s)"
    by (auto simp: payment_checks_def res_simps)
  have "b = v_balance a" using get_balance_view [OF b] assms(2) by simp
  then show ?thesis
    using getters_reads(3) [OF b] assms(3-5) by (simp add: r verdict_def check_account_def is_create_def)
qed

lemma sender_checks_view:
  assumes "sender_checks X v tx ig pc h s ws = Ret (r, ws')"
  shows "reads X ws ws' \<and> r = verdict s (check_account v tx ig pc h (view X ws s))"
proof -
  from assms obtain n ws1 where n: "get_nonce X ws s = Ret (n, ws1)"
    and rest: "(case n of
       None \<Rightarrow> Ret (Inl SenderNotFound, ws1)
     | Some sender_nonce \<Rightarrow>
         if unat sender_nonce \<noteq> t_nonce tx then Ret (Inl NonceMismatch, ws1)
         else
           bindR (get_code X ws1 s) (\<lambda>(c, ws2).
           bindR (unwrap c) (\<lambda>sender_code.
           if sender_code \<noteq> [] then Ret (Inl SenderHasCode, ws2)
           else if t_gas_limit tx < ig then Ret (Inl GasLimitTooLow, ws2)
           else payment_checks X v tx pc h s ws2))) = Ret (r, ws')"
    by (auto simp: sender_checks_def)
  have r1: "reads X ws ws1" using n by (rule getters_reads)
  have nv: "n = map_option v_nonce (view X ws s)" using n by (rule get_nonce_view)
  show ?thesis
  proof (cases "\<exists>a. view X ws s = Some a \<and> unat (v_nonce a) = t_nonce tx")
    case False
    with rest nv r1 show ?thesis
      by (auto simp: check_account_def verdict_def split: option.splits)
  next
    case True
    then obtain a where a: "view X ws s = Some a" "unat (v_nonce a) = t_nonce tx" by blast
    with rest nv obtain c ws2 where c: "get_code X ws1 s = Ret (Some c, ws2)"
      and rest2: "(if c \<noteq> [] then Ret (Inl SenderHasCode, ws2)
           else if t_gas_limit tx < ig then Ret (Inl GasLimitTooLow, ws2)
           else payment_checks X v tx pc h s ws2) = Ret (r, ws')"
      by (auto simp: res_simps)
    have r2: "reads X ws ws2" using r1 getters_reads(4) [OF c] by (rule reads_trans)
    have ca: "c = v_code a" using get_code_view [OF c] a reads_view [OF r1] by simp
    show ?thesis
    proof (cases "c \<noteq> [] \<or> t_gas_limit tx < ig")
      case True
      with a rest2 r2 ca show ?thesis by (auto simp: check_account_def verdict_def)
    next
      case False
      with rest2 have "payment_checks X v tx pc h s ws2 = Ret (r, ws')" by simp
      from payment_checks_view [OF this] False a ca reads_view [OF r2] r2 show ?thesis
        by (auto intro: reads_trans)
    qed
  qed
qed

lemma recover_sender_no_fuel [simp]: "recover_sender X tx \<noteq> OutOfFuel"
  by (simp add: recover_sender_def Let_def no_fuel split: sum.split prod.split option.split)

text \<open>A transaction whose sender was found valid: the account is dead, or the gas is bought.\<close>

lemma accepted_start_cases:
  assumes "(bindR (is_dead X v ws1 s) (\<lambda>(dead, ws2).
      if dead then Ret (None, ws2)
      else
        bindR (inc_nonce s ws2) (\<lambda>ws3.
        bindR (buy_gas s limit price ws3) (\<lambda>(g, ws4).
        bindR (unwrap g) (\<lambda>gas.
        Ret (Some (s, gas, first_substate s h), ws4)))))) = Ret (st, ws')"
  obtains (dead) "st = None" "reads X ws1 ws'"
  | (bought) ws2 ws3 where "reads X ws1 ws2" "inc_nonce s ws2 = Ret ws3"
      "buy_gas s limit price ws3 = Ret (Some limit, ws')" "st = Some (s, limit, first_substate s h)"
proof -
  from assms obtain d ws2 where d: "is_dead X v ws1 s = Ret (d, ws2)" by auto
  note rest = assms [unfolded d bindR.simps prod.case]
  show thesis
  proof (cases d)
    case True
    with rest is_dead_reads [OF d] show thesis by (intro dead) auto
  next
    case False
    with rest obtain ws3 g where "inc_nonce s ws2 = Ret ws3"
      "buy_gas s limit price ws3 = Ret (Some g, ws')" "st = Some (s, g, first_substate s h)"
      by (auto simp: res_simps)
    moreover from this(2) have "g = limit" by (auto simp: buy_gas_def Let_def split: if_splits)
    ultimately show thesis using is_dead_reads [OF d] by (intro bought) auto
  qed
qed

lemma start_checked:
  assumes "start_transaction X lv tx h ws = Ret (st, ws')" "lv_eth_call lv = None"
  obtains (unsigned) e where "recover_sender X tx = Ret (Inl e)" "st = None" "ws' = ws"
  | (rejected) s e where "recover_sender X tx = Ret (Inr s)" "st = None" "reads X ws ws'"
      "check_account (lv_version lv) tx (intrinsic_gas (lv_version lv) tx) (max_cost tx) h (view X ws s) = Some e"
  | (dead) s where "recover_sender X tx = Ret (Inr s)" "st = None" "reads X ws ws'"
  | (started) s ws1 ws2 where "recover_sender X tx = Ret (Inr s)"
      "st = Some (s, t_gas_limit tx, first_substate s h)" "reads X ws ws1"
      "check_account (lv_version lv) tx (intrinsic_gas (lv_version lv) tx) (max_cost tx) h (view X ws s) = None"
      "inc_nonce s ws1 = Ret ws2"
      "buy_gas s (t_gas_limit tx) (t_price tx) ws2 = Ret (Some (t_gas_limit tx), ws')"
proof -
  let ?v = "lv_version lv"
  from assms obtain r where r: "recover_sender X tx = Ret r"
    by (auto simp: start_transaction_def transaction_checks_def)
  note start = assms(1) [unfolded start_transaction_def transaction_checks_def r bindR.simps]
  show thesis
  proof (cases r)
    case (Inl e)
    with r start assms(2) show thesis by (intro unsigned) auto
  next
    case (Inr s)
    with start assms(2) obtain r' ws1 where
      c: "sender_checks X ?v tx (intrinsic_gas ?v tx) (max_cost tx) h s ws = Ret (r', ws1)" by auto
    note cv = sender_checks_view [OF c]
    show thesis
    proof (cases "check_account ?v tx (intrinsic_gas ?v tx) (max_cost tx) h (view X ws s)")
      case (Some e)
      with c cv start r Inr assms(2) show thesis by (intro rejected) (auto simp: verdict_def)
    next
      case None
      with cv have "r' = Inr s" "reads X ws ws1" by (simp_all add: verdict_def)
      with start Inr assms(2) c show thesis
        by simp (erule accepted_start_cases;
            use r Inr None in \<open>auto intro: dead started reads_trans\<close>)
    qed
  qed
qed

lemma inc_nonce_view:
  assumes "inc_nonce s ws = Ret ws'"
  shows "\<exists>a. view X ws s = Some a \<and> view X ws' = (view X ws)(s \<mapsto> a\<lparr>v_nonce := v_nonce a + 1\<rparr>) \<and>
    v_nonce a \<noteq> - 1"
  using assms by (auto simp: inc_nonce_def res_simps view_cached split: if_splits)

lemma buy_gas_view:
  assumes "buy_gas s l p ws = Ret (Some g, ws')"
  shows "\<exists>a. view X ws s = Some a \<and> sat_mul l p \<le> v_balance a \<and>
    view X ws' = (view X ws)(s \<mapsto> a\<lparr>v_balance := v_balance a - sat_mul l p\<rparr>)"
  using assms by (auto simp: buy_gas_def Let_def res_simps view_cached split: if_splits)

section \<open>Refund and reward\<close>

lemma refunded_gas_bounds:
  assumes "g \<le> t_gas_limit tx"
  shows "unat g \<le> unat (refunded_gas v tx g ss)"
    and "unat (refunded_gas v tx g ss) \<le>
      unat g + (unat (t_gas_limit tx) - unat g) div (if v < London then 2 else 5)"
proof -
  let ?k = "if v < London then 2 else 5 :: u256"
  let ?m = "sat_sub (t_gas_limit tx) g div ?k"
  define r where "r = min ?m (of_int (max (a_reimburse ss) 0))"
  have eq: "refunded_gas v tx g ss = sat_add g r"
    by (simp add: refunded_gas_def Let_def r_def)
  have m: "unat ?m = (unat (t_gas_limit tx) - unat g) div (if v < London then 2 else 5)"
    by (simp add: unat_div unat_sat_sub)
  have "unat r \<le> unat ?m" by (simp add: r_def le_unat [symmetric])
  with m show "unat (refunded_gas v tx g ss) \<le>
      unat g + (unat (t_gas_limit tx) - unat g) div (if v < London then 2 else 5)"
    by (simp add: eq unat_sat_add min.coboundedI1)
  show "unat g \<le> unat (refunded_gas v tx g ss)"
    using u256_le [of g] by (simp add: eq unat_sat_add)
qed

lemma refunded_gas_le:
  assumes "g \<le> t_gas_limit tx"
  shows "refunded_gas v tx g ss \<le> t_gas_limit tx"
proof -
  have "(unat (t_gas_limit tx) - unat g) div (if v < London then 2 else 5) \<le> unat (t_gas_limit tx) - unat g"
    by (rule div_le_dividend)
  then show ?thesis
    using refunded_gas_bounds(2) [OF assms, of v ss] assms unfolding le_unat by linarith
qed

lemma unat_sat_mul_small: "unat a * unat b < 2 ^ 256 \<Longrightarrow> unat (sat_mul a b) = unat a * unat b"
  by (simp add: unat_sat_mul)

text \<open>Nothing saturates when the price of the whole gas limit fits, and the two payments add up to it.\<close>

lemma payments_add_up:
  assumes "g \<le> t_gas_limit tx" "unat (t_gas_limit tx) * unat (t_price tx) < 2 ^ 256"
    and "miner_price v tx h \<le> t_price tx"
  shows "unat (sat_mul g (t_price tx)) +
      unat (sat_mul (sat_sub (t_gas_limit tx) g) (miner_price v tx h)) +
      (unat (t_gas_limit tx) - unat g) * (unat (t_price tx) - unat (miner_price v tx h)) =
    unat (t_gas_limit tx) * unat (t_price tx)"
proof -
  let ?l = "unat (t_gas_limit tx)" and ?p = "unat (t_price tx)" and ?m = "unat (miner_price v tx h)"
  have le: "unat g \<le> ?l" "?m \<le> ?p" using assms(1,3) by (simp_all add: le_unat)
  have "unat g * ?p \<le> ?l * ?p" "(?l - unat g) * ?m \<le> ?l * ?p"
    using le by (auto intro: mult_le_mono)
  then have "unat g * ?p < 2 ^ 256" "unat (sat_sub (t_gas_limit tx) g) * ?m < 2 ^ 256"
    using assms(2) unfolding unat_sat_sub by linarith+
  then have "unat (sat_mul g (t_price tx)) = unat g * ?p"
    "unat (sat_mul (sat_sub (t_gas_limit tx) g) (miner_price v tx h)) = (?l - unat g) * ?m"
    by (simp_all only: unat_sat_mul_small unat_sat_sub)
  moreover have "unat g * ?p + (?l - unat g) * ?m + (?l - unat g) * (?p - ?m) = ?l * ?p"
  proof -
    have "(?l - unat g) * ?m + (?l - unat g) * (?p - ?m) = (?l - unat g) * ?p"
      using le(2) by (simp add: distrib_left [symmetric])
    moreover have "unat g * ?p + (?l - unat g) * ?p = ?l * ?p"
      using le(1) by (simp add: distrib_right [symmetric])
    ultimately show ?thesis by simp
  qed
  ultimately show ?thesis by simp
qed

lemma credit_view:
  assumes "credit X v a x ws = Ret ws'"
  shows "\<exists>acc. view X ws' = (view X ws)(a \<mapsto> acc) \<and>
    v_balance acc = (case view X ws a of Some o' \<Rightarrow> v_balance o' | None \<Rightarrow> 0) + x"
proof -
  from assms obtain d ws1 ws2 where d: "is_dead X v ws a = Ret (d, ws1)"
    and m: "(if d then bindR (is_physically_exist X ws1 a) (\<lambda>(ex, ws2).
          Ret (if \<not> ex then add_account a (account_new X) ws2 else ws2)) else Ret ws1) = Ret ws2"
    and b: "add_balance a x ws2 = Ret ws'" by (auto simp: credit_def)
  have r1: "view X ws1 = view X ws" using is_dead_reads [OF d] by (rule reads_view)
  have "view X ws2 = view X ws \<or> view X ws a = None \<and>
      view X ws2 = (view X ws)(a \<mapsto> view_account X (ws_data ws2) (account_new X))"
  proof (cases d)
    case True
    with m obtain ex ws3 where ex: "is_physically_exist X ws1 a = Ret (ex, ws3)"
      "ws2 = (if \<not> ex then add_account a (account_new X) ws3 else ws3)" by auto
    have "view X ws3 = view X ws" using reads_view [OF getters_reads(1) [OF ex(1)]] r1 by simp
    moreover have "ex \<longleftrightarrow> view X ws a \<noteq> None" using is_physically_exist_view [OF ex(1)] r1 by simp
    ultimately show ?thesis using ex(2) by auto
  qed (use m r1 in simp)
  moreover from b obtain acc where c: "ws_cache ws2 a = Some acc"
    "ws' = add_account a (acc\<lparr>acc_balance := acc_balance acc + x\<rparr>) ws2"
    by (auto simp: add_balance_def res_simps)
  moreover from c(1) have "view X ws2 a = Some (view_account X (ws_data ws2) acc)" by (rule view_cached)
  ultimately have "view X ws' = (view X ws)(a \<mapsto> (view_account X (ws_data ws2) acc)\<lparr>v_balance := acc_balance acc + x\<rparr>)"
    and "acc_balance acc = (case view X ws a of Some o' \<Rightarrow> v_balance o' | None \<Rightarrow> 0)"
    by (auto dest!: arg_cong [where f = v_balance])
  then show ?thesis by auto
qed

lemma transaction_checks_reads:
  "transaction_checks X v tx ig pc h ws = Ret (r, ws') \<Longrightarrow> reads X ws ws'"
  by (auto simp: transaction_checks_def split: sum.splits dest!: sender_checks_view)

section \<open>No operation here exhausts fuel\<close>

lemma credit_no_fuel [simp]: "credit X v a x ws \<noteq> OutOfFuel"
  by (auto simp: credit_def no_fuel)

lemma sweep_touched_no_fuel [simp]: "sweep_touched X v as ws \<noteq> OutOfFuel"
  by (induction as arbitrary: ws) (auto simp: no_fuel)

lemma trie_root_no_fuel [simp]: "trie_root X d t \<noteq> OutOfFuel"
  by (auto simp: trie_root_def no_fuel)

lemma write_slot_no_fuel [simp]: "write_slot X d kv st \<noteq> OutOfFuel"
  by (cases kv; cases st) (simp add: write_slot_def Let_def no_fuel)

lemma write_slots_no_fuel [simp]: "write_slots X d kvs st \<noteq> OutOfFuel"
  by (induction kvs arbitrary: st) (simp_all add: no_fuel)

lemma commit_account_no_fuel [simp]: "commit_account X it e ws \<noteq> OutOfFuel"
  by (cases e) (auto simp: commit_account_def commit_storage_def put_account_def Let_def no_fuel)

lemma commit_accounts_no_fuel [simp]: "commit_accounts X it es ws \<noteq> OutOfFuel"
  by (induction es arbitrary: ws) (auto simp: no_fuel)

lemma publish_root_no_fuel [simp]: "publish_root X ws \<noteq> OutOfFuel"
  by (auto simp: publish_root_def update_eth_trie_def no_fuel)

lemma commit_cache_no_fuel [simp]: "commit_cache X it ws \<noteq> OutOfFuel"
  by (simp add: commit_cache_def no_fuel)

lemma settle_no_fuel [simp]: "settle X it v tx h s g ss ws \<noteq> OutOfFuel"
  by (simp add: settle_def Let_def no_fuel)

lemma finish_transaction_no_fuel [simp]: "finish_transaction X it tx h s r lv ws ss \<noteq> OutOfFuel"
  by (simp add: finish_transaction_def no_fuel split: call_result.split prod.split)

lemma transaction_checks_no_fuel [simp]: "transaction_checks X v tx ig pc h ws \<noteq> OutOfFuel"
  by (simp add: transaction_checks_def sender_checks_def payment_checks_def no_fuel
      split: sum.split option.split prod.split)

lemma buy_gas_no_fuel [simp]: "buy_gas a l p ws \<noteq> OutOfFuel"
  by (auto simp: buy_gas_def Let_def no_fuel)

lemma start_transaction_no_fuel [simp]: "start_transaction X lv tx h ws \<noteq> OutOfFuel"
  by (simp add: start_transaction_def no_fuel split: sum.split option.split prod.split)

text \<open>The gas a transaction starts with is its gas limit.\<close>

lemma start_gas:
  assumes "start_transaction X lv tx h ws = Ret (Some (s, g, ss), ws')"
  shows "g = t_gas_limit tx"
proof (cases "lv_eth_call lv")
  case None
  with assms show ?thesis by (cases rule: start_checked) auto
qed (use assms in \<open>simp add: start_transaction_def\<close>)

text \<open>A transaction keeps the mode of its \<open>LEVIATHAN\<close>, and the call itself does not touch the store.\<close>

lemma transaction_call_frame:
  assumes "transaction_call X (evm_run X n) tx h s g lv ws ss = Ret (res, lv', ws', ss')"
  shows "lv_eth_call lv' = lv_eth_call lv \<and> same_store ws ws' \<and> (gas_ok g \<longrightarrow> unat (cgas res) \<le> unat g)"
  using assms
  by (auto simp: transaction_call_def split: tx_kind.splits
      dest: interpreter.message_call_lv interpreter.message_call_frame
      interpreter.contract_creation_lv interpreter.contract_creation_frame)

lemma eth_call_store:
  assumes "transaction_execution X (evm_run X n) it lv ws tx h = Ret (r, lv', ws')" "lv_eth_call lv = Some s"
  shows "same_store ws ws'"
proof -
  let ?lv = "lv\<lparr>lv_return_data := []\<rparr>"
  from assms obtain res lv1 ws1 ss ss1 where
    c: "transaction_call X (evm_run X n) tx h s (sat_sub (t_gas_limit tx) (intrinsic_gas (lv_version lv) tx))
        ?lv ws ss = Ret (res, lv1, ws1, ss1)"
    and rest: "(if lv_eth_call lv1 \<noteq> None then
            let (r, lv2) = finish_eth_call tx res lv1 ss1 in Ret (r, lv2, ws1)
          else finish_transaction X it tx h s res lv1 ws1 ss1) = Ret (r, lv', ws')"
    by (auto simp: transaction_execution_def start_transaction_def Let_def)
  from transaction_call_frame [OF c] assms(2) rest show ?thesis by (auto split: prod.splits)
qed

section \<open>Properties\<close>

text \<open>
  C34.  Intrinsic gas: 21000, the cost of every data byte (4 for a zero byte, else 68 before Istanbul
  and 16 from Istanbul on), and for a creation 32000 from Homestead on plus 2 per word of init code
  from Shanghai on.  Neither the saturating loop nor the wrapping sum of the source loses anything.
\<close>

theorem intrinsic_gas_correct:
  assumes "length (t_data tx) < 2 ^ 240"
  shows "unat (intrinsic_gas v tx) = 21000 + sum_list (map (byte_cost v) (t_data tx)) + create_cost v tx"
  using assms by (rule unat_intrinsic_gas)

definition sample_tx :: "u256 \<Rightarrow> u256 \<Rightarrow> u256 \<Rightarrow> transaction" where
  "sample_tx limit price value = \<lparr>t_nonce = 3, t_price = price, t_gas_limit = limit, t_to = TxCall 0x100,
     t_value = value, t_data = [0, 1], t_w = 27, t_r = 1, t_s = 1\<rparr>"

lemma sample_tx_sel [simp]:
  "t_nonce (sample_tx l p x) = 3" "t_price (sample_tx l p x) = p" "t_gas_limit (sample_tx l p x) = l"
  "t_to (sample_tx l p x) = TxCall 0x100" "t_value (sample_tx l p x) = x" "t_data (sample_tx l p x) = [0, 1]"
  "t_w (sample_tx l p x) = 27" "t_r (sample_tx l p x) = 1" "t_s (sample_tx l p x) = 1"
  by (simp_all add: sample_tx_def)

theorem intrinsic_gas_correct_witness: "unat (intrinsic_gas Istanbul (sample_tx 0 0 0)) = 21020"
  using intrinsic_gas_correct [of "sample_tx 0 0 0" Istanbul]
  by (simp add: byte_cost_def create_cost_def version_order)

text \<open>
  C25.  The checks of a transaction decide exactly the conditions on the recovered sender's account
  (nonce, no code, intrinsic gas, balance, init code length, base fee, in this order), read the
  account through the cache or the trie alike, and change nothing an observer can see.
\<close>

theorem transaction_checks_correct:
  assumes "transaction_checks X v tx ig pc h ws = Ret (r, ws')"
  shows "(\<exists>e. recover_sender X tx = Ret (Inl e) \<and> r = Inl e \<and> ws' = ws) \<or>
    (\<exists>s. recover_sender X tx = Ret (Inr s) \<and> reads X ws ws' \<and>
       r = verdict s (check_account v tx ig pc h (view X ws s)))"
  using assms by (auto simp: transaction_checks_def split: sum.splits dest!: sender_checks_view)

text \<open>A signature library that recovers one key, and a hash that gives it the address \<open>0x200\<close>.\<close>

definition signing_ext :: "(unit, unit) ext" where
  "signing_ext = sample_ext\<lparr>x_ecdsa_recover := (\<lambda>_ _ _. Some (replicate 65 4)), x_keccak256 := (\<lambda>_. 0x200)\<rparr>"

lemma sample_recover: "recover_sender signing_ext (sample_tx l p x) = Ret (Inr 0x200)"
  by (simp add: recover_sender_def split_v_def signing_ext_def slice_of_def Let_def from_word_def)

lemma sample_checks:
  "transaction_checks signing_ext Istanbul (sample_tx l 0 x) ig x sample_header sample_world =
     Ret (if l < ig then Inl GasLimitTooLow else if 1000 < x then Inl BalanceTooLow else Inr 0x200, sample_world)"
  by (auto simp: transaction_checks_def sample_recover sender_checks_def payment_checks_def get_nonce_def
      get_code_def get_balance_def with_account_def
      is_create_def sample_header_def version_order)

theorem transaction_checks_correct_witness:
  "reads signing_ext sample_world sample_world \<and>
   verdict 0x200 (check_account Istanbul (sample_tx 30000 0 5) 21020 5 sample_header
     (view signing_ext sample_world 0x200)) = Inr 0x200"
  using transaction_checks_correct [OF sample_checks [of 30000 5 21020]]
  by (simp add: sample_recover)

text \<open>
  C33.  A transaction that is accepted has the nonce of its sender's account, which has no code; the
  account pays \<open>gas limit * price\<close> in advance and its nonce advances by one; no other account
  changes, and the machine gets the whole gas limit.
\<close>

theorem upfront_payment:
  assumes "start_transaction X lv tx h ws = Ret (Some (s, g, ss), ws')" "lv_eth_call lv = None"
  shows "\<exists>a. view X ws s = Some a \<and> unat (v_nonce a) = t_nonce tx \<and> v_code a = [] \<and>
    intrinsic_gas (lv_version lv) tx \<le> t_gas_limit tx \<and> sat_mul (t_gas_limit tx) (t_price tx) \<le> v_balance a \<and>
    view X ws' = (view X ws)(s \<mapsto> a\<lparr>v_nonce := v_nonce a + 1,
      v_balance := v_balance a - sat_mul (t_gas_limit tx) (t_price tx)\<rparr>) \<and>
    g = t_gas_limit tx \<and> ss = first_substate s h"
  using assms
proof (cases rule: start_checked)
  case (started s' ws1 ws2)
  from inc_nonce_view [OF started(5), of X] obtain a where a: "view X ws s' = Some a"
    "view X ws2 = (view X ws)(s' \<mapsto> a\<lparr>v_nonce := v_nonce a + 1\<rparr>)"
    using reads_view [OF started(3)] by auto
  with buy_gas_view [OF started(6), of X]
  have "sat_mul (t_gas_limit tx) (t_price tx) \<le> v_balance a"
    "view X ws' = (view X ws)(s' \<mapsto> a\<lparr>v_nonce := v_nonce a + 1,
      v_balance := v_balance a - sat_mul (t_gas_limit tx) (t_price tx)\<rparr>)" by auto
  with a started(2,4) show ?thesis
    by (auto simp: check_account_def not_less split: if_splits)
qed simp_all

lemma sample_start:
  "start_transaction signing_ext (leviathan_new Istanbul) (sample_tx 30000 0 5) sample_header sample_world =
     Ret (Some (0x200, 30000, first_substate 0x200 sample_header),
       add_account 0x200 (sample_account 4 1000) sample_world)"
proof -
  have "intrinsic_gas Istanbul (sample_tx 30000 0 5) = 21020" "max_cost (sample_tx 30000 0 5) = 5"
    by (simp_all add: intrinsic_gas_def data_gas_def contract_gas_def sat_add_def max_cost_def
        sat_mul_def version_order)
  then show ?thesis
    by (simp add: start_transaction_def sample_checks is_dead_def is_empty_def
        inc_nonce_def buy_gas_def add_account_def
        sat_mul_def version_order Let_def)
qed

theorem upfront_payment_witness:
  "\<exists>a. view signing_ext sample_world 0x200 = Some a \<and> unat (v_nonce a) = 3 \<and> v_balance a = 1000 \<and>
     view signing_ext (add_account 0x200 (sample_account 4 1000) sample_world) =
       (view signing_ext sample_world)(0x200 \<mapsto> a\<lparr>v_nonce := v_nonce a + 1, v_balance := v_balance a - 0\<rparr>)"
proof -
  have "view signing_ext sample_world 0x200 = Some (view_account signing_ext sample_db (sample_account 3 1000))"
    by (simp add: view_def)
  then show ?thesis
    using upfront_payment [OF sample_start] by (simp add: sat_mul_def)
qed

text \<open>
  A transaction whose signature cannot be recovered, or whose sender fails a check, costs nothing
  and changes nothing: the result is an error with zero gas and no logs, and nothing an observer can
  see of the state has changed.
\<close>

theorem rejected_transaction_unchanged:
  assumes "transaction_execution X run it lv ws tx h = Ret (r, lv', ws')" "lv_eth_call lv = None"
    and "recover_sender X tx = Ret (Inl e) \<or>
      recover_sender X tx = Ret (Inr s) \<and>
        check_account (lv_version lv) tx (intrinsic_gas (lv_version lv) tx) (max_cost tx) h (view X ws s) = Some e"
  shows "r = TxErr 0 [] \<and> view X ws' = view X ws \<and> same_store ws ws' \<and> lv_journal lv' = lv_journal lv"
proof -
  let ?lv = "lv\<lparr>lv_return_data := []\<rparr>"
  from assms(1) obtain st ws1 where s: "start_transaction X ?lv tx h ws = Ret (st, ws1)"
    by (auto simp: transaction_execution_def Let_def)
  have eth: "lv_eth_call ?lv = None" using assms(2) by simp
  have "st = None \<and> reads X ws ws1"
    using s eth by (cases rule: start_checked) (use assms(3) in auto)
  with s assms(1) show ?thesis by (auto simp: transaction_execution_def Let_def reads_view reads_same_store)
qed

lemma sample_rejected:
  "transaction_execution signing_ext run it (leviathan_new Istanbul) sample_world (sample_tx 100 0 5) sample_header =
     Ret (TxErr 0 [], leviathan_new Istanbul, sample_world)"
proof -
  have "intrinsic_gas Istanbul (sample_tx 100 0 5) = 21020" "max_cost (sample_tx 100 0 5) = 5"
    by (simp_all add: intrinsic_gas_def data_gas_def contract_gas_def sat_add_def max_cost_def
        sat_mul_def version_order)
  then show ?thesis
    by (simp add: transaction_execution_def start_transaction_def sample_checks leviathan_new_def Let_def)
qed

theorem rejected_transaction_unchanged_witness:
  "\<exists>r lv' ws'. transaction_execution signing_ext (evm_run signing_ext 0)
      \<lparr>it_accounts = (\<lambda>_. []), it_slots = (\<lambda>_ _. [])\<rparr> (leviathan_new Istanbul) sample_world
      (sample_tx 100 0 5) sample_header = Ret (r, lv', ws') \<and>
    r = TxErr 0 [] \<and> view signing_ext ws' = view signing_ext sample_world"
proof -
  have g: "intrinsic_gas Istanbul (sample_tx 100 0 5) = 21020"
    by (simp add: intrinsic_gas_def data_gas_def contract_gas_def sat_add_def version_order)
  have "check_account Istanbul (sample_tx 100 0 5) 21020 (max_cost (sample_tx 100 0 5)) sample_header
      (view signing_ext sample_world 0x200) = Some GasLimitTooLow"
    by (simp add: check_account_def view_def)
  then show ?thesis
    using rejected_transaction_unchanged [OF sample_rejected [of "evm_run signing_ext 0"]]
    by (simp add: sample_rejected sample_recover g)
qed

text \<open>
  The refund is capped: after a success at least half of the used gas (four fifths from London
  on) stays billed, the gas given back is at least what was left and at most the gas limit.
\<close>

theorem refund_capped:
  assumes "g \<le> t_gas_limit tx"
  shows "g \<le> refunded_gas v tx g ss \<and> refunded_gas v tx g ss \<le> t_gas_limit tx \<and>
    unat (refunded_gas v tx g ss) - unat g \<le>
      (unat (t_gas_limit tx) - unat g) div (if v < London then 2 else 5)"
  using refunded_gas_bounds [OF assms, of v ss] refunded_gas_le [OF assms, of v ss]
  by (auto simp: le_unat)

theorem refund_capped_witness:
  "unat (refunded_gas London (sample_tx 30000 0 0) 5000 (substate_new\<lparr>a_reimburse := 90000\<rparr>)) - unat (5000 :: u256)
     \<le> 5000"
  using refund_capped [of 5000 "sample_tx 30000 0 0" London "substate_new\<lparr>a_reimburse := 90000\<rparr>"] by simp

text \<open>
  C24.  Money is conserved by the settlement: what the sender gets back, what the beneficiary earns and
  what the base fee burns (from London on) add up to the \<open>gas limit * price\<close> paid in advance.  The two
  accounts are credited with exactly these amounts, one after the other, and no other account changes
  before the removals.
\<close>

definition balance_of :: "('t, 'r) ext \<Rightarrow> ('t, 'r) world_state \<Rightarrow> address \<Rightarrow> u256" where
  "balance_of X ws a = (case view X ws a of Some acc \<Rightarrow> v_balance acc | None \<Rightarrow> 0)"

theorem settlement_conserves:
  assumes "settle X it v tx h s g ss ws = Ret (billed, ws')" "g \<le> t_gas_limit tx"
    and "unat (t_gas_limit tx) * unat (t_price tx) < 2 ^ 256" "miner_price v tx h \<le> t_price tx"
  shows "\<exists>refund reward ws1 ws2 a b.
    view X ws1 = (view X ws)(s \<mapsto> a) \<and> v_balance a = balance_of X ws s + refund \<and>
    view X ws2 = (view X ws1)(h_beneficiary h \<mapsto> b) \<and>
    v_balance b = balance_of X ws1 (h_beneficiary h) + reward \<and>
    bindR (sweep_touched X v (rev (a_touch ss)) ws2) (\<lambda>ws3.
      commit_cache X it (sweep_destroyed X (rev (a_des ss)) ws3)) = Ret ws' \<and>
    unat billed = unat (t_gas_limit tx) - unat g \<and>
    unat refund + unat reward + unat billed * (unat (t_price tx) - unat (miner_price v tx h)) =
      unat (t_gas_limit tx) * unat (t_price tx)"
proof -
  from assms(1) obtain ws1 ws2 where c: "credit X v s (sat_mul g (t_price tx)) ws = Ret ws1"
    "credit X v (h_beneficiary h) (sat_mul (sat_sub (t_gas_limit tx) g) (miner_price v tx h)) ws1 = Ret ws2"
    and rest: "billed = sat_sub (t_gas_limit tx) g"
      "bindR (sweep_touched X v (rev (a_touch ss)) ws2) (\<lambda>ws3.
        commit_cache X it (sweep_destroyed X (rev (a_des ss)) ws3)) = Ret ws'"
    by (auto simp: settle_def Let_def)
  from credit_view [OF c(1), folded balance_of_def] credit_view [OF c(2), folded balance_of_def]
  obtain a b where v: "view X ws1 = (view X ws)(s \<mapsto> a)"
    "v_balance a = balance_of X ws s + sat_mul g (t_price tx)"
    "view X ws2 = (view X ws1)(h_beneficiary h \<mapsto> b)"
    "v_balance b = balance_of X ws1 (h_beneficiary h) +
       sat_mul (sat_sub (t_gas_limit tx) g) (miner_price v tx h)" by blast
  show ?thesis
    by (rule exI [of _ "sat_mul g (t_price tx)"],
        rule exI [of _ "sat_mul (sat_sub (t_gas_limit tx) g) (miner_price v tx h)"],
        rule exI [of _ ws1], rule exI [of _ ws2], rule exI [of _ a], rule exI [of _ b])
       (use payments_add_up [OF assms(2-4)] rest v in \<open>simp add: unat_sat_sub\<close>)
qed

definition sample_order :: iteration where
  "sample_order = \<lparr>it_accounts = (\<lambda>_. []), it_slots = (\<lambda>_ _. [])\<rparr>"

lemma sample_settle:
  "\<exists>ws'. settle signing_ext sample_order Istanbul (sample_tx 30000 2 5) sample_header 0x200 10000 substate_new
     sample_world = Ret (20000, ws')"
  by (simp add: settle_def credit_def is_dead_def is_empty_def is_physically_exist_def with_account_def
      trie_lookup_def contain_mpt_def add_balance_def update_cached_def add_account_def sample_world_def
      sample_header_def substate_new_def sweep_destroyed_def commit_cache_def commit_accounts_def
      publish_root_def trie_root_def update_eth_trie_def sample_order_def signing_ext_def sat_sub_def
      version_order Let_def)

theorem settlement_conserves_witness:
  "\<exists>refund reward ws1 a. view signing_ext ws1 = (view signing_ext sample_world)(0x200 \<mapsto> a) \<and>
     v_balance a = balance_of signing_ext sample_world 0x200 + refund \<and> unat refund + unat (reward :: u256) = 60000"
proof -
  obtain ws' where "settle signing_ext sample_order Istanbul (sample_tx 30000 2 5) sample_header 0x200 10000
    substate_new sample_world = Ret (20000, ws')" using sample_settle by blast
  from settlement_conserves [OF this] show ?thesis
    by (simp add: miner_price_def version_order) (elim exE conjE, intro exI conjI, assumption+)
qed

text \<open>
  C35.  Overflow of the advance cost: \<open>max_cost\<close> adds the value to a saturated product, so the sum can
  wrap to a small number and the balance check passes although the sender cannot pay for the gas.
  Whenever the checks accept a sender whose balance is below the saturated product, the transaction
  panics at the unwrap of the bought gas.
\<close>

theorem wrapped_cost_panics:
  assumes "transaction_checks X (lv_version lv) tx (intrinsic_gas (lv_version lv) tx) (max_cost tx) h ws = Ret (Inr s, wa)"
    and "is_dead X (lv_version lv) wa s = Ret (False, wb)" "inc_nonce s wb = Ret wc"
    and "view X ws s = Some a" "v_balance a < sat_mul (t_gas_limit tx) (t_price tx)" "lv_eth_call lv = None"
  shows "transaction_execution X run it lv ws tx h = Panic"
proof -
  have "reads X ws wb" using transaction_checks_reads [OF assms(1)] is_dead_reads [OF assms(2)] by (rule reads_trans)
  then have "view X wb s = Some a" using assms(4) by (simp add: reads_view)
  with inc_nonce_view [OF assms(3), of X] have v: "view X wc s = Some (a\<lparr>v_nonce := v_nonce a + 1\<rparr>)" by auto
  from assms(3) obtain acc where acc: "ws_cache wc s = Some acc"
    by (auto simp: inc_nonce_def res_simps split: if_splits)
  with v have "acc_balance acc = v_balance a" by (auto simp: view_cached dest!: arg_cong [where f = v_balance])
  with acc assms(5) have "buy_gas s (t_gas_limit tx) (t_price tx) wc = Ret (None, wc)"
    by (simp add: buy_gas_def Let_def)
  with assms(1-3,6) show ?thesis
    by (simp add: transaction_execution_def start_transaction_def Let_def)
qed

lemma sample_checks_wrapped:
  "transaction_checks signing_ext Istanbul (sample_tx l p x) 21020 0 sample_header sample_world =
     Ret (if l < 21020 then Inl GasLimitTooLow else Inr 0x200, sample_world)"
  by (simp add: transaction_checks_def sample_recover sender_checks_def payment_checks_def get_nonce_def
      get_code_def get_balance_def with_account_def is_create_def sample_header_def version_order)

theorem wrapped_cost_panics_witness:
  "transaction_execution signing_ext (evm_run signing_ext 0) sample_order (leviathan_new Istanbul) sample_world
     (sample_tx (2 ^ 200) (2 ^ 200) 1) sample_header = Panic"
proof (rule wrapped_cost_panics [where s = "0x200" and wa = sample_world and wb = sample_world])
  have "intrinsic_gas Istanbul (sample_tx (2 ^ 200) (2 ^ 200) 1) = 21020"
    "max_cost (sample_tx (2 ^ 200) (2 ^ 200) 1) = 0"
    by (simp_all add: intrinsic_gas_def data_gas_def contract_gas_def sat_add_def max_cost_def
        sat_mul_def version_order)
  then show "transaction_checks signing_ext (lv_version (leviathan_new Istanbul)) (sample_tx (2 ^ 200) (2 ^ 200) 1)
      (intrinsic_gas (lv_version (leviathan_new Istanbul)) (sample_tx (2 ^ 200) (2 ^ 200) 1))
      (max_cost (sample_tx (2 ^ 200) (2 ^ 200) 1)) sample_header sample_world = Ret (Inr 0x200, sample_world)"
    by (simp add: sample_checks_wrapped)
  show "is_dead signing_ext (lv_version (leviathan_new Istanbul)) sample_world 0x200 = Ret (False, sample_world)"
    by (simp add: is_dead_def is_empty_def version_order)
  show "inc_nonce 0x200 sample_world = Ret (add_account 0x200 (sample_account 4 1000) sample_world)"
    by (simp add: inc_nonce_def)
  show "view signing_ext sample_world 0x200 = Some (view_account signing_ext sample_db (sample_account 3 1000))"
    by (simp add: view_def)
qed (simp_all add: sat_mul_def)

text \<open>
  C14.  A transaction terminates: with more fuel than its gas limit the interpreter is never cut off,
  whatever the code, the state and the order in which the commit visits the cache.
\<close>

theorem transaction_terminates:
  assumes "gas_ok (t_gas_limit tx)" "unat (t_gas_limit tx) < n"
  shows "transaction_execution X (evm_run X n) it lv ws tx h \<noteq> OutOfFuel"
proof -
  have enough: "enough (evm_run X n) (sat_sub (t_gas_limit tx) c)" for c
    by (rule evm_run_enough) (use assms in \<open>auto simp: gas_ok_def unat_sat_sub\<close>)
  have call: "transaction_call X (evm_run X n) tx h s (sat_sub (t_gas_limit tx) c) lv ws ss \<noteq> OutOfFuel" for s c lv ws ss
    by (simp add: transaction_call_def message_call_no_fuel [OF enough] contract_creation_no_fuel [OF enough]
        split: tx_kind.split)
  show ?thesis
    by (simp add: transaction_execution_def Let_def no_fuel call split: option.split prod.split)
       (metis call start_gas)
qed

theorem transaction_terminates_witness:
  "transaction_execution signing_ext (evm_run signing_ext 30001) sample_order (leviathan_new Istanbul) sample_world
     (sample_tx 30000 0 5) sample_header \<noteq> OutOfFuel"
  by (rule transaction_terminates) (simp_all add: gas_ok_def)

text \<open>
  An \<open>eth_call\<close> writes nothing to the store: the database, the write batch and the state trie
  stay as they are, and neither the sender nor the beneficiary is charged or paid.
\<close>

theorem eth_call_keeps_store:
  assumes "transaction_execution X (evm_run X n) it lv ws tx h = Ret (r, lv', ws')" "lv_eth_call lv = Some s"
  shows "same_store ws ws'"
  using assms by (rule eth_call_store)

lemma sample_eth_call:
  "\<exists>r lv' ws'. transaction_execution sample_ext (evm_run sample_ext (Suc 0)) sample_order
     ((leviathan_new Istanbul)\<lparr>lv_eth_call := Some 0x200\<rparr>) sample_world (sample_tx 30000 0 0) sample_header =
     Ret (r, lv', ws')"
  by (simp add: transaction_execution_def start_transaction_def transaction_call_def message_call_def
      transfer_value_def run_contract_def precompiled_def into_word_def get_code_def with_account_def
      stop_at_once evm_new_def return_gas_def finish_eth_call_def version_order Let_def
      del: evm_run.simps)

theorem eth_call_keeps_store_witness:
  "\<exists>r lv' ws'. transaction_execution sample_ext (evm_run sample_ext (Suc 0)) sample_order
     ((leviathan_new Istanbul)\<lparr>lv_eth_call := Some 0x200\<rparr>) sample_world (sample_tx 30000 0 0) sample_header =
       Ret (r, lv', ws') \<and> same_store sample_world ws'"
proof -
  obtain r lv' ws' where e: "transaction_execution sample_ext (evm_run sample_ext (Suc 0)) sample_order
     ((leviathan_new Istanbul)\<lparr>lv_eth_call := Some 0x200\<rparr>) sample_world (sample_tx 30000 0 0) sample_header =
     Ret (r, lv', ws')" using sample_eth_call by blast
  moreover have "same_store sample_world ws'" by (rule eth_call_keeps_store [OF e]) simp
  ultimately show ?thesis by blast
qed

end
