(* ===== verification/Sample_Node.thy ===== *)
theory Sample_Node
  imports Node Transaction_Laws
begin

text \<open>
  Concrete external functions of the node for the witnesses.
\<close>

text \<open>Codecs that decode nothing, and a cache of senders without eviction.\<close>

definition sample_node :: "(unit, unit, address \<rightharpoonup> mpt_account) node_ext" where
  "sample_node = \<lparr>n_decode_tx = (\<lambda>_. Inl []), n_encode_tx = (\<lambda>_. []), n_encode_index = (\<lambda>i. be_bytes 8 i),
     n_logs_bloom = (\<lambda>_. -1), n_bloom_contains = (\<lambda>b _. b = -1), n_encode_receipt = (\<lambda>_ _. []),
     n_decode_receipt = (\<lambda>_. None),
     n_default_header = \<lparr>h_beneficiary = 0, h_timestamp = 0, h_number = 0, h_mix_hash = 0, h_gas_limit = 0,
       h_base_fee_per_gas = None, h_receipts_root = 0, h_transactions_root = 0, h_state_root = 0, h_gas_used = 0,
       h_logs_bloom = 0, h_parent_hash = 0\<rparr>,
     n_encode_header = (\<lambda>h. be_bytes 8 (unat (h_number h))), n_decode_header = (\<lambda>_. None), n_hash_slow = (\<lambda>_. 0),
     n_encode_body = (\<lambda>_. []), n_decode_body = (\<lambda>_. Some []), n_memory_db = (), n_mem_new = (\<lambda>_. ()),
     n_mem_from = (\<lambda>_ _. Some ()), n_mem_insert = (\<lambda>_ _ _ _. Some ()), n_mem_root = (\<lambda>_ _. Some (0, (), ())),
     n_lru_new = (\<lambda>_. Map.empty), n_lru_get = (\<lambda>c a. (c a, c)), n_lru_put = (\<lambda>c a m. c(a \<mapsto> m)),
     n_lru_clear = (\<lambda>_. Map.empty), n_hex = (\<lambda>_. []), n_create_address = (\<lambda>_ _. 0)\<rparr>"

lemma sample_node_sel [simp]:
  "n_decode_tx sample_node = (\<lambda>_. Inl [])" "n_encode_tx sample_node = (\<lambda>_. [])"
  "n_logs_bloom sample_node = (\<lambda>_. -1)" "n_bloom_contains sample_node = (\<lambda>b _. b = -1)"
  "n_decode_receipt sample_node = (\<lambda>_. None)" "n_encode_body sample_node = (\<lambda>_. [])"
  "n_decode_body sample_node = (\<lambda>_. Some [])" "n_mem_root sample_node = (\<lambda>_ _. Some (0, (), ()))"
  "n_mem_from sample_node = (\<lambda>_ _. Some ())" "n_mem_insert sample_node = (\<lambda>_ _ _ _. Some ())"
  "n_lru_get sample_node = (\<lambda>c a. (c a, c))" "n_lru_put sample_node = (\<lambda>c a m. c(a \<mapsto> m))"
  "n_lru_clear sample_node = (\<lambda>_. Map.empty)"
  by (simp_all add: sample_node_def)

text \<open>A trie with the same account at every address.\<close>

definition pool_ext :: "(unit, unit) ext" where
  "pool_ext = signing_ext\<lparr>x_trie_get := (\<lambda>_ _ _. Some (Some [])), x_get_cf := (\<lambda>_ _ _. Some (Some [])),
     x_decode_mpt := (\<lambda>_. Some (mpt_account_new 3 1000 EMPTY_STORAGE_ROOT EMPTY_CODE_HASH))\<rparr>"

lemma pool_trie: "contain_mpt pool_ext ws a = Ret (Some (mpt_account_new 3 1000 EMPTY_STORAGE_ROOT EMPTY_CODE_HASH))"
  by (simp add: contain_mpt_def trie_lookup_def pool_ext_def)

end
