(* ===== verification/Block_Laws.thy ===== *)
theory Block_Laws
  imports Queries Sample_Node "HOL-Library.Countable"
begin

text \<open>
  What the execution of a block promises: one response per transaction, gas that adds up, a stored block
  that continues the chain, and lookup entries that find every transaction again.
\<close>

section \<open>The parent block\<close>

text \<open>No part of a transaction touches the hash of the parent block.\<close>

lemma reads_parent: "reads X ws ws' \<Longrightarrow> ws_parent_block ws' = ws_parent_block ws"
  by (simp add: reads_def same_store_def)

lemma cached_parent:
  "update_cached a f ws = Ret ws' \<Longrightarrow> ws_parent_block ws' = ws_parent_block ws"
  by (auto simp: update_cached_def add_account_def)

lemma credit_parent: "credit X v a x ws = Ret ws' \<Longrightarrow> ws_parent_block ws' = ws_parent_block ws"
  by (auto simp: credit_def add_balance_def add_account_def split: if_splits
      dest!: cached_parent reads_parent [OF is_dead_reads] reads_parent [OF getters_reads(1)])

lemma sweep_touched_parent: "sweep_touched X v as ws = Ret ws' \<Longrightarrow> ws_parent_block ws' = ws_parent_block ws"
proof (induction as arbitrary: ws)
  case (Cons a as)
  then show ?case
    by (auto simp: remove_account_def split: if_splits dest!: reads_parent [OF is_dead_reads])
qed simp

lemma sweep_destroyed_parent [simp]: "ws_parent_block (sweep_destroyed X as ws) = ws_parent_block ws"
  by (induction as arbitrary: ws) (simp_all add: sweep_destroyed_def remove_account_def)

lemma commit_account_parent: "commit_account X it e ws = Ret ws' \<Longrightarrow> ws_parent_block ws' = ws_parent_block ws"
  by (cases e) (auto simp: commit_account_def put_account_def Let_def split: if_splits)

lemma commit_accounts_parent: "commit_accounts X it es ws = Ret ws' \<Longrightarrow> ws_parent_block ws' = ws_parent_block ws"
  by (induction es arbitrary: ws) (auto dest: commit_account_parent)

lemma commit_cache_parent: "commit_cache X it ws = Ret ws' \<Longrightarrow> ws_parent_block ws' = ws_parent_block ws"
  by (auto simp: commit_cache_def publish_root_def update_eth_trie_def dest!: commit_accounts_parent)

lemma settle_parent: "settle X it v tx h s g ss ws = Ret (b, ws') \<Longrightarrow> ws_parent_block ws' = ws_parent_block ws"
  by (auto simp: settle_def Let_def dest!: credit_parent sweep_touched_parent commit_cache_parent)

lemma start_parent:
  "start_transaction X lv tx h ws = Ret (st, ws') \<Longrightarrow> ws_parent_block ws' = ws_parent_block ws"
  by (auto simp: start_transaction_def inc_nonce_def buy_gas_def add_account_def update_cached_def Let_def
      split: option.splits sum.splits if_splits
      dest!: reads_parent [OF transaction_checks_reads] reads_parent [OF is_dead_reads])

lemma transaction_parent:
  assumes "transaction_execution X (evm_run X n) it lv ws tx h = Ret (r, lv', ws')"
  shows "ws_parent_block ws' = ws_parent_block ws"
  using assms
  by (auto simp: transaction_execution_def finish_transaction_def same_store_def Let_def
      split: option.splits if_splits call_result.splits prod.splits
      dest!: start_parent settle_parent transaction_call_frame)

section \<open>The loop over the transactions\<close>

definition decoded_of :: "('m, 'd, 'c) node_ext \<Rightarrow> byte list list \<Rightarrow> (transaction \<times> byte list) list" where
  "decoded_of N raws = concat (map (\<lambda>raw. case n_decode_tx N raw of Inr tx \<Rightarrow> [(tx, raw)] | Inl _ \<Rightarrow> []) raws)"

lemma decoded_of_simps [simp]:
  "decoded_of N [] = []"
  "decoded_of N (raw # raws) =
     (case n_decode_tx N raw of Inr tx \<Rightarrow> [(tx, raw)] | Inl _ \<Rightarrow> []) @ decoded_of N raws"
  by (simp_all add: decoded_of_def)

lemma record_receipt_build:
  assumes "record_receipt X N memdb k h st g logs ws bb = Ret (ws', bb')"
  shows "bb_results bb' = bb_results bb \<and> bb_decoded bb' = bb_decoded bb \<and> bb_hashes bb' = bb_hashes bb \<and>
    ws_parent_block ws' = ws_parent_block ws \<and> bb_bloom bb' = bb_bloom bb OR n_logs_bloom N logs \<and>
    (\<exists>u. to_u64 g = Some u \<and> unat (bb_gas bb') = unat (bb_gas bb) + unat u)"
  using assms by (auto simp: record_receipt_def u64_add_def res_simps Let_def unat_word_ariths split: if_splits)

text \<open>What one iteration adds.\<close>

lemma execute_one_build:
  assumes "execute_one X N (evm_run X n) it header memdb (i, raw) (lv, ws, bb) = Ret (lv', ws', bb')"
  shows "\<exists>r. bb_results bb' = bb_results bb @ [r] \<and>
      unat (bb_gas bb') = unat (bb_gas bb) + unat (er_gas_used r) \<and>
      (\<forall>err. n_decode_tx N raw = Inl err \<longrightarrow> r = decode_failure err)"
    and "bb_decoded bb' = bb_decoded bb @ map fst (decoded_of N [raw])"
    and "bb_hashes bb' = bb_hashes bb @ map (x_keccak256 X \<circ> snd) (decoded_of N [raw])"
    and "ws_parent_block ws' = ws_parent_block ws"
  using assms
  by (auto simp: execute_one_def Let_def tx_response_def decode_failure_def
      split: sum.splits tx_result.splits
      dest!: record_receipt_build transaction_parent)

lemma execute_all_build:
  assumes "execute_all X N (evm_run X n) it header memdb es (lv, ws, bb) = Ret (lv', ws', bb')"
  shows "(\<exists>rs. bb_results bb' = bb_results bb @ rs \<and> length rs = length es \<and>
      unat (bb_gas bb') = unat (bb_gas bb) + sum_list (map (\<lambda>r. unat (er_gas_used r)) rs) \<and>
      (\<forall>i<length es. \<forall>err. n_decode_tx N (snd (es ! i)) = Inl err \<longrightarrow> rs ! i = decode_failure err)) \<and>
    bb_decoded bb' = bb_decoded bb @ map fst (decoded_of N (map snd es)) \<and>
    bb_hashes bb' = bb_hashes bb @ map (x_keccak256 X \<circ> snd) (decoded_of N (map snd es)) \<and>
    ws_parent_block ws' = ws_parent_block ws"
  using assms
proof (induction es arbitrary: lv ws bb)
  case (Cons e es)
  obtain i raw where e: "e = (i, raw)" by (cases e)
  from Cons.prems obtain lv1 ws1 bb1 where
    o: "execute_one X N (evm_run X n) it header memdb (i, raw) (lv, ws, bb) = Ret (lv1, ws1, bb1)"
    and r: "execute_all X N (evm_run X n) it header memdb es (lv1, ws1, bb1) = Ret (lv', ws', bb')"
    by (auto simp: e)
  note ob = execute_one_build [OF o] and rb = Cons.IH [OF r]
  from ob(1) obtain a where a: "bb_results bb1 = bb_results bb @ [a]"
    "unat (bb_gas bb1) = unat (bb_gas bb) + unat (er_gas_used a)"
    "\<forall>err. n_decode_tx N raw = Inl err \<longrightarrow> a = decode_failure err" by blast
  from rb obtain rs where rs: "bb_results bb' = bb_results bb1 @ rs" "length rs = length es"
    "unat (bb_gas bb') = unat (bb_gas bb1) + sum_list (map (\<lambda>r. unat (er_gas_used r)) rs)"
    "\<forall>i<length es. \<forall>err. n_decode_tx N (snd (es ! i)) = Inl err \<longrightarrow> rs ! i = decode_failure err" by blast
  have "\<forall>i<length (e # es). \<forall>err. n_decode_tx N (snd ((e # es) ! i)) = Inl err \<longrightarrow> (a # rs) ! i = decode_failure err"
    using a(3) rs(4) by (auto simp: e nth_Cons split: nat.splits)
  then have "\<exists>rs. bb_results bb' = bb_results bb @ rs \<and> length rs = length (e # es) \<and>
      unat (bb_gas bb') = unat (bb_gas bb) + sum_list (map (\<lambda>r. unat (er_gas_used r)) rs) \<and>
      (\<forall>i<length (e # es). \<forall>err. n_decode_tx N (snd ((e # es) ! i)) = Inl err \<longrightarrow> rs ! i = decode_failure err)"
    using a(1,2) rs(1-3) by (intro exI [of _ "a # rs"]) simp
  with ob(2-4) rb show ?case by (simp add: e)
qed simp

section \<open>The stored block\<close>

interpretation every_family: kv_table insert_txlookup "db_lookup X c" for X c
  by unfold_locales (simp add: insert_txlookup_def db_lookup_put)

lemma length_keys [simp]:
  "length (tx_lookup_key h) = 42" "length (receipt_key h) = 40"
  "length (header_key k) = 7 + length k" "length (body_key k) = 5 + length k"
  by (simp_all add: tx_lookup_key_def receipt_key_def header_key_def body_key_def ascii_def)

lemma tx_lookup_key_inject [simp]: "tx_lookup_key h = tx_lookup_key h' \<longleftrightarrow> h = h'"
  by (metis tx_lookup_key_def append_same_eq same_append_eq from_to_be_bytes)

lemma map_of_enumerate_last:
  assumes "i < length xs" "\<And>j. i < j \<Longrightarrow> j < length xs \<Longrightarrow> xs ! j \<noteq> xs ! i" "inj K"
  shows "map_of (rev (map (\<lambda>(i, x). (K x, V i)) (enumerate n xs))) (K (xs ! i)) = Some (V (n + i))"
  using assms
proof (induction xs rule: rev_induct)
  case (snoc x xs)
  show ?case
  proof (cases "i = length xs")
    case False
    then have "i < length xs" using snoc.prems(1) by simp
    moreover from this snoc.prems(2) [of "length xs"] have "x \<noteq> xs ! i" by (simp add: nth_append)
    moreover have "j < length xs \<Longrightarrow> i < j \<Longrightarrow> xs ! j \<noteq> xs ! i" for j
      using snoc.prems(2) [of j] \<open>i < length xs\<close> by (simp add: nth_append)
    ultimately show ?thesis
      using snoc.IH snoc.prems(3) by (auto simp: enumerate_append_eq nth_append inj_eq)
  qed (simp add: enumerate_append_eq)
qed simp

lemma lookup_other:
  "length k \<noteq> 42 \<Longrightarrow> db_lookup X c (insert_lookups b hs d) k = db_lookup X c d k"
proof -
  assume "length k \<noteq> 42"
  then have "map_of (rev (map (\<lambda>(i, h). (tx_lookup_key h, to_be_bytes b @ be_bytes 8 i)) (enumerate 0 hs))) k = None"
    by (auto simp: map_of_eq_None_iff image_iff)
  then show ?thesis by (simp add: insert_lookups_def every_family.get_fold_put)
qed

lemma lookup_entry:
  assumes "i < length hs" "\<And>j. i < j \<Longrightarrow> j < length hs \<Longrightarrow> hs ! j \<noteq> hs ! i"
  shows "db_lookup X c (insert_lookups b hs d) (tx_lookup_key (hs ! i)) = Some (to_be_bytes b @ be_bytes 8 i)"
  using map_of_enumerate_last [of i hs tx_lookup_key "\<lambda>i. to_be_bytes b @ be_bytes 8 i" 0] assms
  by (simp add: insert_lookups_def every_family.get_fold_put inj_def)

lemma store_block_reads:
  assumes "store_block X N height header bb ws = Ret ws'"
  defines "h \<equiv> x_keccak256 X (n_encode_header N header)"
  shows "ws_parent_block ws' = h"
    and "get_blockhash_from_index X (ws_data ws') (sint height) = Ret (Some (to_be_bytes h))"
    and "get_block X (ws_data ws') (header_key (to_be_bytes h)) = Some (n_encode_header N header)"
    and "get_block X (ws_data ws') (body_key (to_be_bytes h)) = Some (n_encode_body N (bb_decoded bb))"
    and "\<And>i. i < length (bb_hashes bb) \<Longrightarrow> (\<And>j. i < j \<Longrightarrow> j < length (bb_hashes bb) \<Longrightarrow> bb_hashes bb ! j \<noteq> bb_hashes bb ! i) \<Longrightarrow>
      get_txlookup X (ws_data ws') (tx_lookup_key (bb_hashes bb ! i)) = Some (to_be_bytes h @ be_bytes 8 i)"
proof -
  from assms obtain d where nn: "0 \<le> sint height"
    and ws': "ws' = ws\<lparr>ws_parent_block := h, ws_data := insert_block (body_key (to_be_bytes h)) (n_encode_body N (bb_decoded bb))
        (insert_block (header_key (to_be_bytes h)) (n_encode_header N header) (insert_lookups h (bb_hashes bb) d))\<rparr>"
    and d: "d = db_put CF_BLOCK_NUMBER (be_bytes 8 (nat (sint height))) (to_be_bytes h)
        ((ws_data ws)\<lparr>db_block_number := Some (sint height)\<rparr>)"
    by (auto simp: store_block_def update_block_number_def Let_def split: if_splits)
  have ne: "length k \<noteq> length k' \<Longrightarrow> k \<noteq> k'" for k k' :: "byte list" by blast
  note simps = ws' insert_block_def db_lookup_put
  show "ws_parent_block ws' = h" by (simp add: ws')
  show "get_blockhash_from_index X (ws_data ws') (sint height) = Ret (Some (to_be_bytes h))"
    using nn by (simp add: get_blockhash_from_index_def simps lookup_other ne d)
  show "get_block X (ws_data ws') (header_key (to_be_bytes h)) = Some (n_encode_header N header)"
    by (simp add: get_block_def simps ne)
  show "get_block X (ws_data ws') (body_key (to_be_bytes h)) = Some (n_encode_body N (bb_decoded bb))"
    by (simp add: get_block_def simps)
  fix i assume "i < length (bb_hashes bb)"
    and "\<And>j. i < j \<Longrightarrow> j < length (bb_hashes bb) \<Longrightarrow> bb_hashes bb ! j \<noteq> bb_hashes bb ! i"
  then show "get_txlookup X (ws_data ws') (tx_lookup_key (bb_hashes bb ! i)) = Some (to_be_bytes h @ be_bytes 8 i)"
    by (simp add: get_txlookup_def simps ne lookup_entry)
qed

lemma seal_header_fields:
  assumes "seal_header X N memdb header bb ws = Ret (header', ws')"
  shows "h_number header' = h_number header \<and> h_gas_used header' = bb_gas bb \<and> h_logs_bloom header' = bb_bloom bb \<and>
    h_parent_hash header' = ws_parent_block ws \<and> ws_parent_block ws' = ws_parent_block ws"
  using assms by (auto simp: seal_header_def state_root_hash_def)

lemma first_header_number: "first_header N req = Ret h \<Longrightarrow> h_number h = fr_height req"
  by (auto simp: first_header_def)

text \<open>The steps of \<open>tx_execution\<close> with what they leave.\<close>

lemma tx_execution_build:
  assumes "tx_execution X N (evm_run X n) it req app = Ret (results, app')"
  obtains header bb ws where "store_block X N (fr_height req) header bb ws = Ret (ap_state app')"
    "bb_decoded bb = map fst (decoded_of N (fr_txs req))"
    "bb_hashes bb = map (x_keccak256 X \<circ> snd) (decoded_of N (fr_txs req))"
    "length results = length (fr_txs req)"
    "\<forall>i<length (fr_txs req). \<forall>err. n_decode_tx N (fr_txs req ! i) = Inl err \<longrightarrow> results ! i = decode_failure err"
    "unat (h_gas_used header) = sum_list (map (\<lambda>r. unat (er_gas_used r)) results)"
    "h_number header = fr_height req" "h_parent_hash header = ws_parent_block (ap_state app)"
proof -
  from assms obtain h0 memdb tt rt lv1 ws1 bb header ws2 where h0: "first_header N req = Ret h0"
    and run: "execute_all X N (evm_run X n) it h0 memdb (enumerate 0 (fr_txs req))
       (ap_leviathan app, ap_state app,
        \<lparr>bb_results = [], bb_gas = 0, bb_bloom = 0, bb_decoded = [], bb_hashes = [],
         bb_tx_trie = tt, bb_receipt_trie = rt\<rparr>) = Ret (lv1, ws1, bb)"
    and seal: "seal_header X N memdb h0 bb ws1 = Ret (header, ws2)"
    and st: "store_block X N (fr_height req) header bb ws2 = Ret (ap_state app')" "results = bb_results bb"
    by (auto simp: tx_execution_def)
  have snds: "map snd (enumerate 0 (fr_txs req)) = fr_txs req" by simp
  from execute_all_build [OF run] snds st(2) obtain rs where b: "results = rs" "length rs = length (fr_txs req)"
    "unat (bb_gas bb) = sum_list (map (\<lambda>r. unat (er_gas_used r)) rs)"
    "\<forall>i<length (fr_txs req). \<forall>err. n_decode_tx N (fr_txs req ! i) = Inl err \<longrightarrow> rs ! i = decode_failure err"
    "bb_decoded bb = map fst (decoded_of N (fr_txs req))"
    "bb_hashes bb = map (x_keccak256 X \<circ> snd) (decoded_of N (fr_txs req))"
    "ws_parent_block ws1 = ws_parent_block (ap_state app)"
    by (auto simp: nth_enumerate_eq)
  from that [OF st(1) b(5,6)] b seal_header_fields [OF seal] first_header_number [OF h0] show ?thesis by simp
qed

section \<open>Concrete inputs\<close>

text \<open>
  Codecs of headers and bodies: the fields as a list of numbers, the list as one number, the number in
  unary.
\<close>

definition header_numbers :: "full_header \<Rightarrow> nat list" where
  "header_numbers h = [unat (h_beneficiary h), unat (h_timestamp h), unat (h_number h), unat (h_mix_hash h),
     unat (h_gas_limit h), (case h_base_fee_per_gas h of None \<Rightarrow> 0 | Some f \<Rightarrow> Suc (unat f)),
     unat (h_receipts_root h), unat (h_transactions_root h), unat (h_state_root h), unat (h_gas_used h),
     unat (h_logs_bloom h), unat (h_parent_hash h)]"

definition numbers_header :: "nat list \<Rightarrow> full_header" where
  "numbers_header ns = \<lparr>h_beneficiary = of_nat (ns ! 0), h_timestamp = of_nat (ns ! 1), h_number = of_nat (ns ! 2),
     h_mix_hash = of_nat (ns ! 3), h_gas_limit = of_nat (ns ! 4),
     h_base_fee_per_gas = (case ns ! 5 of 0 \<Rightarrow> None | Suc f \<Rightarrow> Some (of_nat f)),
     h_receipts_root = of_nat (ns ! 6), h_transactions_root = of_nat (ns ! 7), h_state_root = of_nat (ns ! 8),
     h_gas_used = of_nat (ns ! 9), h_logs_bloom = of_nat (ns ! 10), h_parent_hash = of_nat (ns ! 11)\<rparr>"

definition tx_numbers :: "transaction \<Rightarrow> nat list" where
  "tx_numbers tx = [t_nonce tx, unat (t_price tx), unat (t_gas_limit tx),
     (case t_to tx of TxCreate \<Rightarrow> 0 | TxCall a \<Rightarrow> Suc (unat a)), unat (t_value tx),
     list_encode (map unat (t_data tx)), unat (t_w tx), unat (t_r tx), unat (t_s tx)]"

definition numbers_tx :: "nat list \<Rightarrow> transaction" where
  "numbers_tx ns = \<lparr>t_nonce = ns ! 0, t_price = of_nat (ns ! 1), t_gas_limit = of_nat (ns ! 2),
     t_to = (case ns ! 3 of 0 \<Rightarrow> TxCreate | Suc a \<Rightarrow> TxCall (of_nat a)), t_value = of_nat (ns ! 4),
     t_data = map of_nat (list_decode (ns ! 5)), t_w = of_nat (ns ! 6), t_r = of_nat (ns ! 7), t_s = of_nat (ns ! 8)\<rparr>"

definition chain_node :: "(unit, unit, address \<rightharpoonup> mpt_account) node_ext" where
  "chain_node = sample_node\<lparr>
     n_decode_tx := (\<lambda>raw. if raw = [] then Inl ''empty'' else Inr (sample_tx 30000 0 5)),
     n_encode_header := (\<lambda>h. replicate (list_encode (header_numbers h)) 1),
     n_decode_header := (\<lambda>bs. Some (numbers_header (list_decode (length bs)))),
     n_encode_body := (\<lambda>ts. replicate (list_encode (map (list_encode \<circ> tx_numbers) ts)) 1),
     n_decode_body := (\<lambda>bs. Some (map (numbers_tx \<circ> list_decode) (list_decode (length bs))))\<rparr>"

lemma header_codec: "n_decode_header chain_node (n_encode_header chain_node h) = Some h"
  by (simp add: chain_node_def numbers_header_def header_numbers_def split: option.split)

lemma tx_codec: "numbers_tx (tx_numbers tx) = tx"
  by (simp add: numbers_tx_def tx_numbers_def comp_def split: tx_kind.split)

lemma body_codec: "n_decode_body chain_node (n_encode_body chain_node ts) = Some ts"
  by (simp add: chain_node_def comp_def tx_codec)

definition chain_request :: finalize_request where
  "chain_request = \<lparr>fr_proposer_address = replicate 20 1, fr_seconds = Some 100, fr_height = 5, fr_txs = [[], [7]]\<rparr>"

definition chain_app :: "(unit, unit, address \<rightharpoonup> mpt_account) leviathan_app" where
  "chain_app = \<lparr>ap_state = sample_world, ap_leviathan = leviathan_new Istanbul, ap_version = Istanbul,
     ap_cache = Map.empty\<rparr>"

lemma chain_rejected:
  "lv_eth_call lv = None \<Longrightarrow> transaction_execution sample_ext run it lv ws (sample_tx 30000 0 5) h =
     Ret (TxErr 0 [], lv\<lparr>lv_return_data := []\<rparr>, ws)"
  by (simp add: transaction_execution_def start_transaction_def transaction_checks_def recover_sender_def
      split_v_def Let_def)

lemma chain_executes:
  "\<exists>results app'. tx_execution sample_ext chain_node (evm_run sample_ext 0) sample_order chain_request chain_app =
     Ret (results, app')"
proof -
  have "n_decode_tx chain_node [7] = Inr (sample_tx 30000 0 5)" "n_decode_tx chain_node [] = Inl ''empty''"
    by (simp_all add: chain_node_def)
  moreover have "n_mem_insert chain_node = (\<lambda>_ _ _ _. Some ())" "n_mem_root chain_node = (\<lambda>_ _. Some (0, (), ()))"
    "n_mem_from chain_node = (\<lambda>_ _. Some ())" by (simp_all add: chain_node_def)
  ultimately show ?thesis
    by (simp add: tx_execution_def first_header_def from_slice_def block_tries_def chain_request_def chain_app_def
        execute_one_def chain_rejected record_receipt_def to_u64_def u64_add_def seal_header_def state_root_hash_def
        trie_root_def store_block_def update_block_number_def Let_def)
qed

lemma chain_decoded: "decoded_of chain_node (fr_txs chain_request) = [(sample_tx 30000 0 5, [7])]"
  by (simp add: chain_request_def chain_node_def)

section \<open>Properties\<close>

text \<open>
  C30.  A block gets one response per transaction of the request, in order, and a transaction that does not
  decode gets the decoding error; the gas used in the header of the stored block is the sum of the gas of
  the responses, without overflow.
\<close>

theorem block_responses:
  assumes "tx_execution X N (evm_run X n) it req app = Ret (results, app')"
    and "\<And>h. n_decode_header N (n_encode_header N h) = Some h" "\<And>ts. n_decode_body N (n_encode_body N ts) = Some ts"
  shows "length results = length (fr_txs req) \<and>
    (\<forall>i<length (fr_txs req). \<forall>err. n_decode_tx N (fr_txs req ! i) = Inl err \<longrightarrow> results ! i = decode_failure err) \<and>
    (\<exists>block. get_full_block_from_index X N (ap_state app') (sint (fr_height req)) = Ret (Some block) \<and>
       unat (h_gas_used (fb_header block)) = sum_list (map (\<lambda>r. unat (er_gas_used r)) results))"
  using assms(1)
proof (rule tx_execution_build)
  fix header bb ws
  assume "store_block X N (fr_height req) header bb ws = Ret (ap_state app')"
  note s = store_block_reads [OF this]
  assume "length results = length (fr_txs req)"
    "\<forall>i<length (fr_txs req). \<forall>err. n_decode_tx N (fr_txs req ! i) = Inl err \<longrightarrow> results ! i = decode_failure err"
    "unat (h_gas_used header) = sum_list (map (\<lambda>r. unat (er_gas_used r)) results)"
  with s(2-4) assms(2,3) show ?thesis by (simp add: get_full_block_from_index_def get_full_block_def)
qed

theorem block_responses_witness:
  "\<exists>results app'. tx_execution sample_ext chain_node (evm_run sample_ext 0) sample_order chain_request chain_app =
     Ret (results, app') \<and> length results = 2 \<and> results ! 0 = decode_failure ''empty''"
proof -
  obtain results app' where e: "tx_execution sample_ext chain_node (evm_run sample_ext 0) sample_order chain_request
      chain_app = Ret (results, app')" using chain_executes by blast
  from block_responses [OF e header_codec body_codec] have "length results = 2" "results ! 0 = decode_failure ''empty''"
    by (simp_all add: chain_request_def chain_node_def)
  with e show ?thesis by blast
qed

text \<open>
  C15.  Blocks form a chain: after a block was executed, its number finds a block with this number whose
  transactions are the decodable ones of the request in order, whose parent hash is the hash the previous
  block left, and whose own hash is left for the next one.
\<close>

theorem block_extends_chain:
  assumes "tx_execution X N (evm_run X n) it req app = Ret (results, app')"
    and "\<And>h. n_decode_header N (n_encode_header N h) = Some h" "\<And>ts. n_decode_body N (n_encode_body N ts) = Some ts"
  shows "\<exists>header. get_full_block_from_index X N (ap_state app') (sint (fr_height req)) =
      Ret (Some \<lparr>fb_header = header, fb_transactions = map fst (decoded_of N (fr_txs req))\<rparr>) \<and>
    h_number header = fr_height req \<and> h_parent_hash header = ws_parent_block (ap_state app) \<and>
    ws_parent_block (ap_state app') = x_keccak256 X (n_encode_header N header)"
  using assms(1)
proof (rule tx_execution_build)
  fix header bb ws
  assume "store_block X N (fr_height req) header bb ws = Ret (ap_state app')"
  note s = store_block_reads [OF this]
  assume "bb_decoded bb = map fst (decoded_of N (fr_txs req))" "h_number header = fr_height req"
    "h_parent_hash header = ws_parent_block (ap_state app)"
  with s(1-4) assms(2,3) show ?thesis by (simp add: get_full_block_from_index_def get_full_block_def)
qed

theorem block_extends_chain_witness:
  "\<exists>results app' header. tx_execution sample_ext chain_node (evm_run sample_ext 0) sample_order chain_request chain_app =
     Ret (results, app') \<and> get_full_block_from_index sample_ext chain_node (ap_state app') 5 =
       Ret (Some \<lparr>fb_header = header, fb_transactions = [sample_tx 30000 0 5]\<rparr>) \<and> h_number header = 5"
proof -
  obtain results app' where e: "tx_execution sample_ext chain_node (evm_run sample_ext 0) sample_order chain_request
      chain_app = Ret (results, app')" using chain_executes by blast
  from block_extends_chain [OF e header_codec body_codec] e show ?thesis
    unfolding chain_decoded by (auto simp: chain_request_def)
qed

text \<open>
  C16.  Every transaction of an executed block is found by its hash: the lookup entry leads to the block and
  to the position of the transaction in it.  When a hash occurs twice the last occurrence is found.
\<close>

theorem transaction_is_found:
  assumes "tx_execution X N (evm_run X n) it req app = Ret (results, app')"
    and "\<And>h. n_decode_header N (n_encode_header N h) = Some h" "\<And>ts. n_decode_body N (n_encode_body N ts) = Some ts"
    and "i < length (decoded_of N (fr_txs req))" "length (decoded_of N (fr_txs req)) < 2 ^ 64"
    and "decoded_of N (fr_txs req) ! i = (tx, raw)"
    and "\<And>j. i < j \<Longrightarrow> j < length (decoded_of N (fr_txs req)) \<Longrightarrow>
      x_keccak256 X (snd (decoded_of N (fr_txs req) ! j)) \<noteq> x_keccak256 X raw"
  shows "\<exists>block. find_transaction X N (ap_state app') (x_keccak256 X raw) =
    Some (ws_parent_block (ap_state app'), of_nat i, block, tx)"
  using assms(1)
proof (rule tx_execution_build)
  fix header bb ws
  assume "store_block X N (fr_height req) header bb ws = Ret (ap_state app')"
  note s = store_block_reads [OF this]
  assume b: "bb_decoded bb = map fst (decoded_of N (fr_txs req))"
    "bb_hashes bb = map (x_keccak256 X \<circ> snd) (decoded_of N (fr_txs req))"
  have "bb_hashes bb ! i = x_keccak256 X raw" using b(2) assms(4,6) by simp
  with s(5) [of i] b(2) assms(4,6,7) have "get_txlookup X (ws_data (ap_state app')) (tx_lookup_key (x_keccak256 X raw)) =
      Some (to_be_bytes (ws_parent_block (ap_state app')) @ be_bytes 8 i)" by (simp add: s(1))
  then have "get_block_hash X (ap_state app') (tx_lookup_key (x_keccak256 X raw)) =
      Some (ws_parent_block (ap_state app'), of_nat i)"
    using assms(4,5) by (simp add: get_block_hash_def be_val_be_bytes)
  moreover have "unat (of_nat i :: u64) = i" using assms(4,5) by (simp add: unat_of_nat)
  ultimately show ?thesis
    using s(1,3,4) assms(2-4,6) b(1) by (simp add: find_transaction_def get_full_block_def)
qed

theorem transaction_is_found_witness:
  "\<exists>results app' block. tx_execution sample_ext chain_node (evm_run sample_ext 0) sample_order chain_request chain_app =
     Ret (results, app') \<and> find_transaction sample_ext chain_node (ap_state app') 7 =
       Some (ws_parent_block (ap_state app'), 0, block, sample_tx 30000 0 5)"
proof -
  obtain results app' where e: "tx_execution sample_ext chain_node (evm_run sample_ext 0) sample_order chain_request
      chain_app = Ret (results, app')" using chain_executes by blast
  from transaction_is_found [OF e header_codec body_codec, of 0 "sample_tx 30000 0 5" "[7]"] e show ?thesis
    by (auto simp: chain_decoded)
qed

end
