(* ===== verification/Keys.thy ===== *)
theory Keys
  imports Store Query_Laws
begin

text \<open>
  The keys the program uses in the database.  They have different lengths in different column families,
  the two families of hashes excepted; every operation that writes keeps to this, so the overlay that the
  families share confuses no block, receipt or lookup, and the operations on accounts and tries leave the
  tables of blocks, receipts and transactions as they are.
\<close>

section \<open>The keys of the program\<close>

text \<open>The lengths of the keys each family is used with.\<close>

fun key_lengths :: "cf \<Rightarrow> nat set" where
  "key_lengths CF_MPT = {32}"
| "key_lengths CF_CODE = {32}"
| "key_lengths CF_BLOCK_NUMBER = {8}"
| "key_lengths CF_BLOCK = {37, 39}"
| "key_lengths CF_RECEIPT = {40}"
| "key_lengths CF_TX_LOOKUP = {42}"

text \<open>A database whose overlay is in step with its batch, and whose pending keys have the lengths of their family.\<close>

definition well_keyed :: "'r rocks_db \<Rightarrow> bool" where
  "well_keyed d \<longleftrightarrow> tracked d \<and> (\<forall>(c, k, v)\<in>set (db_batch d). length k \<in> key_lengths c)"

lemma well_keyed_new [simp, intro]: "well_keyed (rocks_db_new r)"
  by (simp add: well_keyed_def)

lemma well_keyed_put: "well_keyed d \<Longrightarrow> length k \<in> key_lengths c \<Longrightarrow> well_keyed (db_put c k v d)"
  by (auto simp: well_keyed_def)

lemma well_keyed_block_number [simp]: "well_keyed (d\<lparr>db_block_number := n\<rparr>) = well_keyed d"
  by (simp add: well_keyed_def tracked_def)

lemma well_keyed_fold:
  "well_keyed d \<Longrightarrow> (\<And>k v. (k, v) \<in> set kvs \<Longrightarrow> length k \<in> key_lengths c) \<Longrightarrow>
   well_keyed (fold (\<lambda>(k, v). db_put c k v) kvs d)"
  by (induction kvs arbitrary: d) (auto intro: well_keyed_put)

text \<open>The keys of blocks, receipts and lookups are in no other family.\<close>

lemma well_keyed_unshared:
  assumes "well_keyed d" "c \<notin> {CF_MPT, CF_CODE}" "length k \<in> key_lengths c"
  shows "unshared c k d"
  unfolding unshared_def
proof clarify
  fix c' v assume "(c', k, v) \<in> set (db_batch d)"
  with assms(1) have "length k \<in> key_lengths c'" by (auto simp: well_keyed_def)
  with assms(2,3) show "c' = c" by (cases c; cases c'; auto)
qed

lemma well_keyed_lookup:
  assumes "well_keyed d" "c \<notin> {CF_MPT, CF_CODE}" "length k \<in> key_lengths c"
  shows "db_lookup X c d k = store_of X d c k"
  using assms by (intro lookup_store well_keyed_unshared) (simp_all add: well_keyed_def)

text \<open>What the trie crate documents: nodes are stored under their hash.\<close>

definition hash_keyed :: "('t, 'r) ext \<Rightarrow> bool" where
  "hash_keyed X \<longleftrightarrow> (\<forall>d t root t' nodes k v.
     x_trie_root X d t = Some (root, t', nodes) \<longrightarrow> (k, v) \<in> set nodes \<longrightarrow> length k = 32)"

section \<open>Every write of the program is well keyed\<close>

text \<open>The database of a world is well keyed; this is kept by every operation.\<close>

abbreviation keyed :: "('t, 'r) world_state \<Rightarrow> bool" where
  "keyed ws \<equiv> well_keyed (ws_data ws)"

lemma trie_root_keys:
  assumes "trie_root X d t = Ret (root, t', d')" "hash_keyed X" "well_keyed d"
  shows "well_keyed d'"
proof -
  from assms(1) obtain nodes where n: "x_trie_root X d t = Some (root, t', nodes)"
    and d': "d' = fold (\<lambda>(k, v). trie_db_insert k v) nodes d"
    by (auto simp: trie_root_def res_simps)
  from assms(2) n have "\<And>k v. (k, v) \<in> set nodes \<Longrightarrow> length k = 32" unfolding hash_keyed_def by blast
  with assms(3) show ?thesis unfolding d' trie_db_insert_def by (intro well_keyed_fold) simp_all
qed

lemma commit_storage_keys:
  "commit_storage X slots h d = Ret (root, d') \<Longrightarrow> hash_keyed X \<Longrightarrow> well_keyed d \<Longrightarrow> well_keyed d'"
  by (auto simp: commit_storage_def split: if_splits dest: trie_root_keys)

lemma store_code_keys: "well_keyed d \<Longrightarrow> well_keyed (store_code X code d)"
  by (simp add: store_code_def insert_code_def Let_def well_keyed_put)

lemma commit_account_keys: "commit_account X it e ws = Ret ws' \<Longrightarrow> hash_keyed X \<Longrightarrow> keyed ws \<Longrightarrow> keyed ws'"
  by (cases e) (auto simp: commit_account_def put_account_def Let_def split: if_splits
      intro!: store_code_keys elim!: commit_storage_keys)

lemma commit_accounts_keys: "commit_accounts X it es ws = Ret ws' \<Longrightarrow> hash_keyed X \<Longrightarrow> keyed ws \<Longrightarrow> keyed ws'"
  by (induction es arbitrary: ws) (auto dest: commit_account_keys)

lemma publish_root_keys: "publish_root X ws = Ret ws' \<Longrightarrow> hash_keyed X \<Longrightarrow> keyed ws \<Longrightarrow> keyed ws'"
  by (auto simp: publish_root_def update_eth_trie_def dest: trie_root_keys)

lemma commit_cache_keys: "commit_cache X it ws = Ret ws' \<Longrightarrow> hash_keyed X \<Longrightarrow> keyed ws \<Longrightarrow> keyed ws'"
  by (auto simp: commit_cache_def dest: publish_root_keys commit_accounts_keys)

lemma state_root_keys: "state_root_hash X ws = Ret (root, ws') \<Longrightarrow> hash_keyed X \<Longrightarrow> keyed ws \<Longrightarrow> keyed ws'"
  by (auto simp: state_root_hash_def dest: trie_root_keys)

lemma same_store_data: "same_store ws ws' \<Longrightarrow> ws_data ws' = ws_data ws"
  by (simp add: same_store_def)

lemmas reads_data = same_store_data [OF reads_same_store]

lemma update_cached_data: "update_cached a f ws = Ret ws' \<Longrightarrow> ws_data ws' = ws_data ws"
  by (auto simp: res_simps)

lemma credit_data: "credit X v a x ws = Ret ws' \<Longrightarrow> ws_data ws' = ws_data ws"
  by (auto simp: credit_def add_balance_def split: if_splits
      dest!: update_cached_data reads_data [OF is_dead_reads] reads_data [OF getters_reads(1)])

lemma remove_account_data [simp]: "ws_data (remove_account X a ws) = ws_data ws"
  by (simp add: remove_account_def)

lemma sweep_touched_data: "sweep_touched X v as ws = Ret ws' \<Longrightarrow> ws_data ws' = ws_data ws"
  by (induction as arbitrary: ws) (auto split: if_splits dest!: reads_data [OF is_dead_reads])

lemma sweep_destroyed_data [simp]: "ws_data (sweep_destroyed X as ws) = ws_data ws"
  by (induction as arbitrary: ws) (simp_all add: sweep_destroyed_def)

lemma settle_keys:
  "settle X it v tx h s g ss ws = Ret (b, ws') \<Longrightarrow> hash_keyed X \<Longrightarrow> keyed ws \<longrightarrow> keyed ws'"
  by (auto simp: settle_def Let_def dest!: credit_data sweep_touched_data dest: commit_cache_keys)

lemma start_data: "start_transaction X lv tx h ws = Ret (st, ws') \<Longrightarrow> ws_data ws' = ws_data ws"
  by (auto simp: start_transaction_def inc_nonce_def buy_gas_def update_cached_def Let_def
      split: option.splits sum.splits if_splits
      dest!: reads_data [OF transaction_checks_reads] reads_data [OF is_dead_reads])

lemma transaction_keys:
  assumes "transaction_execution X (evm_run X n) it lv ws tx h = Ret (r, lv', ws')" "hash_keyed X"
  shows "keyed ws \<longrightarrow> keyed ws'"
  using assms
  by (auto simp: transaction_execution_def finish_transaction_def same_store_def Let_def
      split: option.splits if_splits call_result.splits prod.splits
      dest!: start_data transaction_call_frame settle_keys)

lemma record_receipt_keys:
  "record_receipt X N memdb k h st g logs ws bb = Ret (ws', bb') \<Longrightarrow> keyed ws \<Longrightarrow> keyed ws'"
  by (auto simp: record_receipt_def Let_def insert_receipt_def intro!: well_keyed_put)

lemma execute_one_keys:
  assumes "execute_one X N (evm_run X n) it header memdb e (lv, ws, bb) = Ret (lv', ws', bb')" "hash_keyed X" "keyed ws"
  shows "keyed ws'"
  using assms
  by (cases e) (auto simp: execute_one_def Let_def split: sum.splits tx_result.splits
      dest!: transaction_keys dest: record_receipt_keys)

lemma execute_all_keys:
  "execute_all X N (evm_run X n) it header memdb es (lv, ws, bb) = Ret (lv', ws', bb') \<Longrightarrow> hash_keyed X \<Longrightarrow>
   keyed ws \<Longrightarrow> keyed ws'"
  by (induction es arbitrary: lv ws bb) (auto dest: execute_one_keys)

lemma insert_lookups_keys: "well_keyed d \<Longrightarrow> well_keyed (insert_lookups h hs d)"
  unfolding insert_lookups_def insert_txlookup_def by (rule well_keyed_fold) auto

lemma store_block_keys: "store_block X N height header bb ws = Ret ws' \<Longrightarrow> keyed ws \<Longrightarrow> keyed ws'"
  by (auto simp: store_block_def update_block_number_def insert_block_def Let_def split: if_splits
      intro!: well_keyed_put insert_lookups_keys)

lemma tx_execution_keys:
  assumes "tx_execution X N (evm_run X n) it req app = Ret (results, app')" "hash_keyed X" "keyed (ap_state app)"
  shows "keyed (ap_state app')"
  using assms unfolding tx_execution_def seal_header_def
  by (auto dest!: execute_all_keys state_root_keys store_block_keys)

section \<open>The tables of blocks, receipts and transactions\<close>

text \<open>Lookups in the tables of blocks, receipts and transactions.\<close>

definition same_tables :: "('t, 'r) ext \<Rightarrow> 'r rocks_db \<Rightarrow> 'r rocks_db \<Rightarrow> bool" where
  "same_tables X d d' \<longleftrightarrow> (\<forall>c k. c \<notin> {CF_MPT, CF_CODE} \<longrightarrow> length k \<in> key_lengths c \<longrightarrow>
     db_lookup X c d' k = db_lookup X c d k)"

lemma same_tables_refl [simp]: "same_tables X d d"
  by (simp add: same_tables_def)

lemma same_tables_trans: "same_tables X d1 d2 \<Longrightarrow> same_tables X d2 d3 \<Longrightarrow> same_tables X d1 d3"
  by (simp add: same_tables_def)

lemma same_tables_reads:
  assumes "same_tables X (ws_data ws) (ws_data ws')"
  shows "get_blockhash_from_index X (ws_data ws') i = get_blockhash_from_index X (ws_data ws) i"
    and "get_full_block X N ws' (to_be_bytes (h :: b256)) = get_full_block X N ws (to_be_bytes h)"
    and "find_transaction X N ws' h = find_transaction X N ws h"
    and "get_receipt_struct X N ws' (receipt_key h) = get_receipt_struct X N ws (receipt_key h)"
proof -
  have l: "db_lookup X c (ws_data ws') k = db_lookup X c (ws_data ws) k"
    if "c \<notin> {CF_MPT, CF_CODE}" "length k \<in> key_lengths c" for c k
    using assms that unfolding same_tables_def by blast
  have "get_block X (ws_data ws') (header_key (to_be_bytes h)) = get_block X (ws_data ws) (header_key (to_be_bytes h))"
    "get_block X (ws_data ws') (body_key (to_be_bytes h)) = get_block X (ws_data ws) (body_key (to_be_bytes h))"
    for h :: b256
    by (simp_all add: get_block_def l)
  then show b: "get_full_block X N ws' (to_be_bytes h) = get_full_block X N ws (to_be_bytes h)" for h :: b256
    by (simp only: get_full_block_def)
  show "get_blockhash_from_index X (ws_data ws') i = get_blockhash_from_index X (ws_data ws) i"
    by (simp add: get_blockhash_from_index_def l)
  have "get_block_hash X ws' (tx_lookup_key h) = get_block_hash X ws (tx_lookup_key h)"
    by (simp add: get_block_hash_def get_txlookup_def l)
  then show "find_transaction X N ws' h = find_transaction X N ws h"
    by (simp add: find_transaction_def b split: option.split prod.split)
  have "get_receipt X (ws_data ws') (receipt_key h) = get_receipt X (ws_data ws) (receipt_key h)"
    by (simp add: get_receipt_def l)
  then show "get_receipt_struct X N ws' (receipt_key h) = get_receipt_struct X N ws (receipt_key h)"
    by (simp only: get_receipt_struct_def)
qed

lemma key_length_32 [simp]: "32 \<in> key_lengths c \<longleftrightarrow> c \<in> {CF_MPT, CF_CODE}"
  by (cases c) simp_all

lemma same_tables_put [simp]: "length k = 32 \<Longrightarrow> same_tables X d0 (db_put c k v d) \<longleftrightarrow> same_tables X d0 d"
proof -
  assume "length k = 32"
  then have "db_lookup X c' (db_put c k v d) k' = db_lookup X c' d k'"
    if "c' \<notin> {CF_MPT, CF_CODE}" "length k' \<in> key_lengths c'" for c' k'
    using that by (auto simp: db_lookup_put)
  then show ?thesis unfolding same_tables_def by metis
qed

lemma same_tables_fold:
  "(\<And>k v. (k, v) \<in> set kvs \<Longrightarrow> length k = 32) \<Longrightarrow>
   same_tables X d0 (fold (\<lambda>(k, v). db_put c k v) kvs d) \<longleftrightarrow> same_tables X d0 d"
proof (induction kvs arbitrary: d)
  case (Cons kv kvs)
  then show ?case by (cases kv) force
qed simp

lemma trie_root_tables:
  assumes "trie_root X d t = Ret (root, t', d')" "hash_keyed X"
  shows "same_tables X d d'"
proof -
  from assms(1) obtain nodes where n: "x_trie_root X d t = Some (root, t', nodes)"
    and d': "d' = fold (\<lambda>(k, v). trie_db_insert k v) nodes d"
    by (auto simp: trie_root_def res_simps)
  from assms(2) n have "\<And>k v. (k, v) \<in> set nodes \<Longrightarrow> length k = 32" unfolding hash_keyed_def by blast
  then show ?thesis unfolding d' trie_db_insert_def by (simp add: same_tables_fold)
qed

lemma commit_storage_tables:
  "commit_storage X slots h d = Ret (root, d') \<Longrightarrow> hash_keyed X \<Longrightarrow> same_tables X d d'"
  by (auto simp: commit_storage_def split: if_splits dest: trie_root_tables)

lemma store_code_tables [simp]: "same_tables X d0 (store_code X code d) \<longleftrightarrow> same_tables X d0 d"
  by (simp add: store_code_def insert_code_def Let_def)

lemma commit_account_tables:
  "commit_account X it e ws = Ret ws' \<Longrightarrow> hash_keyed X \<Longrightarrow> same_tables X (ws_data ws) (ws_data ws')"
  by (cases e) (auto simp: commit_account_def put_account_def Let_def split: if_splits
      dest!: commit_storage_tables)

lemma publish_root_tables:
  "publish_root X ws = Ret ws' \<Longrightarrow> hash_keyed X \<Longrightarrow> same_tables X (ws_data ws) (ws_data ws')"
  by (auto simp: publish_root_def update_eth_trie_def dest: trie_root_tables)

lemma state_root_tables:
  "state_root_hash X ws = Ret (root, ws') \<Longrightarrow> hash_keyed X \<Longrightarrow> same_tables X (ws_data ws) (ws_data ws')"
  by (auto simp: state_root_hash_def dest: trie_root_tables)

lemma flush_tables:
  assumes "db_flush X d = (True, d')" "applies_batches X" "well_keyed d"
  shows "same_tables X d d'" "well_keyed d'" "same_tables X d (rocks_db_new (db_handle d'))"
proof -
  note f = flush_store [OF assms(1,2)]
  show wk: "well_keyed d'" using f by (simp add: well_keyed_def)
  have "db_lookup X c d' k = db_lookup X c d k \<and> db_lookup X c (rocks_db_new (db_handle d')) k = db_lookup X c d k"
    if "c \<notin> {CF_MPT, CF_CODE}" "length k \<in> key_lengths c" for c k
    using well_keyed_lookup [OF assms(3) that] well_keyed_lookup [OF wk that]
      well_keyed_lookup [OF well_keyed_new that] f(1,4) by (metis store_of_new)
  then show "same_tables X d d'" "same_tables X d (rocks_db_new (db_handle d'))"
    unfolding same_tables_def by blast+
qed

lemma world_new_tables:
  assumes "world_state_new X r = Ret ws" "hash_keyed X"
  shows "same_tables X (rocks_db_new r) (ws_data ws)" "keyed ws" "ws_parent_block ws = 0" "ws_cache ws = Map.empty"
proof -
  from assms(1) obtain root t d where t: "trie_root X (rocks_db_new r) (x_trie_new X (rocks_db_new r)) = Ret (root, t, d)"
    and ws: "ws_data ws = insert_code (to_be_bytes (x_keccak256 X [])) [] d" "ws_parent_block ws = 0" "ws_cache ws = Map.empty"
    by (auto simp: world_state_new_def Let_def)
  from trie_root_tables [OF t assms(2)] ws(1) show "same_tables X (rocks_db_new r) (ws_data ws)"
    by (simp add: insert_code_def)
  from trie_root_keys [OF t assms(2)] ws(1) show "keyed ws" by (simp add: insert_code_def well_keyed_put)
  from ws(2,3) show "ws_parent_block ws = 0" "ws_cache ws = Map.empty" by simp_all
qed

end
