(* ===== verification/Node_Run.thy ===== *)
theory Node_Run
  imports Keys
begin

text \<open>
  The node over its whole life: the transition system of its handlers, with crashes and restarts, the
  invariant of every state it reaches, and what a committed block survives.
\<close>

section \<open>The transition system\<close>

text \<open>
  The handlers of ABCI and JSON-RPC that may change the application but not the cache of pending senders,
  for any fuel and iteration order.
\<close>

inductive handler_step ::
  "('t, 'r) ext \<Rightarrow> ('m, 'd, 'c) node_ext \<Rightarrow> ('t, 'r, 'c) leviathan_app \<Rightarrow> ('t, 'r, 'c) leviathan_app \<Rightarrow> bool"
  for X N where
  step_init: "init_chain X it app = Ret (h, app') \<Longrightarrow> handler_step X N app app'"
| step_finalize: "finalize_block X N (evm_run X n) it req app = Ret (r, app') \<Longrightarrow> handler_step X N app app'"
| step_number: "rpc_block_number X (ap_state app) = (s, ws) \<Longrightarrow> handler_step X N app (app\<lparr>ap_state := ws\<rparr>)"
| step_balance: "rpc_get_balance X N a index (ap_state app) = Ret (s, ws) \<Longrightarrow> handler_step X N app (app\<lparr>ap_state := ws\<rparr>)"
| step_code: "rpc_get_code X N a tag (ap_state app) = Ret (s, ws) \<Longrightarrow> handler_step X N app (app\<lparr>ap_state := ws\<rparr>)"
| step_block: "get_block_by_number X N t full (ap_state app) = Ret (b, ws) \<Longrightarrow> handler_step X N app (app\<lparr>ap_state := ws\<rparr>)"
| step_call: "eth_call X N (evm_run X n) it v request tag (ap_state app) = Ret (s, ws) \<Longrightarrow>
    handler_step X N app (app\<lparr>ap_state := ws\<rparr>)"
| step_estimate: "estimate_gas X N (evm_run X n) it v request tag (ap_state app) = Ret (s, ws) \<Longrightarrow>
    handler_step X N app (app\<lparr>ap_state := ws\<rparr>)"
| step_logs: "get_logs X N f (ap_state app) = Ret (ls, ws) \<Longrightarrow> handler_step X N app (app\<lparr>ap_state := ws\<rparr>)"

text \<open>
  The whole node.  A restart may happen at any time: what was not committed is lost.
\<close>

inductive node_step ::
  "('t, 'r) ext \<Rightarrow> ('m, 'd, 'c) node_ext \<Rightarrow> ('t, 'r, 'c) leviathan_app \<Rightarrow> ('t, 'r, 'c) leviathan_app \<Rightarrow> bool"
  for X N where
  step_handler: "handler_step X N app app' \<Longrightarrow> node_step X N app app'"
| step_check: "check_tx X N raw app = Ret (r, app') \<Longrightarrow> node_step X N app app'"
| step_commit: "commit_block X N app = Ret app' \<Longrightarrow> node_step X N app app'"
| step_restart: "leviathan_app_new X N v (db_handle (ws_data (ap_state app))) = Ret app' \<Longrightarrow> node_step X N app app'"

text \<open>The states of a node that was first started on a database \<open>r\<close>.\<close>

inductive node_reachable ::
  "('t, 'r) ext \<Rightarrow> ('m, 'd, 'c) node_ext \<Rightarrow> ('t, 'r, 'c) leviathan_app \<Rightarrow> bool" for X N where
  reach_start: "leviathan_app_new X N v r = Ret app \<Longrightarrow> node_reachable X N app"
| reach_step: "node_reachable X N app \<Longrightarrow> node_step X N app app' \<Longrightarrow> node_reachable X N app'"

section \<open>The invariant\<close>

text \<open>The block the next one will name as its parent is stored, unless there is none yet.\<close>

definition parent_stored :: "('t, 'r) ext \<Rightarrow> ('m, 'd, 'c) node_ext \<Rightarrow> ('t, 'r) world_state \<Rightarrow> bool" where
  "parent_stored X N ws \<longleftrightarrow> ws_parent_block ws = 0 \<or>
     (\<exists>block. get_full_block X N ws (to_be_bytes (ws_parent_block ws)) = Some block \<and>
        x_keccak256 X (n_encode_header N (fb_header block)) = ws_parent_block ws)"

definition node_inv :: "('t, 'r) ext \<Rightarrow> ('m, 'd, 'c) node_ext \<Rightarrow> ('t, 'r, 'c) leviathan_app \<Rightarrow> bool" where
  "node_inv X N app \<longleftrightarrow> keyed (ap_state app) \<and> parent_stored X N (ap_state app) \<and>
     lv_version (ap_leviathan app) = ap_version app \<and> lv_eth_call (ap_leviathan app) = None"

text \<open>What an operation on the world that keeps the tables and the parent keeps of the invariant.\<close>

lemma parent_stored_tables:
  "same_tables X (ws_data ws) (ws_data ws') \<Longrightarrow> ws_parent_block ws' = ws_parent_block ws \<Longrightarrow>
   parent_stored X N ws' \<longleftrightarrow> parent_stored X N ws"
  by (simp add: parent_stored_def same_tables_reads(2))

lemma same_but_number_world:
  assumes "same_but_number ws ws'"
  shows "keyed ws' \<longleftrightarrow> keyed ws" "parent_stored X N ws' \<longleftrightarrow> parent_stored X N ws"
proof -
  from assms obtain b where ws': "ws' = ws\<lparr>ws_data := (ws_data ws)\<lparr>db_block_number := b\<rparr>\<rparr>"
    by (auto simp: same_but_number_def)
  then have "same_tables X (ws_data ws) (ws_data ws')"
    by (simp add: same_tables_def db_lookup_def split: option.split)
  then show "parent_stored X N ws' \<longleftrightarrow> parent_stored X N ws" by (rule parent_stored_tables) (simp add: ws')
  from ws' show "keyed ws' \<longleftrightarrow> keyed ws" by simp
qed

lemma current_number_same: "current_block_number X ws = (i, ws') \<Longrightarrow> same_but_number ws ws'"
  by (auto simp: current_block_number_def get_block_number_def Let_def split: option.splits)
     (auto simp: same_but_number_def)

text \<open>The answers of the queries change at most the cached block number.\<close>

lemma queries_same:
  "rpc_block_number X ws = (s, ws') \<Longrightarrow> same_but_number ws ws'"
  "rpc_get_balance X N a index ws = Ret (s, ws') \<Longrightarrow> same_but_number ws ws'"
  "rpc_get_code X N a tag ws = Ret (r, ws') \<Longrightarrow> same_but_number ws ws'"
  "get_block_by_number X N t full ws = Ret (b, ws') \<Longrightarrow> same_but_number ws ws'"
  "eth_call X N (evm_run X n) it v request tag ws = Ret (r, ws') \<Longrightarrow> same_but_number ws ws'"
  "estimate_gas X N (evm_run X n) it v request tag ws = Ret (r, ws') \<Longrightarrow> same_but_number ws ws'"
  "get_logs X N f ws = Ret (ls, ws') \<Longrightarrow> same_but_number ws ws'"
proof -
  show "rpc_block_number X ws = (s, ws') \<Longrightarrow> same_but_number ws ws'"
    by (auto simp: rpc_block_number_def Let_def split: prod.splits dest: current_number_same)
  show "rpc_get_balance X N a index ws = Ret (s, ws') \<Longrightarrow> same_but_number ws ws'"
    by (auto simp: rpc_get_balance_def Let_def split: prod.splits option.splits if_splits dest: current_number_same)
  show "rpc_get_code X N a tag ws = Ret (r, ws') \<Longrightarrow> same_but_number ws ws'"
    by (auto simp: rpc_get_code_def split: sum.splits dest!: query_block_same)
  show "get_block_by_number X N t full ws = Ret (b, ws') \<Longrightarrow> same_but_number ws ws'"
    by (auto simp: get_block_by_number_def Let_def split: prod.splits option.splits if_splits dest: tag_number_same)
  show "eth_call X N (evm_run X n) it v request tag ws = Ret (r, ws') \<Longrightarrow> same_but_number ws ws'"
    by (auto simp: eth_call_def dest: simulate_same)
  show "estimate_gas X N (evm_run X n) it v request tag ws = Ret (r, ws') \<Longrightarrow> same_but_number ws ws'"
    by (auto simp: estimate_gas_def dest: simulate_same)
  show "get_logs X N f ws = Ret (ls, ws') \<Longrightarrow> same_but_number ws ws'"
    by (auto simp: get_logs_def Let_def split: prod.splits option.splits dest: current_number_same)
qed

section \<open>The mode of the \<open>LEVIATHAN\<close> object\<close>

definition same_mode :: "leviathan \<Rightarrow> leviathan \<Rightarrow> bool" where
  "same_mode lv lv' \<longleftrightarrow> lv_version lv' = lv_version lv \<and> lv_eth_call lv' = lv_eth_call lv"

lemma same_mode_refl [simp]: "same_mode lv lv"
  by (simp add: same_mode_def)

lemma transaction_call_mode:
  "transaction_call X (evm_run X n) tx h s g lv ws ss = Ret (res, lv', ws', ss') \<Longrightarrow> same_mode lv lv'"
  by (auto simp: transaction_call_def same_mode_def split: tx_kind.splits
      dest: interpreter.message_call_lv interpreter.contract_creation_lv)

lemma transaction_mode:
  assumes "transaction_execution X (evm_run X n) it lv ws tx h = Ret (r, lv', ws')"
  shows "same_mode lv lv'"
  using assms
  by (auto simp: transaction_execution_def finish_transaction_def finish_eth_call_def same_mode_def Let_def
      split: option.splits if_splits call_result.splits prod.splits dest!: transaction_call_mode)

lemma execute_one_mode:
  "execute_one X N (evm_run X n) it header memdb e (lv, ws, bb) = Ret (lv', ws', bb') \<Longrightarrow> same_mode lv lv'"
  by (cases e) (auto simp: execute_one_def Let_def split: sum.splits tx_result.splits dest: transaction_mode)

lemma execute_all_mode:
  "execute_all X N (evm_run X n) it header memdb es (lv, ws, bb) = Ret (lv', ws', bb') \<Longrightarrow> same_mode lv lv'"
  by (induction es arbitrary: lv ws bb) (auto simp: same_mode_def dest!: execute_one_mode)

section \<open>Every handler keeps the invariant\<close>

lemma new_app_inv: "leviathan_app_new X N v r = Ret app \<Longrightarrow> hash_keyed X \<Longrightarrow> node_inv X N app"
  by (auto simp: leviathan_app_new_def node_inv_def parent_stored_def world_new_tables)

lemma init_chain_inv:
  assumes "init_chain X it app = Ret (h, app')" "hash_keyed X" "node_inv X N app"
  shows "node_inv X N app'"
proof -
  from assms(1) obtain e ws1 ws2 h' ws3 where c: "commit_account X it e (ap_state app) = Ret ws1"
    and p: "publish_root X ws1 = Ret ws2" and r: "state_root_hash X ws2 = Ret (h', ws3)" and app': "app' = app\<lparr>ap_state := ws3\<rparr>"
    by (auto simp: init_chain_def init_mpt_account_def)
  have "same_tables X (ws_data (ap_state app)) (ws_data ws3)"
    using commit_account_tables [OF c assms(2)] publish_root_tables [OF p assms(2)] state_root_tables [OF r assms(2)]
    by (blast intro: same_tables_trans)
  moreover have "ws_parent_block ws3 = ws_parent_block (ap_state app)"
    using commit_account_parent [OF c] p r
    by (auto simp: publish_root_def update_eth_trie_def state_root_hash_def)
  moreover have "keyed ws3" if "keyed (ap_state app)"
    using that c p r assms(2) by (meson commit_account_keys publish_root_keys state_root_keys)
  ultimately show ?thesis using assms(3) by (simp add: app' node_inv_def parent_stored_tables)
qed

lemma check_tx_state:
  "check_tx X N raw app = Ret (r, app') \<Longrightarrow> ap_state app' = ap_state app \<and> ap_leviathan app' = ap_leviathan app \<and>
   ap_version app' = ap_version app"
  by (auto simp: check_tx_def validate_transaction_def pending_account_def Let_def
      split: sum.splits prod.splits option.splits if_splits)

lemma finalize_cases:
  assumes "finalize_block X N (evm_run X n) it req app = Ret (r, app')"
  obtains results app1 root ws where "tx_execution X N (evm_run X n) it req app = Ret (results, app1)"
    "state_root_hash X (ap_state app1) = Ret (root, ws)" "app' = app1\<lparr>ap_state := ws\<rparr>" "r = (results, to_be_bytes root)"
  using assms by (auto simp: finalize_block_def)

lemma tx_execution_mode:
  assumes "tx_execution X N (evm_run X n) it req app = Ret (results, app')"
  shows "same_mode (ap_leviathan app) (ap_leviathan app')" "ap_version app' = ap_version app"
  using assms by (auto simp: tx_execution_def dest: execute_all_mode)

lemma tx_execution_parent_stored:
  assumes "tx_execution X N (evm_run X n) it req app = Ret (results, app')"
    and "\<And>h. n_decode_header N (n_encode_header N h) = Some h" "\<And>ts. n_decode_body N (n_encode_body N ts) = Some ts"
  shows "parent_stored X N (ap_state app')"
  using assms(1)
proof (rule tx_execution_build)
  fix header bb ws
  assume "store_block X N (fr_height req) header bb ws = Ret (ap_state app')"
  note s = store_block_reads [OF this]
  from s(1,3,4) assms(2,3) show ?thesis by (simp add: parent_stored_def get_full_block_def)
qed

lemma finalize_inv:
  assumes "finalize_block X N (evm_run X n) it req app = Ret (r, app')" "hash_keyed X" "node_inv X N app"
    and "\<And>h. n_decode_header N (n_encode_header N h) = Some h" "\<And>ts. n_decode_body N (n_encode_body N ts) = Some ts"
  shows "node_inv X N app'"
  using assms(1)
proof (cases rule: finalize_cases)
  case (1 results app1 root ws)
  have "keyed (ap_state app1)" using tx_execution_keys [OF 1(1) assms(2)] assms(3) by (simp add: node_inv_def)
  then have "keyed ws" using state_root_keys [OF 1(2) assms(2)] by blast
  moreover have "parent_stored X N ws"
    using tx_execution_parent_stored [OF 1(1) assms(4,5)] state_root_tables [OF 1(2) assms(2)] 1(2)
    by (auto simp: parent_stored_tables state_root_hash_def)
  moreover note tx_execution_mode [OF 1(1)]
  ultimately show ?thesis using assms(3) by (simp add: 1(3) node_inv_def same_mode_def)
qed

lemma commit_cases:
  assumes "commit_block X N app = Ret app'"
  obtains d where "db_flush X (ws_data (ap_state app)) = (True, d)"
    "app' = app\<lparr>ap_state := (ap_state app)\<lparr>ws_data := d\<rparr>, ap_cache := n_lru_clear N (ap_cache app)\<rparr>"
  using assms by (auto simp: commit_block_def Let_def split: prod.splits if_splits)

lemma commit_inv:
  assumes "commit_block X N app = Ret app'" "applies_batches X" "node_inv X N app"
  shows "node_inv X N app'"
  using assms(1)
proof (cases rule: commit_cases)
  case (1 d)
  from assms(3) have "keyed (ap_state app)" by (simp add: node_inv_def)
  from flush_tables [OF 1(1) assms(2) this] assms(3) show ?thesis
    by (simp add: 1(2) node_inv_def parent_stored_tables)
qed

lemma query_inv:
  "same_but_number (ap_state app) ws \<Longrightarrow> node_inv X N app \<Longrightarrow> node_inv X N (app\<lparr>ap_state := ws\<rparr>)"
  by (simp add: node_inv_def same_but_number_world)

lemma handler_step_inv:
  assumes "handler_step X N app app'" "node_inv X N app" "hash_keyed X"
    and "\<And>h. n_decode_header N (n_encode_header N h) = Some h" "\<And>ts. n_decode_body N (n_encode_body N ts) = Some ts"
  shows "node_inv X N app'"
  using assms
proof (cases rule: handler_step.cases)
  case (step_init it h)
  then show ?thesis using assms by (blast intro: init_chain_inv)
next
  case (step_finalize n it req r)
  then show ?thesis using assms by (blast intro: finalize_inv)
qed (auto intro: query_inv queries_same)

lemma node_step_inv:
  assumes "node_step X N app app'" "node_inv X N app" "hash_keyed X" "applies_batches X"
    and "\<And>h. n_decode_header N (n_encode_header N h) = Some h" "\<And>ts. n_decode_body N (n_encode_body N ts) = Some ts"
  shows "node_inv X N app'"
  using assms
proof (cases rule: node_step.cases)
  case step_handler
  then show ?thesis using assms by (blast intro: handler_step_inv)
next
  case (step_check raw r)
  with assms(2) show ?thesis by (auto simp: node_inv_def dest: check_tx_state)
next
  case step_commit
  then show ?thesis using assms by (blast intro: commit_inv)
next
  case (step_restart v)
  then show ?thesis using assms by (blast intro: new_app_inv)
qed

lemma reachable_inv:
  assumes "node_reachable X N app" "hash_keyed X" "applies_batches X"
    and "\<And>h. n_decode_header N (n_encode_header N h) = Some h" "\<And>ts. n_decode_body N (n_encode_body N ts) = Some ts"
  shows "node_inv X N app"
  using assms(1)
proof induction
  case (reach_start v r app)
  then show ?case using assms(2) by (rule new_app_inv)
next
  case (reach_step app app')
  then show ?case using assms(2-5) by (blast intro: node_step_inv)
qed

text \<open>What a commit and a restart keep of the tables.\<close>

lemma restart_tables:
  assumes "commit_block X N app1 = Ret app2" "leviathan_app_new X N v (db_handle (ws_data (ap_state app2))) = Ret app3"
    and "hash_keyed X" "applies_batches X" "keyed (ap_state app1)"
  shows "same_tables X (ws_data (ap_state app1)) (ws_data (ap_state app3))"
    and "ws_cache (ap_state app3) = Map.empty" "ws_parent_block (ap_state app3) = 0"
proof -
  from assms(1) obtain d where d: "db_flush X (ws_data (ap_state app1)) = (True, d)" "ws_data (ap_state app2) = d"
    by (auto elim: commit_cases)
  from assms(2) have w: "world_state_new X (db_handle d) = Ret (ap_state app3)"
    by (auto simp: leviathan_app_new_def d(2))
  note n = world_new_tables [OF w assms(3)]
  from flush_tables(3) [OF d(1) assms(4,5)] n(1) show "same_tables X (ws_data (ap_state app1)) (ws_data (ap_state app3))"
    by (rule same_tables_trans)
  from n(3,4) show "ws_cache (ap_state app3) = Map.empty" "ws_parent_block (ap_state app3) = 0" by simp_all
qed

text \<open>The block that was just executed.\<close>

lemma finalized_block:
  assumes "finalize_block X N (evm_run X n) it req app = Ret (r, app1)" "hash_keyed X"
    and "\<And>h. n_decode_header N (n_encode_header N h) = Some h" "\<And>ts. n_decode_body N (n_encode_body N ts) = Some ts"
  obtains header where
    "get_blockhash_from_index X (ws_data (ap_state app1)) (sint (fr_height req)) =
      Ret (Some (to_be_bytes (ws_parent_block (ap_state app1))))"
    "get_full_block X N (ap_state app1) (to_be_bytes (ws_parent_block (ap_state app1))) =
      Some \<lparr>fb_header = header, fb_transactions = map fst (decoded_of N (fr_txs req))\<rparr>"
    "x_keccak256 X (n_encode_header N header) = ws_parent_block (ap_state app1)"
  using assms(1)
proof (cases rule: finalize_cases)
  case (1 results app' root ws)
  have t: "same_tables X (ws_data (ap_state app')) (ws_data ws)" and p: "ws_parent_block ws = ws_parent_block (ap_state app')"
    using state_root_tables [OF 1(2) assms(2)] 1(2) by (auto simp: state_root_hash_def)
  from 1(1) obtain header bb ws0 where s: "store_block X N (fr_height req) header bb ws0 = Ret (ap_state app')"
    and b: "bb_decoded bb = map fst (decoded_of N (fr_txs req))"
    by (rule tx_execution_build)
  note r = store_block_reads [OF s]
  show ?thesis
    by (rule that [of header]) (use r(1-4) b assms(3,4) 1(3) in
      \<open>simp_all add: same_tables_reads [OF t] p get_full_block_def [of X N "ap_state app'"]\<close>)
qed

section \<open>Concrete inputs\<close>

text \<open>A node on the database in memory executes and commits the block of \<open>chain_request\<close>.\<close>

lemma memory_hash_keyed [simp]: "hash_keyed memory_ext"
  by (simp add: hash_keyed_def memory_ext_def)

lemma memory_recover [simp]: "x_ecdsa_recover memory_ext = (\<lambda>_ _ _. None)"
  by (simp add: memory_ext_def)

lemma memory_rejected:
  "lv_eth_call lv = None \<Longrightarrow> transaction_execution memory_ext run it lv ws (sample_tx 30000 0 5) h =
     Ret (TxErr 0 [], lv\<lparr>lv_return_data := []\<rparr>, ws)"
  by (simp add: transaction_execution_def start_transaction_def transaction_checks_def recover_sender_def
      split_v_def Let_def)

lemma memory_node_starts:
  "\<exists>app. leviathan_app_new memory_ext chain_node Istanbul r = Ret app \<and> ap_leviathan app = leviathan_new Istanbul"
  by (simp add: leviathan_app_new_def world_state_new_def trie_root_def memory_ext_def Let_def)

lemma memory_node_finalizes:
  assumes "lv_eth_call (ap_leviathan app) = None"
  shows "\<exists>r app'. finalize_block memory_ext chain_node (evm_run memory_ext 0) sample_order chain_request app = Ret (r, app')"
proof -
  have "n_decode_tx chain_node [7] = Inr (sample_tx 30000 0 5)" "n_decode_tx chain_node [] = Inl ''empty''"
    by (simp_all add: chain_node_def)
  moreover have "n_mem_insert chain_node = (\<lambda>_ _ _ _. Some ())" "n_mem_root chain_node = (\<lambda>_ _. Some (0, (), ()))"
    "n_mem_from chain_node = (\<lambda>_ _. Some ())" by (simp_all add: chain_node_def)
  moreover have "x_trie_root memory_ext = (\<lambda>_ _. Some (EMPTY_STORAGE_ROOT, (), []))" by (simp add: memory_ext_def)
  ultimately show ?thesis using assms
    by (simp add: finalize_block_def tx_execution_def first_header_def from_slice_def block_tries_def chain_request_def
        execute_one_def memory_rejected record_receipt_def to_u64_def u64_add_def seal_header_def state_root_hash_def
        trie_root_def store_block_def update_block_number_def Let_def)
qed

lemma memory_node_commits: "\<exists>app'. commit_block memory_ext N app = Ret app'"
  by (simp add: commit_block_def db_flush_def memory_ext_def Let_def)

section \<open>Properties\<close>

text \<open>
  C12.  In every state the node reaches, through any sequence of handlers, queries, commits, crashes and
  restarts: the overlay of the database is in step with the pending batch and every pending key has the
  length of its column family, so that no block, receipt or lookup is confused with another entry; the hash
  the next block will name as its parent is zero or the hash of a block that is stored under it; and the
  virtual machine executes for the version of the node, not in the mode of simulated calls.  This is under
  the documented behaviour of the trie crate (nodes are stored under 32-byte hashes), of RocksDB and of the
  codecs.
\<close>

theorem reachable_node_inv:
  assumes "node_reachable X N app" "hash_keyed X" "applies_batches X"
    and "\<And>h. n_decode_header N (n_encode_header N h) = Some h" "\<And>ts. n_decode_body N (n_encode_body N ts) = Some ts"
  shows "node_inv X N app"
  using assms by (rule reachable_inv)

theorem reachable_node_inv_witness:
  "\<exists>app. node_reachable memory_ext chain_node app \<and> parent_stored memory_ext chain_node (ap_state app) \<and>
     ws_parent_block (ap_state app) = 7"
proof -
  obtain app0 where a: "leviathan_app_new memory_ext chain_node Istanbul (\<lambda>_. Map.empty) = Ret app0"
    "ap_leviathan app0 = leviathan_new Istanbul" using memory_node_starts by blast
  then obtain r app1 where b: "finalize_block memory_ext chain_node (evm_run memory_ext 0) sample_order chain_request app0 =
      Ret (r, app1)" using memory_node_finalizes by fastforce
  obtain app2 where c: "commit_block memory_ext chain_node app1 = Ret app2" using memory_node_commits by blast
  have r: "node_reachable memory_ext chain_node app2"
    using reach_step [OF reach_step [OF reach_start [OF a(1)] step_handler [OF step_finalize [OF b]]] step_commit [OF c]] .
  have "ws_parent_block (ap_state app1) = 7"
    using b by (auto simp: finalize_block_def tx_execution_def store_block_def state_root_hash_def memory_ext_def Let_def)
  with c have "ws_parent_block (ap_state app2) = 7" by (auto elim: commit_cases)
  with r reachable_node_inv [OF r _ _ header_codec body_codec] show ?thesis by (auto simp: node_inv_def)
qed

text \<open>
  C13.  A committed block survives.  When a node, in any state it can reach, executes a block, commits it,
  and a new node is started on the database the commit wrote, the new node finds the block under its number
  with its transactions, and answers every lookup of a block hash by number, of a block, a receipt or a
  transaction by hash exactly as the old node did after the block.  The new node keeps nothing else: its
  account cache is empty and its parent hash is zero, for it will be given the whole chain again because its
  \<open>Info\<close> reports height 0.
\<close>

theorem committed_block_survives_restart:
  assumes "node_reachable X N app" "finalize_block X N (evm_run X n) it req app = Ret (r, app1)"
    and "commit_block X N app1 = Ret app2" "leviathan_app_new X N v (db_handle (ws_data (ap_state app2))) = Ret app3"
    and "hash_keyed X" "applies_batches X"
    and "\<And>h. n_decode_header N (n_encode_header N h) = Some h" "\<And>ts. n_decode_body N (n_encode_body N ts) = Some ts"
  shows "(\<exists>header. get_full_block_from_index X N (ap_state app3) (sint (fr_height req)) =
        Ret (Some \<lparr>fb_header = header, fb_transactions = map fst (decoded_of N (fr_txs req))\<rparr>) \<and>
      x_keccak256 X (n_encode_header N header) = ws_parent_block (ap_state app1)) \<and>
    (\<forall>i. get_blockhash_from_index X (ws_data (ap_state app3)) i = get_blockhash_from_index X (ws_data (ap_state app1)) i) \<and>
    (\<forall>h :: b256. get_full_block X N (ap_state app3) (to_be_bytes h) = get_full_block X N (ap_state app1) (to_be_bytes h)) \<and>
    (\<forall>h. find_transaction X N (ap_state app3) h = find_transaction X N (ap_state app1) h) \<and>
    (\<forall>h. get_receipt_struct X N (ap_state app3) (receipt_key h) = get_receipt_struct X N (ap_state app1) (receipt_key h)) \<and>
    ws_cache (ap_state app3) = Map.empty \<and> ws_parent_block (ap_state app3) = 0 \<and> ri_last_block_height info = 0"
proof -
  have k: "keyed (ap_state app1)"
    using finalize_inv [OF assms(2,5) reachable_inv [OF assms(1,5-8)] assms(7,8)] by (simp add: node_inv_def)
  note t = restart_tables [OF assms(3-6) k]
  from assms(2,5,7,8) obtain header where
    "get_blockhash_from_index X (ws_data (ap_state app1)) (sint (fr_height req)) =
      Ret (Some (to_be_bytes (ws_parent_block (ap_state app1))))"
    "get_full_block X N (ap_state app1) (to_be_bytes (ws_parent_block (ap_state app1))) =
      Some \<lparr>fb_header = header, fb_transactions = map fst (decoded_of N (fr_txs req))\<rparr>"
    "x_keccak256 X (n_encode_header N header) = ws_parent_block (ap_state app1)" by (rule finalized_block)
  with t show ?thesis by (simp add: get_full_block_from_index_def same_tables_reads [OF t(1)] info_def)
qed

theorem committed_block_survives_restart_witness:
  "\<exists>app3 header. node_reachable memory_ext chain_node app3 \<and> ws_parent_block (ap_state app3) = 0 \<and>
     get_full_block_from_index memory_ext chain_node (ap_state app3) 5 =
       Ret (Some \<lparr>fb_header = header, fb_transactions = [sample_tx 30000 0 5]\<rparr>)"
proof -
  obtain app0 where a: "leviathan_app_new memory_ext chain_node Istanbul (\<lambda>_. Map.empty) = Ret app0"
    "ap_leviathan app0 = leviathan_new Istanbul" using memory_node_starts by blast
  then obtain r app1 where b: "finalize_block memory_ext chain_node (evm_run memory_ext 0) sample_order chain_request app0 =
      Ret (r, app1)" using memory_node_finalizes by fastforce
  obtain app2 where c: "commit_block memory_ext chain_node app1 = Ret app2" using memory_node_commits by blast
  obtain app3 where d: "leviathan_app_new memory_ext chain_node Istanbul (db_handle (ws_data (ap_state app2))) = Ret app3"
    using memory_node_starts by blast
  have e: "node_reachable memory_ext chain_node app0" using a(1) by (rule reach_start)
  have "map fst (decoded_of chain_node (fr_txs chain_request)) = [sample_tx 30000 0 5]" "sint (fr_height chain_request) = 5"
    unfolding chain_decoded by (simp_all add: chain_request_def)
  with committed_block_survives_restart [OF e b c d _ _ header_codec body_codec] reach_start [OF d] show ?thesis by auto
qed

end
