(* ===== verification/Mempool.thy ===== *)
theory Mempool
  imports Node_Run
begin

text \<open>
  The memory pool between two commits.  The node remembers what it admitted only in the cache of pending
  senders, an LRU cache of 100 entries that a commit clears: a transaction is admitted once, and the
  transactions of a sender form a queue its balance can pay, for as long as the sender is not evicted.
\<close>

section \<open>The LRU cache\<close>

text \<open>Entries in the order of their last use, with distinct keys.\<close>

type_synonym pending = "(address \<times> mpt_account) list"

definition drop_key :: "address \<Rightarrow> pending \<Rightarrow> pending" where
  "drop_key a es = filter (\<lambda>e. fst e \<noteq> a) es"

definition lru_promote :: "address \<Rightarrow> pending \<Rightarrow> pending" where
  "lru_promote a es = (case map_of es a of None \<Rightarrow> es | Some m \<Rightarrow> (a, m) # drop_key a es)"

definition lru_insert :: "nat \<Rightarrow> address \<Rightarrow> mpt_account \<Rightarrow> pending \<Rightarrow> pending" where
  "lru_insert n a m es = take n ((a, m) # drop_key a es)"

text \<open>What the crate \<open>lru\<close> documents, for its capacity and its entries.\<close>

definition documented_lru :: "('m, 'd, 'c) node_ext \<Rightarrow> ('c \<Rightarrow> nat) \<Rightarrow> ('c \<Rightarrow> pending) \<Rightarrow> bool" where
  "documented_lru N cap entries \<longleftrightarrow>
     (\<forall>n. cap (n_lru_new N n) = n \<and> entries (n_lru_new N n) = []) \<and>
     (\<forall>c a. fst (n_lru_get N c a) = map_of (entries c) a \<and> cap (snd (n_lru_get N c a)) = cap c \<and>
        entries (snd (n_lru_get N c a)) = lru_promote a (entries c)) \<and>
     (\<forall>c a m. cap (n_lru_put N c a m) = cap c \<and> entries (n_lru_put N c a m) = lru_insert (cap c) a m (entries c)) \<and>
     (\<forall>c. cap (n_lru_clear N c) = cap c \<and> entries (n_lru_clear N c) = [])"

text \<open>
  The sender \<open>s\<close> is cached with account \<open>m\<close>, and only senders in \<open>B\<close> were used more recently.
\<close>

definition held :: "address set \<Rightarrow> address \<Rightarrow> mpt_account \<Rightarrow> pending \<Rightarrow> bool" where
  "held B s m es \<longleftrightarrow> distinct (map fst es) \<and> (\<exists>p q. es = p @ (s, m) # q \<and> fst ` set p \<subseteq> B - {s})"

lemma distinct_drop_key: "distinct (map fst es) \<Longrightarrow> distinct (map fst (drop_key a es))"
  by (simp add: drop_key_def distinct_map_filter)

lemma keys_drop_key [simp]: "fst ` set (drop_key a es) = fst ` set es - {a}"
  by (auto simp: drop_key_def)

lemma not_in_drop_key [simp]: "(a, m) \<notin> set (drop_key a es)"
  by (simp add: drop_key_def)

lemma drop_key_append [simp]: "drop_key a (p @ q) = drop_key a p @ drop_key a q"
  by (simp add: drop_key_def)

lemma drop_key_Cons [simp]: "drop_key a (e # es) = (if fst e = a then drop_key a es else e # drop_key a es)"
  by (simp add: drop_key_def)

lemma drop_key_idem [simp]: "drop_key a (drop_key a es) = drop_key a es"
  by (simp add: drop_key_def)

lemma lru_insert_promote [simp]: "lru_insert n a m (lru_promote a es) = lru_insert n a m es"
  by (simp add: lru_insert_def lru_promote_def split: option.split)

lemma lru_distinct:
  assumes "distinct (map fst es)"
  shows "distinct (map fst (lru_promote a es))" "distinct (map fst (lru_insert n a m es))"
proof -
  have d: "distinct (map fst ((a, x) # drop_key a es))" for x
    using distinct_drop_key [OF assms] by simp
  then show "distinct (map fst (lru_promote a es))"
    using assms by (simp add: lru_promote_def split: option.split)
  show "distinct (map fst (lru_insert n a m es))"
    using distinct_take [OF d, of n] by (simp only: lru_insert_def take_map)
qed


lemma held_lookup: "held B s m es \<Longrightarrow> map_of es s = Some m"
  unfolding held_def by (auto intro!: map_of_is_SomeI)

lemma held_mono: "held B s m es \<Longrightarrow> B \<subseteq> C \<Longrightarrow> held C s m es"
  unfolding held_def by blast

lemma held_first:
  assumes "distinct (map fst es)"
  shows "held B s m ((s, m) # drop_key s es)"
  unfolding held_def using distinct_drop_key [OF assms, of s]
  by (intro conjI exI [of _ "[]"] exI [of _ "drop_key s es"]) auto

lemma held_promote:
  assumes "held B s m es" "a \<in> B"
  shows "held B s m (lru_promote a es)"
proof (cases "a = s")
  case True
  with assms held_lookup [OF assms(1)] held_first show ?thesis by (simp add: lru_promote_def held_def)
next
  case False
  from assms(1) obtain p q where es: "es = p @ (s, m) # q" "fst ` set p \<subseteq> B - {s}" and d: "distinct (map fst es)"
    unfolding held_def by blast
  have "\<exists>p q. lru_promote a es = p @ (s, m) # q \<and> fst ` set p \<subseteq> B - {s}"
  proof (cases "map_of es a")
    case None
    then have "lru_promote a es = es" by (simp add: lru_promote_def)
    with es show ?thesis by blast
  next
    case (Some x)
    with es False assms(2) show ?thesis
      by (intro exI [of _ "(a, x) # drop_key a p"] exI [of _ "drop_key a q"]) (auto simp: lru_promote_def)
  qed
  with lru_distinct(1) [OF d] show ?thesis by (simp add: held_def)
qed

text \<open>An insertion evicts the last entry only; less than \<open>n\<close> others cannot push \<open>s\<close> out.\<close>

lemma held_insert_other:
  assumes "held B s m es" "a \<in> B" "a \<noteq> s" "finite B" "card (B - {s}) < n"
  shows "held B s m (lru_insert n a x es)"
proof -
  from assms(1) obtain p q where es: "es = p @ (s, m) # q" "fst ` set p \<subseteq> B - {s}" and d: "distinct (map fst es)"
    unfolding held_def by blast
  let ?p = "(a, x) # drop_key a p"
  have ins: "(a, x) # drop_key a es = ?p @ (s, m) # drop_key a q" using es assms(3) by simp
  have keys: "fst ` set ?p \<subseteq> B - {s}" using es(2) assms(2,3) by auto
  have "distinct (map fst ((a, x) # drop_key a es))" using distinct_drop_key [OF d] by simp
  then have "distinct (map fst ?p)" unfolding ins by simp
  then have "length ?p = card (fst ` set ?p)" by (metis distinct_card length_map list.set_map)
  also have "\<dots> \<le> card (B - {s})" using keys assms(4) by (intro card_mono) auto
  finally have "length ?p < n" using assms(5) by simp
  then have "lru_insert n a x es = ?p @ (s, m) # take (n - Suc (length ?p)) (drop_key a q)"
    unfolding lru_insert_def ins by (simp add: take_Cons' Suc_diff_Suc)
  with keys lru_distinct(2) [OF d] show ?thesis unfolding held_def by blast
qed

lemma held_insert_self:
  assumes "distinct (map fst es)" "0 < n"
  shows "held B s m (lru_insert n s m es)"
proof -
  from assms(2) have "lru_insert n s m es = [] @ (s, m) # take (n - 1) (drop_key s es)"
    by (simp add: lru_insert_def take_Cons')
  with lru_distinct(2) [OF assms(1), of n s m] show ?thesis unfolding held_def by fastforce
qed

section \<open>CheckTx on the cache\<close>

text \<open>The sender of a raw transaction, if it decodes and is signed.\<close>

definition tx_senders :: "('t, 'r) ext \<Rightarrow> ('m, 'd, 'c) node_ext \<Rightarrow> byte list \<Rightarrow> address set" where
  "tx_senders X N raw =
     (case n_decode_tx N raw of
        Inl _ \<Rightarrow> {}
      | Inr tx \<Rightarrow> (case recover_sender X tx of Ret (Inr s) \<Rightarrow> {s} | _ \<Rightarrow> {}))"

lemma tx_senders_finite [simp]: "finite (tx_senders X N raw)"
  by (simp add: tx_senders_def split: sum.split res.split)

lemma tx_senders_signed [simp]:
  "n_decode_tx N raw = Inr tx \<Longrightarrow> recover_sender X tx = Ret (Inr s) \<Longrightarrow> tx_senders X N raw = {s}"
  by (simp add: tx_senders_def)

lemma documented_lruD:
  assumes "documented_lru N cap entries"
  shows "n_lru_get N c a = (r, c') \<Longrightarrow> r = map_of (entries c) a \<and> cap c' = cap c \<and> entries c' = lru_promote a (entries c)"
    and "cap (n_lru_put N c a m) = cap c" "entries (n_lru_put N c a m) = lru_insert (cap c) a m (entries c)"
    and "cap (n_lru_clear N c) = cap c" "entries (n_lru_clear N c) = []"
    and "cap (n_lru_new N n) = n" "entries (n_lru_new N n) = []"
  using assms unfolding documented_lru_def by (metis fst_conv snd_conv)+

text \<open>The three outcomes of \<open>check_tx\<close>.\<close>

lemma check_tx_cases:
  assumes "check_tx X N raw app = Ret (r, app')" "documented_lru N cap entries"
  obtains (malformed) "fst r = 1" "app' = app" "tx_senders X N raw = {}"
  | (refused) tx s c where "n_decode_tx N raw = Inr tx" "recover_sender X tx = Ret (Inr s)"
      "r = (1, ''Validation Failed'')" "app' = app\<lparr>ap_cache := c\<rparr>" "cap c = cap (ap_cache app)"
      "entries c = lru_promote s (entries (ap_cache app))"
  | (admitted) tx s c target m' where "n_decode_tx N raw = Inr tx" "recover_sender X tx = Ret (Inr s)"
      "r = (0, [])" "app' = app\<lparr>ap_cache := c\<rparr>" "cap c = cap (ap_cache app)"
      "entries c = lru_insert (cap (ap_cache app)) s m' (entries (ap_cache app))"
      "case map_of (entries (ap_cache app)) s of
         Some t \<Rightarrow> target = t | None \<Rightarrow> contain_mpt X (ap_state app) s = Ret (Some target)"
      "pool_checks (ap_version app) tx target" "charge_pending tx target = Ret m'"
proof (cases "tx_senders X N raw = {}")
  case True
  with assms(1) show ?thesis
    by (intro malformed) (auto simp: tx_senders_def check_tx_def validate_transaction_def split: sum.splits)
next
  case False
  with assms(1) obtain tx s where tx: "n_decode_tx N raw = Inr tx" and s: "recover_sender X tx = Ret (Inr s)"
    by (auto simp: tx_senders_def split: sum.splits res.splits)
  obtain cached c where g: "n_lru_get N (ap_cache app) s = (cached, c)" by fastforce
  note get = documented_lruD(1) [OF assms(2) g]
  from assms(1) tx obtain ok where v: "validate_transaction X N tx app = Ret (ok, app')"
    and r: "r = (if ok then (0, []) else (1, ''Validation Failed''))"
    by (auto simp: check_tx_def split: if_splits)
  from v s obtain target app1 where p: "pending_account X N s app = Ret (target, app1)"
    and rest: "(case target of None \<Rightarrow> Ret (False, app1)
         | Some target \<Rightarrow>
             if \<not> pool_checks (ap_version app) tx target then Ret (False, app1)
             else
               bindR (charge_pending tx target) (\<lambda>updated_target.
               Ret (True, app1\<lparr>ap_cache := n_lru_put N (ap_cache app1) s updated_target\<rparr>))) = Ret (ok, app')"
    by (auto simp: validate_transaction_def)
  from p g have app1: "app1 = app\<lparr>ap_cache := c\<rparr>"
    and t: "case cached of Some t \<Rightarrow> target = Some t | None \<Rightarrow> contain_mpt X (ap_state app) s = Ret target"
    by (cases cached; fastforce simp: pending_account_def)+
  show ?thesis
  proof (cases ok)
    case False
    with rest app1 have "app' = app\<lparr>ap_cache := c\<rparr>" by (auto split: option.splits if_splits)
    with False r get tx s show ?thesis by (intro refused [of tx s c]) auto
  next
    case True
    with rest app1 obtain x m' where x: "target = Some x" "pool_checks (ap_version app) tx x"
      "charge_pending tx x = Ret m'" "app' = app\<lparr>ap_cache := n_lru_put N c s m'\<rparr>"
      by (auto split: option.splits if_splits)
    with True r get tx s t show ?thesis
      by (intro admitted [of tx s "n_lru_put N c s m'" m' x])
        (auto simp: documented_lruD [OF assms(2)] split: option.splits)
  qed
qed

text \<open>What the checks and the charge say of numbers.\<close>

lemma charged_account:
  assumes "pool_checks v tx t" "charge_pending tx t = Ret m'"
  shows "unat (m_nonce m') = unat (m_nonce t) + 1" "unat (m_balance m') + unat (max_cost tx) = unat (m_balance t)"
    "m_code_hash m' = EMPTY_CODE_HASH" "unat (m_nonce t) = t_nonce tx"
proof -
  from assms(2) have m': "m' = t\<lparr>m_nonce := m_nonce t + 1, m_balance := sat_sub (m_balance t) (max_cost tx)\<rparr>"
    and n: "m_nonce t \<noteq> -1" by (auto simp: charge_pending_def split: if_splits)
  have "unat (m_nonce t) \<noteq> unat (- 1 :: u64)" using n by (metis word_unat_eq_iff)
  moreover have "unat (m_nonce t) < 2 ^ 64" using unsigned_less [of "m_nonce t"] by simp
  ultimately have "unat (m_nonce t) + 1 < 2 ^ 64"
    by (simp add: unsigned_minus_1_eq_mask mask_eq_exp_minus_1)
  then show "unat (m_nonce m') = unat (m_nonce t) + 1" by (simp add: m' unat_word_ariths)
  from assms(1) have "max_cost tx \<le> m_balance t" by (auto simp: pool_checks_def)
  then show "unat (m_balance m') + unat (max_cost tx) = unat (m_balance t)"
    by (simp add: m' sat_sub_def unat_sub word_le_nat_alt word_less_nat_alt)
  show "m_code_hash m' = EMPTY_CODE_HASH" "unat (m_nonce t) = t_nonce tx"
    using assms(1) by (auto simp: m' pool_checks_def)
qed


section \<open>Between two commits\<close>

text \<open>
  The node serves requests, blocks included, without committing or restarting; \<open>A\<close> collects the senders of
  the transactions it was asked to check.
\<close>

inductive serving ::
  "('t, 'r) ext \<Rightarrow> ('m, 'd, 'c) node_ext \<Rightarrow> address set \<Rightarrow> ('t, 'r, 'c) leviathan_app \<Rightarrow> ('t, 'r, 'c) leviathan_app \<Rightarrow> bool"
  for X N where
  serving_start: "serving X N {} app app"
| serving_check: "serving X N A app app1 \<Longrightarrow> check_tx X N raw app1 = Ret (r, app2) \<Longrightarrow>
    serving X N (tx_senders X N raw \<union> A) app app2"
| serving_step: "serving X N A app app1 \<Longrightarrow> handler_step X N app1 app2 \<Longrightarrow> serving X N A app app2"

lemma serving_finite: "serving X N A app app' \<Longrightarrow> finite A"
  by (induction rule: serving.induct) simp_all

lemma tx_execution_cache: "tx_execution X N run it req app = Ret (r, app') \<Longrightarrow> ap_cache app' = ap_cache app"
  by (auto simp: tx_execution_def)

lemma handler_step_cache: "handler_step X N app app' \<Longrightarrow> ap_cache app' = ap_cache app"
  by (induction rule: handler_step.induct)
    (auto simp: init_chain_def elim!: finalize_cases dest: tx_execution_cache)

text \<open>In every reachable state the cache has the capacity of the source and distinct keys.\<close>

lemma check_tx_cache_ok:
  assumes "check_tx X N raw app = Ret (r, app')" "documented_lru N cap entries"
    and "cap (ap_cache app) = n" "distinct (map fst (entries (ap_cache app)))"
  shows "cap (ap_cache app') = n \<and> distinct (map fst (entries (ap_cache app')))"
  using assms(1,2) by (cases rule: check_tx_cases) (use assms(3,4) in \<open>auto intro: lru_distinct\<close>)

lemma reachable_cache:
  assumes "node_reachable X N app" "documented_lru N cap entries"
  shows "cap (ap_cache app) = 100 \<and> distinct (map fst (entries (ap_cache app)))"
  using assms(1)
proof induction
  case (reach_start v r app)
  then show ?case by (auto simp: leviathan_app_new_def documented_lruD [OF assms(2)])
next
  case (reach_step app app')
  from reach_step.hyps(2) show ?case
  proof (cases rule: node_step.cases)
    case step_handler
    with reach_step.IH show ?thesis by (simp add: handler_step_cache)
  next
    case (step_check raw r)
    with check_tx_cache_ok [OF _ assms(2)] reach_step.IH show ?thesis by blast
  next
    case step_commit
    with reach_step.IH show ?thesis by (auto elim!: commit_cases simp: documented_lruD [OF assms(2)])
  next
    case (step_restart v)
    then show ?thesis by (auto simp: leviathan_app_new_def documented_lruD [OF assms(2)])
  qed
qed

text \<open>One CheckTx keeps a cached sender cached, and its nonce does not go back.\<close>

lemma check_tx_held:
  assumes "check_tx X N raw app = Ret (r, app')" "documented_lru N cap entries" "cap (ap_cache app) = n"
    and "held B s m (entries (ap_cache app))" "tx_senders X N raw \<subseteq> B" "finite B" "card (B - {s}) < n"
  shows "\<exists>m'. held B s m' (entries (ap_cache app')) \<and> unat (m_nonce m) \<le> unat (m_nonce m')"
  using assms(1,2)
proof (cases rule: check_tx_cases)
  case malformed
  with assms(4) show ?thesis by auto
next
  case (refused tx a c)
  with assms(4,5) held_promote [OF assms(4), of a] show ?thesis by auto
next
  case (admitted tx a c target m')
  show ?thesis
  proof (cases "a = s")
    case False
    with admitted assms(3-7) held_insert_other [OF assms(4), of a n m'] show ?thesis by auto
  next
    case True
    with admitted(7) held_lookup [OF assms(4)] have "target = m" by simp
    with charged_account(1) [OF admitted(8,9)] have "unat (m_nonce m) \<le> unat (m_nonce m')" by simp
    moreover have "distinct (map fst (entries (ap_cache app)))" using assms(4) by (simp add: held_def)
    then have "held B s m' (entries (ap_cache app'))"
      using admitted(4,6) True assms(3,7) by (simp add: held_insert_self)
    ultimately show ?thesis by blast
  qed
qed

lemma serving_held:
  assumes "serving X N A app app'" "documented_lru N cap entries" "cap (ap_cache app) = n"
    and "distinct (map fst (entries (ap_cache app)))" "held B s m (entries (ap_cache app))" "A \<subseteq> B" "finite B" "card (B - {s}) < n"
  shows "cap (ap_cache app') = n \<and>
    (\<exists>m'. held B s m' (entries (ap_cache app')) \<and> unat (m_nonce m) \<le> unat (m_nonce m'))"
  using assms
proof (induction rule: serving.induct)
  case (serving_check A app app1 raw r app2)
  then obtain m1 where m1: "cap (ap_cache app1) = n" "held B s m1 (entries (ap_cache app1))"
    "unat (m_nonce m) \<le> unat (m_nonce m1)" by auto
  from check_tx_held [OF serving_check.hyps(2) assms(2) m1(1,2)] serving_check.prems
  obtain m2 where "held B s m2 (entries (ap_cache app2))" "unat (m_nonce m1) \<le> unat (m_nonce m2)" by auto
  moreover from m1(2) have "distinct (map fst (entries (ap_cache app1)))" by (simp add: held_def)
  note check_tx_cache_ok [OF serving_check.hyps(2) assms(2) m1(1) this]
  ultimately show ?case using m1(3) by (meson order.trans)
next
  case (serving_step A app app1 app2)
  then show ?case by (auto simp: handler_step_cache)
qed auto

text \<open>What an admission leaves in the cache.\<close>

lemma admitted_held:
  assumes "check_tx X N raw app = Ret (r, app')" "fst r = 0" "documented_lru N cap entries"
    and "0 < cap (ap_cache app)" "distinct (map fst (entries (ap_cache app)))"
  shows "\<exists>tx s m'. n_decode_tx N raw = Inr tx \<and> recover_sender X tx = Ret (Inr s) \<and>
    (\<forall>B. held B s m' (entries (ap_cache app'))) \<and> unat (m_nonce m') = t_nonce tx + 1"
  using assms(1,3)
proof (cases rule: check_tx_cases)
  case (admitted tx s c target m')
  then show ?thesis
    using held_insert_self [OF assms(5,4), of _ s m'] charged_account(1,4) [OF admitted(8,9)]
    by (intro exI [of _ tx] exI [of _ s] exI [of _ m']) simp
qed (use assms(2) in auto)

lemma nonce_used_refused:
  assumes "n_decode_tx N raw = Inr tx" "recover_sender X tx = Ret (Inr s)" "documented_lru N cap entries"
    and "map_of (entries (ap_cache app)) s = Some m" "t_nonce tx < unat (m_nonce m)"
  shows "\<exists>app'. check_tx X N raw app = Ret ((1, ''Validation Failed''), app')"
proof -
  obtain c where "n_lru_get N (ap_cache app) s = (Some m, c)"
    using assms(4) documented_lruD(1) [OF assms(3)] by (metis surj_pair)
  moreover have "\<not> pool_checks (ap_version app) tx m" using assms(5) by (simp add: pool_checks_def)
  ultimately show ?thesis
    using assms(1,2) by (simp add: check_tx_def validate_transaction_def pending_account_def)
qed

section \<open>Sequences of CheckTx\<close>

primrec check_txs ::
  "('t, 'r) ext \<Rightarrow> ('m, 'd, 'c) node_ext \<Rightarrow> byte list list \<Rightarrow> ('t, 'r, 'c) leviathan_app \<Rightarrow>
   ((nat \<times> string) list \<times> ('t, 'r, 'c) leviathan_app) res" where
  "check_txs X N [] app = Ret ([], app)"
| "check_txs X N (raw # raws) app =
     bindR (check_tx X N raw app) (\<lambda>(r, app1).
     bindR (check_txs X N raws app1) (\<lambda>(rs, app2). Ret (r # rs, app2)))"



lemma check_txs_state:
  "check_txs X N raws app = Ret (rs, app') \<Longrightarrow> ap_state app' = ap_state app \<and> ap_version app' = ap_version app"
  by (induction raws arbitrary: app rs) (fastforce dest: check_tx_state)+

definition total_cost :: "transaction list \<Rightarrow> nat" where
  "total_cost q = (\<Sum>tx\<leftarrow>q. unat (max_cost tx))"

lemma total_cost_simps [simp]:
  "total_cost [] = 0" "total_cost (q @ [tx]) = total_cost q + unat (max_cost tx)"
  by (simp_all add: total_cost_def)

text \<open>
  The cached account of \<open>s\<close> after the queue \<open>q\<close> was admitted on top of the account \<open>m\<close> of the trie.
\<close>

definition pending_after :: "mpt_account \<Rightarrow> transaction list \<Rightarrow> mpt_account \<Rightarrow> bool" where
  "pending_after m q t \<longleftrightarrow> unat (m_nonce t) = unat (m_nonce m) + length q \<and>
     unat (m_balance t) + total_cost q = unat (m_balance m)"



lemma pending_after_nil [simp]: "pending_after m [] m"
  by (simp add: pending_after_def)




section \<open>Execution of a queue\<close>







section \<open>Eviction\<close>

text \<open>After admissions from the distinct senders \<open>as\<close> the cache starts with them, the last one first.\<close>

lemma check_txs_recent:
  assumes "check_txs X N raws app = Ret (rs, app')" "documented_lru N cap entries" "\<forall>r\<in>set rs. fst r = 0"
    and "map (tx_senders X N) raws = map (\<lambda>a. {a}) as" "distinct (ds @ as)" "cap (ap_cache app) = n"
    and "length (ds @ as) \<le> n" "length (entries (ap_cache app)) \<le> n"
    and "take (length ds) (map fst (entries (ap_cache app))) = rev ds"
  shows "length (entries (ap_cache app')) \<le> n \<and>
    take (length (ds @ as)) (map fst (entries (ap_cache app'))) = rev (ds @ as)"
  using assms(1,3-9)
proof (induction raws arbitrary: app rs as ds)
  case (Cons raw raws)
  from Cons.prems(1) obtain r app1 rs' where c: "check_tx X N raw app = Ret (r, app1)"
    and rest: "check_txs X N raws app1 = Ret (rs', app')" and rs: "rs = r # rs'" by auto
  from Cons.prems(3) obtain a as' where as: "as = a # as'" "tx_senders X N raw = {a}"
    "map (tx_senders X N) raws = map (\<lambda>a. {a}) as'" by (cases as) auto
  let ?es = "entries (ap_cache app)" and ?k = "length ds"
  obtain m' where e: "entries (ap_cache app1) = lru_insert n a m' ?es" and n: "cap (ap_cache app1) = n"
    using c assms(2)
  proof (cases rule: check_tx_cases)
    case (admitted tx s c target m')
    with as(2) Cons.prems(5) that [of m'] show thesis by simp
  qed (use Cons.prems(2) rs as(2) in auto)
  have "a \<notin> set ds" using Cons.prems(4) as(1) by simp
  have p: "map fst (take ?k ?es) = rev ds" using Cons.prems(8) by (simp add: take_map)
  then have "a \<notin> fst ` set (take ?k ?es)" using \<open>a \<notin> set ds\<close> by (metis list.set_map set_rev)
  then have "drop_key a (take ?k ?es) = take ?k ?es" unfolding drop_key_def by (subst filter_id_conv) (auto simp: image_iff)
  then have "drop_key a ?es = take ?k ?es @ drop_key a (drop ?k ?es)"
    by (metis append_take_drop_id drop_key_append)
  moreover have "length (take ?k ?es) = ?k" using p by (metis length_map length_rev)
  ultimately have "take (Suc ?k) (map fst (lru_insert n a m' ?es)) = a # rev ds"
    using p Cons.prems(6) as(1) by (simp add: lru_insert_def take_map min_def)
  then have "take (length (ds @ [a])) (map fst (entries (ap_cache app1))) = rev (ds @ [a])" using e by simp
  moreover have "length (entries (ap_cache app1)) \<le> n" using e by (simp add: lru_insert_def)
  ultimately show ?case
    using Cons.IH [OF rest _ as(3), of "ds @ [a]"] Cons.prems(2,4,6) n by (simp add: rs as(1))
qed simp

text \<open>
  The bound of 100 is sharp: when 100 other senders were admitted after it, the sender has left the cache,
  and the pool admits the same transaction a second time.
\<close>

lemma evicted_transaction_readmitted:
  assumes "documented_lru N cap entries" "node_reachable X N app"
    and "check_tx X N raw app = Ret ((0, []), app1)" "tx_senders X N raw = {s}" "map_of (entries (ap_cache app)) s = None"
    and "check_txs X N raws app1 = Ret (rs, app2)" "\<forall>r\<in>set rs. fst r = 0"
    and "map (tx_senders X N) raws = map (\<lambda>a. {a}) senders" "distinct senders" "s \<notin> set senders" "length senders = 100"
  shows "\<exists>app3. check_tx X N raw app2 = Ret ((0, []), app3)"
  using assms(3,1)
proof (cases rule: check_tx_cases)
  case (admitted tx a c target m')
  with assms(4) have a: "a = s" by simp
  note cache = reachable_cache [OF assms(2,1)]
  have es: "entries (ap_cache app1) = lru_insert 100 s m' (entries (ap_cache app))" "cap (ap_cache app1) = 100"
    using admitted(4-6) a cache by simp_all
  have "length (entries (ap_cache app2)) \<le> 100 \<and> take 100 (map fst (entries (ap_cache app2))) = rev senders"
    using check_txs_recent [OF assms(6,1,7,8), of "[]" 100] assms(9,11) es by (simp add: lru_insert_def)
  then have "map fst (entries (ap_cache app2)) = rev senders" by (metis length_map take_all)
  then have "fst ` set (entries (ap_cache app2)) = set senders" by (metis list.set_map set_rev)
  then have "map_of (entries (ap_cache app2)) s = None" using assms(10) by (simp add: map_of_eq_None_iff)
  then obtain c' where "n_lru_get N (ap_cache app2) s = (None, c')"
    using documented_lruD(1) [OF assms(1)] by (metis surj_pair)
  moreover have "ap_state app2 = ap_state app" "ap_version app2 = ap_version app"
    using check_txs_state [OF assms(6)] check_tx_state [OF assms(3)] by simp_all
  moreover have "contain_mpt X (ap_state app) s = Ret (Some target)" using admitted(7) a assms(5) by simp
  ultimately show ?thesis
    using admitted(1,2,8,9) a by (simp add: check_tx_def validate_transaction_def pending_account_def)
qed simp_all

section \<open>Concrete inputs\<close>

text \<open>A node whose cache is the list of entries, and whose transactions are numbered by their length.\<close>

definition lru_node :: "(unit, unit, nat \<times> pending) node_ext" where
  "lru_node = \<lparr>n_decode_tx = (\<lambda>raw. if raw = [] then Inl ''empty''
       else Inr ((sample_tx 30000 0 5)\<lparr>t_nonce := 2 + length raw\<rparr>)),
     n_encode_tx = (\<lambda>_. []), n_encode_index = (\<lambda>i. be_bytes 8 i),
     n_logs_bloom = (\<lambda>_. -1), n_bloom_contains = (\<lambda>b _. b = -1), n_encode_receipt = (\<lambda>_ _. []),
     n_decode_receipt = (\<lambda>_. None), n_default_header = n_default_header sample_node,
     n_encode_header = (\<lambda>h. []), n_decode_header = (\<lambda>_. None), n_hash_slow = (\<lambda>_. 0),
     n_encode_body = (\<lambda>_. []), n_decode_body = (\<lambda>_. Some []), n_memory_db = (), n_mem_new = (\<lambda>_. ()),
     n_mem_from = (\<lambda>_ _. Some ()), n_mem_insert = (\<lambda>_ _ _ _. Some ()), n_mem_root = (\<lambda>_ _. Some (0, (), ())),
     n_lru_new = (\<lambda>n. (n, [])), n_lru_get = (\<lambda>(n, es) a. (map_of es a, n, lru_promote a es)),
     n_lru_put = (\<lambda>(n, es) a m. (n, lru_insert n a m es)), n_lru_clear = (\<lambda>(n, _). (n, [])),
     n_hex = (\<lambda>_. []), n_create_address = (\<lambda>_ _. 0)\<rparr>"

lemma lru_node_documented: "documented_lru lru_node fst snd"
  by (simp add: documented_lru_def lru_node_def split_beta)

abbreviation queue_tx :: "nat \<Rightarrow> transaction" where
  "queue_tx n \<equiv> (sample_tx 30000 0 5)\<lparr>t_nonce := n\<rparr>"

lemma queue_recover [simp]: "recover_sender pool_ext (queue_tx n) = Ret (Inr 0x200)"
  by (simp add: recover_sender_def split_v_def pool_ext_def signing_ext_def slice_of_def Let_def from_word_def)

lemma queue_costs [simp]: "intrinsic_gas Istanbul (queue_tx n) = 21020" "max_cost (queue_tx n) = 5"
  by (simp_all add: intrinsic_gas_def data_gas_def contract_gas_def sat_add_def max_cost_def sat_mul_def version_order)

text \<open>The node is started, commits, and is asked to check the transactions with nonces 3 and 4.\<close>

definition queue_app :: "(unit, unit) world_state \<Rightarrow> pending \<Rightarrow> (unit, unit, nat \<times> pending) leviathan_app" where
  "queue_app ws es = \<lparr>ap_state = ws, ap_leviathan = leviathan_new Istanbul, ap_version = Istanbul, ap_cache = (100, es)\<rparr>"

abbreviation queue_account :: "u64 \<Rightarrow> u256 \<Rightarrow> mpt_account" where
  "queue_account n b \<equiv> mpt_account_new n b EMPTY_STORAGE_ROOT EMPTY_CODE_HASH"

lemma queue_starts: "\<exists>ws. leviathan_app_new pool_ext lru_node Istanbul r = Ret (queue_app ws [])"
  by (simp add: leviathan_app_new_def world_state_new_def trie_root_def pool_ext_def signing_ext_def queue_app_def
      lru_node_def Let_def)


lemma queue_first:
  "check_tx pool_ext lru_node [7] (queue_app ws []) = Ret ((0, []), queue_app ws [(0x200, queue_account 4 995)])"
  by (simp add: check_tx_def validate_transaction_def pending_account_def queue_app_def lru_node_def pool_trie
      pool_checks_def charge_pending_def mpt_account_new_def sat_sub_def version_order lru_promote_def lru_insert_def drop_key_def)

lemma queue_second:
  "check_tx pool_ext lru_node [7, 7] (queue_app ws [(0x200, queue_account 4 995)]) =
     Ret ((0, []), queue_app ws [(0x200, queue_account 5 990)])"
  by (simp add: check_tx_def validate_transaction_def pending_account_def queue_app_def lru_node_def
      pool_checks_def charge_pending_def mpt_account_new_def sat_sub_def version_order lru_promote_def lru_insert_def drop_key_def)

lemma queue_senders [simp]: "raw \<noteq> [] \<Longrightarrow> tx_senders pool_ext lru_node raw = {0x200}"
  by (rule tx_senders_signed [where tx = "queue_tx (2 + length raw)"]) (simp_all add: lru_node_def)

section \<open>Properties\<close>



text \<open>
  C18.  A transaction is admitted once.  When CheckTx admitted it in any state the node can reach, it refuses
  the same transaction whenever it is sent again before the next commit or restart, whatever else the node
  did in between (other CheckTx requests, of the same sender too, blocks, queries), as long as fewer than 100
  other senders were checked since: then the sender cannot have been evicted from the LRU cache.
\<close>

theorem replay_rejected:
  assumes "documented_lru N cap entries" "node_reachable X N app" "check_tx X N raw app = Ret ((0, []), app1)"
    and "serving X N A app1 app2" "card (A - tx_senders X N raw) < 100"
  shows "\<exists>app3. check_tx X N raw app2 = Ret ((1, ''Validation Failed''), app3)"
proof -
  note cache = reachable_cache [OF assms(2,1)]
  from admitted_held [OF assms(3) _ assms(1)] cache obtain tx s m where tx: "n_decode_tx N raw = Inr tx"
    "recover_sender X tx = Ret (Inr s)" and h: "held A s m (entries (ap_cache app1))" and n: "unat (m_nonce m) = t_nonce tx + 1"
    by force
  have "cap (ap_cache app1) = 100" "distinct (map fst (entries (ap_cache app1)))"
    using check_tx_cache_ok [OF assms(3,1)] cache by simp_all
  from serving_held [OF assms(4,1) this h order.refl serving_finite [OF assms(4)]] assms(5) tx obtain m'
    where "held A s m' (entries (ap_cache app2))" "unat (m_nonce m) \<le> unat (m_nonce m')" by auto
  with nonce_used_refused [OF tx assms(1)] n show ?thesis by (auto dest: held_lookup)
qed

theorem replay_rejected_witness:
  "\<exists>ws app3. check_tx pool_ext lru_node [7] (queue_app ws [(0x200, queue_account 5 990)]) =
     Ret ((1, ''Validation Failed''), app3)"
proof -
  obtain ws where ws: "leviathan_app_new pool_ext lru_node Istanbul () = Ret (queue_app ws [])"
    using queue_starts by blast
  have "serving pool_ext lru_node (tx_senders pool_ext lru_node [7, 7] \<union> {})
      (queue_app ws [(0x200, queue_account 4 995)]) (queue_app ws [(0x200, queue_account 5 990)])"
    by (rule serving_check [OF serving_start queue_second])
  from replay_rejected [OF lru_node_documented reach_start [OF ws] queue_first this] show ?thesis by auto
qed

end
