(* ===== verification/Zk_Prover.thy ===== *)
theory Zk_Prover
  imports Sample
begin

text \<open>
  The payload of a vote (\<open>src/src/zk_prover.rs\<close>): the proof and the public values that \<open>snarkjs\<close> wrote are
  turned into the bytes the Groth16 precompile of \<open>src/src/leviathan/my_precompiled.rs\<close> reads.  The JSON
  values and the parsers of decimal numbers are parameters; reading a file gives its contents or nothing.
\<close>

section \<open>The payload\<close>

record zk_vote_payload =
  zp_proof_bytes :: "byte list"
  zp_commitment :: b256
  zp_nullifier_hash :: b256
  zp_vote_choice :: u256

text \<open>\<open>serde_json::from_str\<close>, indexing by key and position, \<open>as_str\<close>, and the two \<open>from_str\<close>.\<close>

record 'j json_ext =
  j_parse :: "string \<Rightarrow> 'j option"
  j_key :: "'j \<Rightarrow> string \<Rightarrow> 'j"
  j_index :: "'j \<Rightarrow> nat \<Rightarrow> 'j"
  j_str :: "'j \<Rightarrow> string option"
  j_biguint :: "string \<Rightarrow> nat option"
  j_u256 :: "string \<Rightarrow> u256 option"

text \<open>Left-padding to 32 bytes; \<open>32 - bytes.len()\<close> underflows for a number of more than 32 bytes.\<close>

definition parse_32 :: "'j json_ext \<Rightarrow> 'j \<Rightarrow> byte list res" where
  "parse_32 J val =
     bindR (unwrap (j_str J val)) (\<lambda>num_str.
     bindR (unwrap (j_biguint J num_str)) (\<lambda>num.
     let bytes = to_bytes_be num in
     if 32 < length bytes then Panic
     else copy_slice (replicate 32 0) (32 - length bytes) 32 bytes))"

primrec parse_all :: "'j json_ext \<Rightarrow> 'j list \<Rightarrow> byte list res" where
  "parse_all J [] = Ret []"
| "parse_all J (v # vs) = bindR (parse_32 J v) (\<lambda>bs. bindR (parse_all J vs) (\<lambda>rest. Ret (bs @ rest)))"

text \<open>The coordinates in the order they are appended: A, then B with the imaginary parts first, then C.\<close>

definition proof_coordinates :: "'j json_ext \<Rightarrow> 'j \<Rightarrow> 'j list" where
  "proof_coordinates J p =
     [j_index J (j_key J p ''pi_a'') 0, j_index J (j_key J p ''pi_a'') 1,
      j_index J (j_index J (j_key J p ''pi_b'') 0) 1, j_index J (j_index J (j_key J p ''pi_b'') 0) 0,
      j_index J (j_index J (j_key J p ''pi_b'') 1) 1, j_index J (j_index J (j_key J p ''pi_b'') 1) 0,
      j_index J (j_key J p ''pi_c'') 0, j_index J (j_key J p ''pi_c'') 1]"

definition load_from_snarkjs :: "'j json_ext \<Rightarrow> string option \<Rightarrow> string option \<Rightarrow> zk_vote_payload res" where
  "load_from_snarkjs J proof_file public_file =
     bindR (unwrap proof_file) (\<lambda>proof_str. bindR (unwrap (j_parse J proof_str)) (\<lambda>proof_json.
     bindR (unwrap public_file) (\<lambda>pub_str. bindR (unwrap (j_parse J pub_str)) (\<lambda>pub_json.
     bindR (parse_all J (proof_coordinates J proof_json)) (\<lambda>proof_bytes.
     bindR (parse_32 J (j_index J pub_json 0)) (\<lambda>commitment.
     bindR (parse_32 J (j_index J pub_json 1)) (\<lambda>nullifier_hash.
     bindR (unwrap (j_str J (j_index J pub_json 2))) (\<lambda>choice.
     bindR (unwrap (j_u256 J choice)) (\<lambda>vote_choice.
     Ret \<lparr>zp_proof_bytes = proof_bytes, zp_commitment = from_be_bytes commitment,
          zp_nullifier_hash = from_be_bytes nullifier_hash, zp_vote_choice = vote_choice\<rparr>)))))))))"

section \<open>Numbers as 32 bytes\<close>

text \<open>The number in a JSON value.\<close>

definition json_number :: "'j json_ext \<Rightarrow> 'j \<Rightarrow> nat option" where
  "json_number J val = Option.bind (j_str J val) (j_biguint J)"

lemma bit_len_bound: "n < 2 ^ bit_len n"
proof (induction n rule: bit_len.induct)
  case (1 n)
  then show ?case by (cases "n = 0") (simp_all add: bit_len.simps [of n])
qed

lemma bit_len_le: "n < 2 ^ k \<Longrightarrow> bit_len n \<le> k"
proof (induction n arbitrary: k rule: bit_len.induct)
  case (1 n)
  show ?case
  proof (cases "n = 0")
    case False
    with 1(2) obtain k' where k: "k = Suc k'" by (cases k) auto
    with 1(2) have "n div 2 < 2 ^ k'" by simp
    from 1(1) [OF False this] False show ?thesis by (simp add: bit_len.simps [of n] k)
  qed (simp add: bit_len.simps)
qed

lemma be_bytes_0: "be_bytes m 0 = replicate m 0"
  by (induction m) (simp_all flip: replicate_append_same)

lemma be_bytes_pad: "n < 256 ^ k \<Longrightarrow> be_bytes (m + k) n = replicate m 0 @ be_bytes k n"
proof (induction k arbitrary: n)
  case (Suc k)
  then have "n div 256 < 256 ^ k" by (simp add: less_mult_imp_div_less mult.commute)
  with Suc.IH show ?case by simp
qed (simp add: be_bytes_0)

lemma length_to_bytes_be: "length (to_bytes_be n) = max 1 ((bit_len n + 7) div 8)"
  by (simp add: to_bytes_be_def)

lemma to_bytes_be_pad:
  assumes "length (to_bytes_be n) \<le> m"
  shows "replicate (m - length (to_bytes_be n)) 0 @ to_bytes_be n = be_bytes m n"
proof -
  define k where "k = max 1 ((bit_len n + 7) div 8)"
  have "bit_len n \<le> 8 * ((bit_len n + 7) div 8)" by presburger
  also have "\<dots> \<le> 8 * k" by (simp add: k_def)
  finally have "(2 :: nat) ^ bit_len n \<le> 2 ^ (8 * k)" by (intro power_increasing) simp_all
  with bit_len_bound [of n] have "n < 256 ^ k" by (simp add: power_mult)
  have b: "to_bytes_be n = be_bytes k n" "k \<le> m" using assms by (simp_all only: to_bytes_be_def k_def length_be_bytes)
  with be_bytes_pad [OF \<open>n < 256 ^ k\<close>, of "m - k"] show ?thesis by simp
qed

text \<open>The helper encodes every number below \<open>2 ^ 256\<close> and panics on the others.\<close>

lemma parse_32_number:
  assumes "json_number J v = Some n"
  shows "parse_32 J v = (if n < 2 ^ 256 then Ret (be_bytes 32 n) else Panic)"
proof -
  have "length (to_bytes_be n) \<le> 32 \<longleftrightarrow> bit_len n \<le> 256" by (auto simp: length_to_bytes_be)
  also have "\<dots> \<longleftrightarrow> n < 2 ^ 256"
    using bit_len_le [of n 256] bit_len_bound [of n] power_increasing [of "bit_len n" 256 "2 :: nat"] by fastforce
  finally have "length (to_bytes_be n) \<le> 32 \<longleftrightarrow> n < 2 ^ 256" .
  with to_bytes_be_pad [of n 32] assms show ?thesis
    by (auto simp: parse_32_def json_number_def Let_def copy_slice_def bind_eq_Some_conv)
qed

lemma parse_32_Ret:
  assumes "parse_32 J v = Ret bs"
  obtains n where "json_number J v = Some n" "n < 2 ^ 256" "bs = be_bytes 32 n"
proof -
  from assms obtain n where n: "json_number J v = Some n"
    by (auto simp: parse_32_def json_number_def res_simps)
  with assms parse_32_number [OF n] that show thesis by (auto split: if_splits)
qed

section \<open>Reading the payload back\<close>

lemma get_padded_inside:
  assumes "start + len \<le> length data" "len \<le> isize_max"
  shows "get_padded_data data start len = Ret (take len (drop start data))"
  using assms by (cases "len = 0") (auto simp: get_padded_data_def vec_resize_def slice_of_def copy_slice_def min_def)

lemma parse_all_Ret:
  assumes "parse_all J vs = Ret bs"
  obtains ns where "list_all2 (\<lambda>v n. json_number J v = Some n \<and> n < 2 ^ 256) vs ns" "bs = concat (map (be_bytes 32) ns)"
  using assms
proof (induction vs arbitrary: bs thesis)
  case (Cons v vs)
  from Cons.prems(2) obtain b rest where b: "parse_32 J v = Ret b" "parse_all J vs = Ret rest" "bs = b @ rest" by auto
  from b(1) obtain n where n: "json_number J v = Some n" "n < 2 ^ 256" "b = be_bytes 32 n" by (rule parse_32_Ret)
  from Cons.IH [OF _ b(2)] obtain ns where
    "list_all2 (\<lambda>v n. json_number J v = Some n \<and> n < 2 ^ 256) vs ns" "rest = concat (map (be_bytes 32) ns)" by blast
  with b n show ?case by (intro Cons.prems(1) [of "n # ns"]) simp_all
qed simp

lemma from_be_bytes_nat: "n < 2 ^ 256 \<Longrightarrow> from_be_bytes (be_bytes 32 n) = of_nat n"
  by (simp add: from_be_bytes_def be_val_be_bytes)

lemma u256_at_word:
  assumes "length pre = k" "n < 2 ^ 256"
  shows "u256_at (pre @ be_bytes 32 n @ post) k = Ret (of_nat n)"
  using assms by (simp add: u256_at_def slice_of_def from_be_bytes_nat)

text \<open>What the precompile makes of a proof with these coordinates.\<close>

definition groth16_verdict ::
  "('t, 'r) ext \<Rightarrow> u256 \<Rightarrow> byte list \<Rightarrow> nat list \<Rightarrow> byte list list \<Rightarrow> exec_result" where
  "groth16_verdict X g vk ns inputs =
     (let w = (\<lambda>i. of_nat (ns ! i)) in
      case (g1_point X (w 0) (w 1), g2_point X (w 2) (w 3) (w 4) (w 5), g1_point X (w 6) (w 7)) of
        (Some a, Some b, Some c) \<Rightarrow>
          (case x_groth16_verify X vk a b c inputs of
             None \<Rightarrow> XErr 0 None
           | Some valid \<Rightarrow> XOk g (bool_word valid))
      | _ \<Rightarrow> XErr 0 None)"

lemma words_at:
  assumes "length ns = 8" "\<forall>n\<in>set ns. n < 2 ^ 256" "i < 8" "k = i * 32"
  shows "u256_at (concat (map (be_bytes 32) ns)) k = Ret (of_nat (ns ! i))"
proof -
  have "concat (map (be_bytes 32) ns) = concat (map (be_bytes 32) (take i ns)) @ be_bytes 32 (ns ! i) @
      concat (map (be_bytes 32) (drop (Suc i) ns))"
    using assms(1,3) id_take_nth_drop [of i ns] by (metis concat_append concat.simps(2) list.simps(9) map_append)
  moreover have "length (concat (map (be_bytes 32) (take i ns))) = k"
    using assms(1,3,4) by (simp add: length_concat o_def sum_list_triv)
  ultimately show ?thesis using u256_at_word [of _ k "ns ! i"] assms by simp
qed

lemma groth16_reads_words:
  assumes "length ns = 8" "\<forall>n\<in>set ns. n < 2 ^ 256" "\<forall>i\<in>set inputs. length i = 32" "length inputs = 3"
    and "length vk + 1000 \<le> isize_max" "147000 \<le> g"
    and "data = be_bytes 32 (length vk) @ vk @ concat (map (be_bytes 32) ns) @ concat inputs"
  shows "my_groth16 X g data = Ret (groth16_verdict X (g - 147000) vk ns inputs)"
proof -
  let ?proof = "concat (map (be_bytes 32) ns)"
  obtain i0 i1 i2 where inputs: "inputs = [i0, i1, i2]"
    using assms(4) by (auto simp: length_Suc_conv numeral_3_eq_3)
  with assms(3) have li: "length i0 = 32" "length i1 = 32" "length i2 = 32" by simp_all
  have lp: "length ?proof = 256" using assms(1) by (simp add: length_concat o_def sum_list_triv)
  have ld: "length data = length vk + 384" by (simp add: assms(7) inputs li lp)
  have vk: "length vk < 2 ^ 256" "length vk \<le> usize_max" "length vk \<le> isize_max" "96 \<le> isize_max"
    using assms(5) by (simp_all add: isize_max_def usize_max_def)
  have key_len: "get_padded_data data 0 32 = Ret (be_bytes 32 (length vk))"
    by (subst get_padded_inside) (simp_all add: ld vk isize_max_def assms(7))
  have key: "get_padded_data data 32 (length vk) = Ret vk"
    by (subst get_padded_inside) (simp_all add: ld vk assms(7))
  have input_data: "get_padded_data data (288 + length vk) 96 = Ret (concat inputs)"
    by (subst get_padded_inside) (simp_all add: ld isize_max_def assms(7) lp inputs li)
  have zk: "get_padded_data data (32 + length vk) 256 = Ret ?proof"
    by (subst get_padded_inside) (simp_all add: ld isize_max_def assms(7) lp)
  have pub: "get_padded_data data (288 + length vk) 32 = Ret i0" "get_padded_data data (320 + length vk) 32 = Ret i1"
    "get_padded_data data (352 + length vk) 32 = Ret i2"
    by (subst get_padded_inside; simp add: ld isize_max_def assms(7) lp inputs li)+
  have publics: "public_inputs data (288 + length vk) [0..<3] = Ret inputs"
    using pub by (simp add: upt_rec inputs add.commute add.left_commute)
  have len: "unat (from_be_bytes (be_bytes 32 (length vk)) :: u256) = length vk"
    using vk(1) by (simp add: from_be_bytes_nat unat_of_nat)
  have cost: "sat_add (sat_mul 34000 3) 45000 = (147000 :: u256)" by (simp add: sat_add_def sat_mul_def)
  note word = words_at [OF assms(1,2)]
  have words: "u256_at ?proof 0 = Ret (of_nat (ns ! 0))" "u256_at ?proof 32 = Ret (of_nat (ns ! 1))"
    "u256_at ?proof 64 = Ret (of_nat (ns ! 2))" "u256_at ?proof 96 = Ret (of_nat (ns ! 3))"
    "u256_at ?proof 128 = Ret (of_nat (ns ! 4))" "u256_at ?proof 160 = Ret (of_nat (ns ! 5))"
    "u256_at ?proof 192 = Ret (of_nat (ns ! 6))" "u256_at ?proof 224 = Ret (of_nat (ns ! 7))"
    by (rule word; simp)+
  have split: "data \<noteq> []" "\<not> usize_max < length vk" "\<not> length data < length vk" "length (concat inputs) = 96"
    "length data - (288 + length vk) = 96" "\<not> g < 147000"
    using vk ld assms(6) by (auto simp: inputs li)
  have offsets: "32 + length vk + 256 = 288 + length vk" by simp
  show ?thesis
    unfolding my_groth16_def if_not_P [OF split(1)] key_len bindR.simps Let_def len if_not_P [OF split(2)]
      if_not_P [OF split(3)] key offsets split(5) input_data split(4) zk words
    by (simp add: cost take_gas_def split(6) publics groth16_verdict_def Let_def split: option.split)
qed

section \<open>Properties\<close>

text \<open>
  C22.  A vote reaches the verifier unchanged: a payload that loads holds the eight coordinates of the proof
  file, all below \<open>2 ^ 256\<close>, and the first two public values; put behind a verifying key and before the
  public inputs, as the precompile expects them, its bytes are decoded by the Groth16 precompile to exactly
  these numbers, with real and imaginary parts in their places, and the verdict is the verifier's.  A
  number of \<open>2 ^ 256\<close> or more makes the client panic.
\<close>

theorem vote_reaches_verifier:
  assumes "load_from_snarkjs J (Some ps) (Some us) = Ret vote" "j_parse J ps = Some p" "j_parse J us = Some u"
    and "length vk + 1000 \<le> isize_max" "147000 \<le> g"
  shows "\<exists>ns c h. list_all2 (\<lambda>v n. json_number J v = Some n \<and> n < 2 ^ 256) (proof_coordinates J p) ns \<and>
    json_number J (j_index J u 0) = Some c \<and> unat (zp_commitment vote) = c \<and>
    json_number J (j_index J u 1) = Some h \<and> unat (zp_nullifier_hash vote) = h \<and>
    my_groth16 X g (be_bytes 32 (length vk) @ vk @ zp_proof_bytes vote @ to_be_bytes (zp_commitment vote) @
        to_be_bytes (zp_nullifier_hash vote) @ to_be_bytes (zp_vote_choice vote)) =
      Ret (groth16_verdict X (g - 147000) vk ns
        [to_be_bytes (zp_commitment vote), to_be_bytes (zp_nullifier_hash vote), to_be_bytes (zp_vote_choice vote)])"
proof -
  from assms(1-3) obtain bs b0 b1 where bs: "parse_all J (proof_coordinates J p) = Ret bs" "zp_proof_bytes vote = bs"
    and b0: "parse_32 J (j_index J u 0) = Ret b0" "zp_commitment vote = from_be_bytes b0"
    and b1: "parse_32 J (j_index J u 1) = Ret b1" "zp_nullifier_hash vote = from_be_bytes b1"
    by (auto simp: load_from_snarkjs_def res_simps)
  from bs(1) obtain ns where ns: "list_all2 (\<lambda>v n. json_number J v = Some n \<and> n < 2 ^ 256) (proof_coordinates J p) ns"
    "bs = concat (map (be_bytes 32) ns)" by (rule parse_all_Ret)
  from b0(1) obtain c where c: "json_number J (j_index J u 0) = Some c" "c < 2 ^ 256" "b0 = be_bytes 32 c"
    by (rule parse_32_Ret)
  from b1(1) obtain h where h: "json_number J (j_index J u 1) = Some h" "h < 2 ^ 256" "b1 = be_bytes 32 h"
    by (rule parse_32_Ret)
  have len: "length ns = 8" using list_all2_lengthD [OF ns(1)] by (simp add: proof_coordinates_def)
  have "\<forall>n\<in>set ns. n < 2 ^ 256" using ns(1) by (auto simp: list_all2_conv_all_nth in_set_conv_nth)
  from groth16_reads_words [OF len this _ _ assms(4,5) refl, where X = X
      and inputs = "[to_be_bytes (zp_commitment vote), to_be_bytes (zp_nullifier_hash vote), to_be_bytes (zp_vote_choice vote)]"]
  have "my_groth16 X g (be_bytes 32 (length vk) @ vk @ zp_proof_bytes vote @ to_be_bytes (zp_commitment vote) @
        to_be_bytes (zp_nullifier_hash vote) @ to_be_bytes (zp_vote_choice vote)) =
      Ret (groth16_verdict X (g - 147000) vk ns
        [to_be_bytes (zp_commitment vote), to_be_bytes (zp_nullifier_hash vote), to_be_bytes (zp_vote_choice vote)])"
    by (simp add: bs(2) ns(2))
  moreover have "unat (zp_commitment vote) = c" "unat (zp_nullifier_hash vote) = h"
    using b0(2) b1(2) c h by (simp_all add: from_be_bytes_nat unat_of_nat)
  ultimately show ?thesis using ns(1) c(1) h(1) by blast
qed

text \<open>A toy JSON: every value is the number 5 (as the string \<open>''5''\<close>).\<close>

definition sample_json :: "unit json_ext" where
  "sample_json = \<lparr>j_parse = (\<lambda>_. Some ()), j_key = (\<lambda>v _. v), j_index = (\<lambda>v _. v), j_str = (\<lambda>_. Some ''5''),
     j_biguint = (\<lambda>_. Some 5), j_u256 = (\<lambda>_. Some 5)\<rparr>"

lemma sample_number: "json_number sample_json v = Some 5"
  by (simp add: json_number_def sample_json_def)

lemma sample_payload:
  "load_from_snarkjs sample_json (Some []) (Some []) = Ret \<lparr>zp_proof_bytes = concat (map (be_bytes 32) [5, 5, 5, 5, 5, 5, 5, 5]),
     zp_commitment = 5, zp_nullifier_hash = 5, zp_vote_choice = 5\<rparr>"
proof -
  have p: "parse_32 sample_json () = Ret (be_bytes 32 5)" using parse_32_number [OF sample_number] by simp
  have "from_be_bytes (be_bytes 32 5) = 5" by (simp add: from_be_bytes_nat)
  with p show ?thesis by (simp add: load_from_snarkjs_def proof_coordinates_def p) (simp add: sample_json_def)
qed

theorem vote_reaches_verifier_witness:
  "\<exists>ns. my_groth16 sample_ext 150000 (be_bytes 32 (length [1 :: byte, 2]) @ [1, 2] @ concat (map (be_bytes 32) [5, 5, 5, 5, 5, 5, 5, 5]) @ to_be_bytes 5 @
      to_be_bytes 5 @ to_be_bytes 5) =
    Ret (groth16_verdict sample_ext 3000 [1, 2] ns [to_be_bytes 5, to_be_bytes 5, to_be_bytes 5])"
  using vote_reaches_verifier [OF sample_payload, of "()" "()" "[1, 2]" 150000 sample_ext]
  by (auto simp: sample_json_def isize_max_def)

end
