(* ===== verification/Vk_Builder.thy ===== *)
theory Vk_Builder
  imports Memory Fuel_Mono
begin

text \<open>
  The builder of the verifying-key contract (\<open>src/src/vk_builder.rs\<close>, and the same code as a program in
  \<open>src/src/bin/vk_builder.rs\<close>): the constructor it puts in front of the key, and the run of this
  constructor on the modelled interpreter.  The reader of the \<open>zkey\<close> file and the serialisation of the
  key are parameters.
\<close>

section \<open>The builder\<close>

text \<open>\<open>PUSH2 L; PUSH1 14; PUSH1 0; CODECOPY; PUSH2 L; PUSH1 0; RETURN\<close> and the key, \<open>L\<close> a \<open>u16\<close>.\<close>

definition vk_init_code :: "byte list \<Rightarrow> byte list" where
  "vk_init_code vk_bytes =
     (let l = of_nat (length vk_bytes) :: 16 word;
          l_high = ucast (drop_bit 8 l);
          l_low = ucast (l AND 0xff) in
      [0x61, l_high, l_low, 0x60, 0x0E, 0x60, 0x00, 0x39, 0x61, l_high, l_low, 0x60, 0x00, 0xf3] @ vk_bytes)"

text \<open>
  Contents of the file written, from the contents of the \<open>zkey\<close> file; every error, of the last write too,
  is an \<open>expect\<close>.
\<close>

definition build_vk_contract ::
  "(byte list \<Rightarrow> 'vk option) \<Rightarrow> ('vk \<Rightarrow> byte list option) \<Rightarrow> byte list option \<Rightarrow> bool \<Rightarrow> byte list res" where
  "build_vk_contract read_zkey serialize_uncompressed zkey_file writable =
     bindR (unwrap zkey_file) (\<lambda>contents.
     bindR (unwrap (read_zkey contents)) (\<lambda>vk.
     bindR (unwrap (serialize_uncompressed vk)) (\<lambda>vk_bytes.
     let init_code = vk_init_code vk_bytes in if writable then Ret init_code else Panic)))"

section \<open>One instruction\<close>

lemma run_machine_op:
  assumes "opcode = current_opcode (i_byte env) (e_pc evm)" "is_machine_op opcode"
    and "opcode \<noteq> 0x56" "opcode \<noteq> 0x57" "opcode \<noteq> 0x3e" "\<not> fork_disabled (e_version evm) opcode"
    and "fst (SAFE_TABLE opcode) \<noteq> 255" "fst (SAFE_TABLE opcode) \<le> length (e_stack evm)"
    and "length (e_stack evm) + snd (SAFE_TABLE opcode) - fst (SAFE_TABLE opcode) \<le> 1024"
    and "gas X opcode ss env evm ws = Ret (c, evm, ws)" "c \<le> e_gas evm"
    and "charged opcode c evm = Ret evm1" "machine_op X opcode env evm1 = Ret evm2"
  shows "evm_run X (Suc n) env evm lv ws ss = evm_run X n env evm2 lv ws ss"
proof -
  have static: "is_safe_static opcode env evm = Ret True" "opcode \<noteq> 0x55" "opcode \<noteq> 0"
    using assms(2) by (auto simp: is_safe_static_def is_machine_op_def)
  have safe: "is_safe X opcode ss env evm ws = Ret (True, evm, ws)"
    using assms static by (simp add: is_safe_def Let_def not_less is_safe_jump_def is_safe_returndata_def)
  have "execution X (evm_run X n) opcode env evm lv ws ss = Ret (None, evm2, lv, ws, ss)"
    using assms static(3) by (simp add: execution_def charged_def sat_sub_def not_less dispatch_def flip: not_less)
  with safe assms(1,10) show ?thesis by (simp add: evm_iter_def)
qed

lemma run_push:
  assumes "opcode = current_opcode (i_byte env) (e_pc evm)" "0x60 \<le> opcode" "opcode \<le> 0x7f"
    and "3 \<le> e_gas evm" "length (e_stack evm) < 1024" "p = e_pc evm + 1 + (opcode - 0x5f)"
    and "w = from_be_bytes (padded (i_byte env) (e_pc evm + 1) (opcode - 0x5f))"
  shows "evm_run X (Suc n) env evm lv ws ss =
    evm_run X n env (evm\<lparr>e_gas := e_gas evm - 3, e_pc := p, e_stack := w # e_stack evm\<rparr>) lv ws ss"
proof -
  define evm1 where "evm1 = evm\<lparr>e_gas := e_gas evm - 3, e_pc := e_pc evm + 1 + (opcode - 0x5f)\<rparr>"
  have pc: "e_pc evm + opcode - 0x5e = e_pc evm + 1 + (opcode - 0x5f)" using assms(2) by simp
  have op: "is_machine_op opcode" "opcode \<noteq> 0x56" "opcode \<noteq> 0x57" "opcode \<noteq> 0x3e"
    "\<not> fork_disabled (e_version evm) opcode" "SAFE_TABLE opcode = (0, 1)" "GAS_TABLE opcode = 3"
    using assms(2,3) by (simp_all add: is_machine_op_def fork_disabled_def SAFE_TABLE_def GAS_TABLE_def)
  have ch: "charged opcode 3 evm = Ret evm1"
    using assms(2,3) by (simp add: charged_def advance_pc_def evm1_def pc)
  then have adv: "advance_pc opcode (evm\<lparr>e_gas := e_gas evm - 3\<rparr>) = Ret evm1"
    by (simp add: charged_def)
  have "machine_op X opcode env evm1 = push_opcode opcode env evm1"
    using assms(2,3) by (simp add: machine_op_def)
  with push_opcode_pushes [OF assms(2,3) adv, of env]
  have m: "machine_op X opcode env evm1 =
      Ret (push (from_be_bytes (padded (i_byte env) (e_pc evm + 1) (opcode - 0x5f))) evm1)" by simp
  have "gas X opcode ss env evm ws = Ret (3, evm, ws)" using op(7) by (simp add: gas_def)
  from run_machine_op [OF assms(1) op(1-5) _ _ _ this assms(4) ch m] op(6) assms(2,3,5-7) show ?thesis
    by (simp add: push_def evm1_def)
qed

section \<open>Copy and return\<close>

lemma codecopy_fresh:
  assumes "e_memory evm = []" "e_stack evm = 0 # off # sz # s" "unat sz < 65536" "length (i_byte env) \<le> isize_max"
  shows "codecopy_opcode env evm = Ret (evm\<lparr>e_stack := s,
    e_memory := padded (i_byte env) (unat off) (unat sz) @ replicate (rounded (unat sz) - unat sz) 0,
    e_active_words := rounded (unat sz) div 32\<rparr>)"
proof (cases "sz = 0")
  case True
  with assms(1,2) show ?thesis
    by (simp add: codecopy_opcode_def pop_def copy_data_def update_active_words_def rounded_def padded_def)
next
  case False
  let ?n = "unat sz"
  have u: "to_usize sz = ?n" "usize_sat_add 0 ?n = ?n" "?n \<le> isize_max" "rounded ?n \<le> isize_max" "?n \<le> rounded ?n"
    using assms(3) rounded_le [of ?n] rounded_ge [of ?n]
    by (simp_all add: to_usize_def usize_sat_add_def usize_max_def isize_max_def)
  have n: "0 < ?n" using False by (simp add: unat_gt_0)
  let ?evm = "evm\<lparr>e_stack := s\<rparr>"
  have "grow_memory ?n ?evm = Ret (?evm\<lparr>e_memory := replicate (rounded ?n) 0\<rparr>)"
    using grow_memory_Ret [OF u(4), of ?evm] assms(1) n by simp
  moreover have "store_memory 0 ?n (padded (i_byte env) (unat off) ?n) (?evm\<lparr>e_memory := replicate (rounded ?n) 0\<rparr>) =
      Ret (?evm\<lparr>e_memory := padded (i_byte env) (unat off) ?n @ replicate (rounded ?n - ?n) 0\<rparr>)"
    using u(5) by (simp add: store_memory_def copy_slice_def)
  ultimately show ?thesis
    using assms n u False
    by (simp add: codecopy_opcode_def pop_def copy_data_def padded_slice_spec padded_to_usize
        update_active_words_def Let_def)
qed

lemma return_memory:
  assumes "e_stack evm = 0 # sz # s" "unat sz < 65536" "e_memory evm = bs @ rest" "length bs = unat sz"
  shows "\<exists>evm'. return_opcode evm = Ret evm' \<and> e_return_back evm' = bs \<and> e_gas evm' = e_gas evm"
proof -
  have u: "to_usize sz = unat sz" "usize_sat_add 0 (unat sz) = unat sz"
    using assms(2) by (simp_all add: to_usize_def usize_sat_add_def usize_max_def)
  have "read_memory 0 (unat sz) (evm\<lparr>e_stack := s\<rparr>) = Ret (bs, evm\<lparr>e_stack := s\<rparr>)"
    using assms(3,4) u by (auto simp: read_memory_def Let_def grow_memory_def slice_of_def)
  with assms(1) u show ?thesis by (simp add: return_opcode_def pop_def)
qed

text \<open>The memory cost of the copied bytes; the return finds the memory grown.\<close>

definition copy_cost :: "nat \<Rightarrow> nat" where
  "copy_cost words = 3 * words + words * words div 512 + 3 * words + 3"

lemma size_words_small:
  assumes "unat sz < 65536"
  shows "unat (size_words sz) = (unat sz + 31) div 32" "unat (size_words sz) \<le> 2048"
  using assms by (simp_all add: size_words_def unat_div nat_word)

lemma gas_codecopy_fresh:
  assumes "e_active_words evm = 0" "e_stack evm = 0 # off # sz # s" "unat sz < 65536"
  shows "gas X 0x39 ss env evm ws = Ret (of_nat (copy_cost ((unat sz + 31) div 32)), evm, ws)"
proof -
  define w where "w = (unat sz + 31) div 32"
  have w: "w \<le> 2048" using assms(3) by (simp add: w_def)
  then have w2: "w * w \<le> 2048 * 2048" by (intro mult_le_mono)
  have ext: "unat (extension_cost evm 0 sz) = 3 * w + w * w div 512"
  proof (cases "sz = 0")
    case True
    then show ?thesis by (simp add: extension_cost_def w_def)
  next
    case False
    then have "0 < unat sz" by (simp add: unat_gt_0)
    then have "0 < w" by (simp add: w_def)
    have req: "unat (sat_add (sat_add 0 sz) 31 div 32) = w"
      using assms(3) by (simp add: unat_div nat_word w_def)
    with \<open>0 < w\<close> have "(0 :: u256) < sat_add (sat_add 0 sz) 31 div 32" by (simp add: word_less_nat_alt)
    with False assms(1) w w2 req show ?thesis
      by (simp add: extension_cost_def Let_def nat_word unat_div flip: w_def)
  qed
  have "gas X 0x39 ss env evm ws =
      Ret (sat_add (sat_add (extension_cost evm 0 sz) (sat_mul (size_words sz) 3)) 3, evm, ws)"
    using assms(2) by (simp add: gas_def GAS_TABLE_def gas_simple_def gas_copy_def peek_def)
  moreover have "unat (sat_add (sat_add (extension_cost evm 0 sz) (sat_mul (size_words sz) 3)) 3) = copy_cost w"
    using w w2 ext size_words_small [OF assms(3)] by (simp add: nat_word copy_cost_def flip: w_def)
  then have "sat_add (sat_add (extension_cost evm 0 sz) (sat_mul (size_words sz) 3)) 3 = of_nat (copy_cost w)"
    by (metis of_nat_unat ucast_id)
  ultimately show ?thesis by (simp add: w_def)
qed

lemma gas_return_grown:
  assumes "e_active_words evm = rounded (unat sz) div 32" "e_stack evm = 0 # sz # s" "unat sz < 65536"
  shows "gas X 0xf3 ss env evm ws = Ret (0, evm, ws)"
proof -
  have "unat (sat_add (sat_add 0 sz) 31 div 32) = (unat sz + 31) div 32"
    using assms(3) by (simp add: unat_div nat_word)
  moreover have "unat (of_nat (e_active_words evm) :: u256) = (unat sz + 31) div 32"
    using assms(1,3) by (simp add: rounded_def unat_of_nat)
  ultimately have "\<not> of_nat (e_active_words evm) < sat_add (sat_add 0 sz) 31 div 32"
    by (simp add: word_less_nat_alt)
  then have "extension_cost evm 0 sz = 0" by (simp add: extension_cost_def Let_def)
  with assms(2) show ?thesis by (simp add: gas_def GAS_TABLE_def gas_simple_def gas_return_def peek_def)
qed

lemma run_return:
  assumes "current_opcode (i_byte env) (e_pc evm) = 0xf3" "2 \<le> length (e_stack evm)" "length (e_stack evm) \<le> 1026"
    and "gas X 0xf3 ss env evm ws = Ret (0, evm, ws)" "return_opcode (evm\<lparr>e_pc := e_pc evm + 1\<rparr>) = Ret evm'"
  shows "evm_run X (Suc n) env evm lv ws ss = Ret (ROk (e_return_back evm'), evm', lv, ws, ss)"
  using assms(1,2,4,5) assms(3) [THEN diff_le_mono, of 2]
  by (simp add: not_less evm_iter_def is_safe_def is_safe_jump_def is_safe_returndata_def is_safe_static_def execution_def
      advance_pc_def dispatch_def is_machine_op_def sat_sub_def fork_disabled_def SAFE_TABLE_def)

section \<open>The constructor\<close>

lemma length_bytes_value:
  "from_be_bytes [ucast (drop_bit 8 l) :: byte, ucast (l AND 0xff)] = of_nat (unat (l :: 16 word))"
proof -
  have "unat l < 65536" using unsigned_less [of l, where 'a = nat] by simp
  then have "unat (ucast (drop_bit 8 l) :: byte) = unat l div 256"
    by (simp add: unsigned_ucast_eq take_bit_eq_mod drop_bit_eq_div unat_div)
  moreover have "unat (ucast (l AND 0xff) :: byte) = unat l mod 256"
  proof -
    have "l AND 0xff = take_bit 8 l" by (simp add: take_bit_eq_mask mask_numeral)
    then have "unat (l AND 0xff) = unat l mod 256" by (simp add: unsigned_take_bit_eq take_bit_eq_mod unat_mod)
    then show ?thesis by (simp add: unsigned_ucast_eq take_bit_eq_mod)
  qed
  ultimately show ?thesis by (simp add: from_be_bytes_def be_val_def)
qed

lemma vk_init_code_parts:
  fixes vk :: "byte list"
  defines "l \<equiv> of_nat (length vk) :: 16 word"
  shows "length (vk_init_code vk) = 14 + length vk" "drop 14 (vk_init_code vk) = vk"
    "padded (vk_init_code vk) 1 2 = [ucast (drop_bit 8 l), ucast (l AND 0xff)]"
    "padded (vk_init_code vk) 4 1 = [14]" "padded (vk_init_code vk) 6 1 = [0]"
    "padded (vk_init_code vk) 9 2 = [ucast (drop_bit 8 l), ucast (l AND 0xff)]"
    "padded (vk_init_code vk) 12 1 = [0]"
    "current_opcode (vk_init_code vk) 0 = 0x61" "current_opcode (vk_init_code vk) 3 = 0x60"
    "current_opcode (vk_init_code vk) 5 = 0x60" "current_opcode (vk_init_code vk) 7 = 0x39"
    "current_opcode (vk_init_code vk) 8 = 0x61" "current_opcode (vk_init_code vk) 11 = 0x60"
    "current_opcode (vk_init_code vk) 13 = 0xf3"
  by (simp_all add: vk_init_code_def Let_def padded_def upt_rec current_opcode_def l_def)

lemma sub_gas: "unat c \<le> unat a \<Longrightarrow> c \<le> a \<and> unat (a - c) = unat a - unat c" for a c :: u256
  by (simp add: word_le_nat_alt unat_sub_le)

lemma copy_cost_le:
  assumes "words \<le> 2048"
  shows "copy_cost words \<le> 20483"
proof -
  have "words * words \<le> 2048 * 2048" using assms by (intro mult_le_mono)
  with assms show ?thesis by (simp add: copy_cost_def)
qed

text \<open>The run in three parts: the arguments of the copy, the copy, the return; \<open>m\<close> is the 16-bit length.\<close>

abbreviation short_length :: "byte list \<Rightarrow> nat" where
  "short_length vk \<equiv> length vk mod 65536"

lemma length_bytes_of_key:
  "from_be_bytes [ucast (drop_bit 8 (of_nat (length vk) :: 16 word)), ucast ((of_nat (length vk) :: 16 word) AND 0xff)] =
     of_nat (short_length vk)"
  using length_bytes_value [of "of_nat (length vk)"] by (simp add: unat_of_nat)

lemma constructor_pushes:
  assumes code: "i_byte env = vk_init_code vk" and "e_pc evm = 0" "e_stack evm = []" "9 \<le> unat (e_gas evm)"
  shows "evm_run X (Suc (Suc (Suc k))) env evm lv ws ss =
    evm_run X k env (evm\<lparr>e_gas := e_gas evm - 9, e_pc := 7, e_stack := [0, 14, of_nat (short_length vk)]\<rparr>) lv ws ss"
proof -
  note parts = vk_init_code_parts [of vk, unfolded One_nat_def] length_bytes_of_key [of vk]
  let ?g = "e_gas evm" and ?sz = "of_nat (short_length vk) :: u256"
  have g: "3 \<le> ?g" "3 \<le> ?g - 3" "3 \<le> ?g - 6"
    using sub_gas [of 3 ?g] sub_gas [of 6 ?g] assms(4) by (simp_all add: word_le_nat_alt)
  let ?e1 = "evm\<lparr>e_gas := ?g - 3, e_pc := 3, e_stack := [?sz]\<rparr>"
  let ?e2 = "evm\<lparr>e_gas := ?g - 6, e_pc := 5, e_stack := [14, ?sz]\<rparr>"
  have "evm_run X (Suc (Suc (Suc k))) env evm lv ws ss = evm_run X (Suc (Suc k)) env ?e1 lv ws ss"
    using run_push [of "0x61" env evm 3 ?sz X _ lv ws ss] g(1) by (simp add: code parts assms(2,3) del: evm_run.simps)
  also have "\<dots> = evm_run X (Suc k) env ?e2 lv ws ss"
    using run_push [of "0x60" env ?e1 5 14 X _ lv ws ss] g(2)
    by (simp add: code parts from_be_bytes_def be_val_def diff_diff_eq del: evm_run.simps)
  also have "\<dots> = evm_run X k env (evm\<lparr>e_gas := ?g - 9, e_pc := 7, e_stack := [0, 14, ?sz]\<rparr>) lv ws ss"
    using run_push [of "0x60" env ?e2 7 0 X _ lv ws ss] g(3)
    by (simp add: code parts from_be_bytes_def be_val_def diff_diff_eq del: evm_run.simps)
  finally show ?thesis .
qed

lemma constructor_copy:
  fixes vk :: "byte list"
  defines "m \<equiv> short_length vk"
  defines "c \<equiv> of_nat (copy_cost ((m + 31) div 32)) :: u256"
  assumes code: "i_byte env = vk_init_code vk" and "length vk + 14 \<le> isize_max"
    and "e_pc evm = 7" "e_stack evm = [0, 14, of_nat m]" "e_memory evm = []" "e_active_words evm = 0" "c \<le> e_gas evm"
  shows "evm_run X (Suc k) env evm lv ws ss =
    evm_run X k env (evm\<lparr>e_gas := e_gas evm - c, e_pc := 8, e_stack := [],
      e_memory := take m vk @ replicate (rounded m - m) 0, e_active_words := rounded m div 32\<rparr>) lv ws ss"
proof (rule run_machine_op)
  note parts = vk_init_code_parts [of vk]
  let ?sz = "of_nat m :: u256" and ?e = "evm\<lparr>e_gas := e_gas evm - c, e_pc := 8\<rparr>"
  have m: "m < 65536" "unat ?sz = m" by (simp_all add: m_def unat_of_nat)
  have pad: "padded (vk_init_code vk) 14 m = take m vk" by (simp add: padded_alt parts m_def)
  show "gas X 0x39 ss env evm ws = Ret (c, evm, ws)"
    using gas_codecopy_fresh [of evm 14 ?sz "[]"] m assms(6,8) by (simp add: c_def)
  show "charged 0x39 c evm = Ret ?e" using assms(5) by (simp add: charged_def advance_pc_def)
  show "machine_op X 0x39 env ?e = Ret (evm\<lparr>e_gas := e_gas evm - c, e_pc := 8, e_stack := [],
      e_memory := take m vk @ replicate (rounded m - m) 0, e_active_words := rounded m div 32\<rparr>)"
    using codecopy_fresh [of ?e 14 ?sz "[]" env] m assms(4,6,7) by (simp add: machine_op_def code parts pad)
qed (use assms(5,6,9) in \<open>simp_all add: code vk_init_code_parts is_machine_op_def fork_disabled_def SAFE_TABLE_machine\<close>)

lemma constructor_return:
  fixes vk :: "byte list"
  defines "m \<equiv> short_length vk"
  assumes code: "i_byte env = vk_init_code vk" and "e_pc evm = 8" "e_stack evm = []"
    and "e_memory evm = take m vk @ rest" "e_active_words evm = rounded m div 32" "6 \<le> unat (e_gas evm)"
  shows "\<exists>evm'. evm_run X (Suc (Suc (Suc k))) env evm lv ws ss = Ret (ROk (take m vk), evm', lv, ws, ss) \<and>
    e_gas evm' = e_gas evm - 6"
proof -
  note parts = vk_init_code_parts [of vk, unfolded One_nat_def] length_bytes_of_key [of vk, folded m_def]
  let ?g = "e_gas evm" and ?sz = "of_nat m :: u256"
  have m: "m < 65536" "unat ?sz = m" "length (take m vk) = m" by (simp_all add: m_def unat_of_nat)
  have g: "3 \<le> ?g" "3 \<le> ?g - 3" using sub_gas [of 3 ?g] assms(7) by (simp_all add: word_le_nat_alt)
  let ?e1 = "evm\<lparr>e_gas := ?g - 3, e_pc := 11, e_stack := [?sz]\<rparr>"
  let ?e2 = "evm\<lparr>e_gas := ?g - 6, e_pc := 13, e_stack := [0, ?sz]\<rparr>"
  have "evm_run X (Suc (Suc (Suc k))) env evm lv ws ss = evm_run X (Suc (Suc k)) env ?e1 lv ws ss"
    using run_push [of "0x61" env evm 11 ?sz X _ lv ws ss] g(1) by (simp add: code parts assms(3,4) del: evm_run.simps)
  also have "\<dots> = evm_run X (Suc k) env ?e2 lv ws ss"
    using run_push [of "0x60" env ?e1 13 0 X _ lv ws ss] g(2)
    by (simp add: code parts from_be_bytes_def be_val_def diff_diff_eq del: evm_run.simps)
  finally have run: "evm_run X (Suc (Suc (Suc k))) env evm lv ws ss = evm_run X (Suc k) env ?e2 lv ws ss" .
  have gas: "gas X 0xf3 ss env ?e2 ws = Ret (0, ?e2, ws)"
    using m assms(6) by (intro gas_return_grown [of ?e2 ?sz "[]"]) simp_all
  obtain evm' where "return_opcode (?e2\<lparr>e_pc := e_pc ?e2 + 1\<rparr>) = Ret evm'" "e_return_back evm' = take m vk"
    "e_gas evm' = ?g - 6"
    using return_memory [of "?e2\<lparr>e_pc := e_pc ?e2 + 1\<rparr>" ?sz "[]" "take m vk" rest] m assms(5) by auto
  with run run_return [OF _ _ _ gas this(1)] show ?thesis by (simp add: code parts del: evm_run.simps)
qed

lemma constructor_run:
  fixes vk :: "byte list" and g :: u256
  defines "m \<equiv> short_length vk"
  assumes code: "i_byte env = vk_init_code vk" and g: "20498 \<le> unat g" and len: "length vk + 14 \<le> isize_max"
  shows "\<exists>evm'. evm_run X (Suc (Suc (Suc (Suc (Suc (Suc (Suc n))))))) env ((evm_new env v)\<lparr>e_gas := g\<rparr>) lv ws ss =
      Ret (ROk (take m vk), evm', lv, ws, ss) \<and>
    unat g = unat (e_gas evm') + 15 + copy_cost ((m + 31) div 32)"
proof -
  let ?e0 = "(evm_new env v)\<lparr>e_gas := g\<rparr>"
  have e0: "e_stack ?e0 = []" "e_pc ?e0 = 0" "e_gas ?e0 = g" "e_memory ?e0 = []" "e_active_words ?e0 = 0"
    by (simp_all add: evm_new_def Let_def)
  define c :: u256 where "c = of_nat (copy_cost ((m + 31) div 32))"
  have cost: "copy_cost ((m + 31) div 32) \<le> 20483" by (rule copy_cost_le) (simp add: m_def)
  then have c: "unat c = copy_cost ((m + 31) div 32)" by (simp add: c_def unat_of_nat)
  have u1: "unat (g - 9) = unat g - 9" using sub_gas [of 9 g] g by simp
  have u2: "c \<le> g - 9" "unat (g - 9 - c) = unat g - 9 - unat c" using sub_gas [of c "g - 9"] u1 g c cost by simp_all
  have u3: "unat (g - 9 - c - 6) = unat g - 15 - unat c" "6 \<le> unat (g - 9 - c)"
    using sub_gas [of 6 "g - 9 - c"] u2 g c cost by simp_all
  let ?e3 = "?e0\<lparr>e_gas := g - 9, e_pc := 7, e_stack := [0, 14, of_nat m]\<rparr>"
  let ?e4 = "?e3\<lparr>e_gas := g - 9 - c, e_pc := 8, e_stack := [], e_memory := take m vk @ replicate (rounded m - m) 0,
    e_active_words := rounded m div 32\<rparr>"
  have "evm_run X (Suc (Suc (Suc (Suc (Suc (Suc (Suc n))))))) env ?e0 lv ws ss =
      evm_run X (Suc (Suc (Suc (Suc n)))) env ?e3 lv ws ss"
    using constructor_pushes [OF code e0(2,1)] e0(3) g by (simp add: m_def del: evm_run.simps)
  also have "\<dots> = evm_run X (Suc (Suc (Suc n))) env ?e4 lv ws ss"
    using constructor_copy [OF code len, of ?e3] e0 u2(1) by (simp add: c_def m_def del: evm_run.simps)
  finally show ?thesis
    using constructor_return [OF code, of ?e4 "replicate (rounded m - m) 0" X n lv ws ss] u3 c cost g
    by (auto simp: m_def simp del: evm_run.simps)
qed

section \<open>Properties\<close>

text \<open>
  C21.  The contract the builder writes deploys the key: in every environment and version, with at least
  20498 gas, the constructor returns the serialised key as code to deposit, changes neither world state
  nor journal nor substate, and uses 15 gas and the cost of the copy.  The length is kept in 16 bits:
  of a key of 65536 bytes or more only the first \<open>length mod 65536\<close> bytes are deployed.
\<close>

theorem vk_contract_deploys:
  assumes "build_vk_contract read_zkey serialize zkey writable = Ret code" "zkey = Some contents"
    and "read_zkey contents = Some key" "serialize key = Some vk" "i_byte env = code"
    and "20498 \<le> unat g" "length vk + 14 \<le> isize_max"
  shows "\<exists>evm'. evm_run X (n + 7) env ((evm_new env v)\<lparr>e_gas := g\<rparr>) lv ws ss =
      Ret (ROk (take (length vk mod 65536) vk), evm', lv, ws, ss) \<and>
    unat g = unat (e_gas evm') + 15 + copy_cost ((length vk mod 65536 + 31) div 32)"
proof -
  have "i_byte env = vk_init_code vk" using assms(1-5) by (simp add: build_vk_contract_def split: if_splits)
  moreover have "n + 7 = Suc (Suc (Suc (Suc (Suc (Suc (Suc n))))))" by simp
  ultimately show ?thesis
    using constructor_run [OF _ assms(6,7), of env X n v lv ws ss] by metis
qed

theorem vk_contract_deploys_witness:
  "\<exists>evm'. evm_run sample_ext (0 + 7) (sample_env (vk_init_code [1, 2, 3]))
     ((evm_new (sample_env (vk_init_code [1, 2, 3])) Constantinople)\<lparr>e_gas := 30000\<rparr>)
     (leviathan_new Constantinople) sample_world substate_new =
   Ret (ROk [1, 2, 3], evm', leviathan_new Constantinople, sample_world, substate_new)"
  using vk_contract_deploys [of Some Some "Some [1, 2, 3]" True "vk_init_code [1, 2, 3]" "[1, 2, 3]" "[1, 2, 3]" "[1, 2, 3]"
      "sample_env (vk_init_code [1, 2, 3])" 30000 sample_ext 0 Constantinople]
  by (simp add: build_vk_contract_def isize_max_def) blast

end
