(* ===== verification/Client.thy ===== *)
theory Client
  imports Rpc Transaction_Laws
begin

text \<open>
  The client side of the library, \<open>src/src/solidity_utils.rs\<close>: signing a transaction, deploying a contract
  from a file or from bytes, and calling a contract, each on a \<open>LEVIATHAN\<close> object and a world state at
  hand.  The signature library and the hexadecimal decoder are parameters.
\<close>

section \<open>Keys and signatures\<close>

text \<open>
  \<open>sign_ecdsa_recoverable\<close> with \<open>serialize_compact\<close> gives the recovery id and 64 bytes,
  \<open>serialize_uncompressed\<close> of the public key 65 bytes.
\<close>

record 'k key_ext =
  k_sign :: "'k \<Rightarrow> byte list \<Rightarrow> nat \<times> byte list"
  k_public :: "'k \<Rightarrow> byte list"
  k_hex_decode :: "string \<Rightarrow> byte list option"

definition sign_tx_properly ::
  "('t, 'r) ext \<Rightarrow> 'k key_ext \<Rightarrow> u256 \<Rightarrow> u256 \<Rightarrow> u256 \<Rightarrow> address option \<Rightarrow> u256 \<Rightarrow> byte list \<Rightarrow> 'k \<Rightarrow>
   u256 \<times> u256 \<times> u256" where
  "sign_tx_properly X K nonce price gas_limit to value data secret_key =
     (let to_slice = (case to of Some addr \<Rightarrow> address_bytes addr | None \<Rightarrow> []);
          payload_length =
            x_encode_u256_len X nonce + x_encode_u256_len X price + x_encode_u256_len X gas_limit +
            x_rlp_bytes_len X to_slice + x_encode_u256_len X value + x_rlp_bytes_len X data;
          rlp_encoded =
            x_rlp_header X payload_length @ x_encode_u256 X nonce @ x_encode_u256 X price @
            x_encode_u256 X gas_limit @ x_rlp_bytes X to_slice @ x_encode_u256 X value @ x_rlp_bytes X data;
          hash = x_keccak256 X rlp_encoded;
          (recovery_id, sig_bytes) = k_sign K secret_key (to_be_bytes hash);
          r = from_be_bytes (take 32 sig_bytes);
          s = from_be_bytes (take 32 (drop 32 sig_bytes)) in
      (of_nat (recovery_id + 27), r, s))"

text \<open>The address of a key: the last 20 bytes of the hash of the public key without its prefix.\<close>

definition key_address :: "('t, 'r) ext \<Rightarrow> 'k key_ext \<Rightarrow> 'k \<Rightarrow> address res" where
  "key_address X K secret_key =
     bindR (slice_of (k_public K secret_key) 1 65) (\<lambda>k. Ret (from_word (x_keccak256 X k)))"

section \<open>Transactions\<close>

definition client_transaction ::
  "('t, 'r) ext \<Rightarrow> 'k key_ext \<Rightarrow> 'k \<Rightarrow> u64 \<Rightarrow> address option \<Rightarrow> byte list \<Rightarrow> u256 \<Rightarrow> u256 \<Rightarrow> u256 \<Rightarrow> transaction" where
  "client_transaction X K secret_key sender_nonce to data eth price gas_limit =
     (let (v, r, s) = sign_tx_properly X K (ucast sender_nonce) price gas_limit to eth data secret_key in
      \<lparr>t_nonce = unat sender_nonce, t_price = price, t_gas_limit = gas_limit,
       t_to = (case to of Some addr \<Rightarrow> TxCall addr | None \<Rightarrow> TxCreate), t_value = eth, t_data = data,
       t_w = v, t_r = r, t_s = s\<rparr>)"

definition client_header :: block_header where
  "client_header =
     \<lparr>h_beneficiary = of_nat (be_val (replicate 20 0xfe)), h_timestamp = 0, h_number = 1, h_mix_hash = 0,
      h_gas_limit = 30000000, h_base_fee_per_gas = Some 0\<rparr>"

definition deployed_address :: "('t, 'r) ext \<Rightarrow> address \<Rightarrow> u64 \<Rightarrow> address" where
  "deployed_address X sender_addr sender_nonce =
     (let payload_length = x_rlp_bytes_len X (address_bytes sender_addr) + x_rlp_u64_len X sender_nonce;
          rlp_byte = x_rlp_header X payload_length @ x_rlp_bytes X (address_bytes sender_addr) @
            x_rlp_u64 X sender_nonce in
      from_word (x_keccak256 X rlp_byte))"

text \<open>\<open>None\<close> is \<open>Err(())\<close>.\<close>

definition call_contract ::
  "('t, 'r) ext \<Rightarrow> 'k key_ext \<Rightarrow> ('t, 'r) runner \<Rightarrow> iteration \<Rightarrow> leviathan \<Rightarrow> ('t, 'r) world_state \<Rightarrow> 'k \<Rightarrow> address \<Rightarrow>
   byte list \<Rightarrow> u256 \<Rightarrow> u256 \<Rightarrow> u256 \<Rightarrow> (evm_log list option \<times> leviathan \<times> ('t, 'r) world_state) res" where
  "call_contract X K run it lv ws secret_key contract_addr data eth price gas_limit =
     bindR (key_address X K secret_key) (\<lambda>sender_addr.
     bindR (get_nonce X ws sender_addr) (\<lambda>(n, ws1).
     let tx = client_transaction X K secret_key (unwrap_or n 0) (Some contract_addr) data eth price gas_limit in
     bindR (transaction_execution X run it lv ws1 tx client_header) (\<lambda>(result, lv1, ws2).
     Ret (case result of TxOk _ output \<Rightarrow> Some output | TxErr _ _ \<Rightarrow> None, lv1, ws2))))"

definition deploy_contract_raw ::
  "('t, 'r) ext \<Rightarrow> 'k key_ext \<Rightarrow> ('t, 'r) runner \<Rightarrow> iteration \<Rightarrow> leviathan \<Rightarrow> ('t, 'r) world_state \<Rightarrow> 'k \<Rightarrow>
   byte list \<Rightarrow> u256 \<Rightarrow> u256 \<Rightarrow> u256 \<Rightarrow> (address option \<times> leviathan \<times> ('t, 'r) world_state) res" where
  "deploy_contract_raw X K run it lv ws secret_key init_code eth price gas_limit =
     bindR (key_address X K secret_key) (\<lambda>sender_addr.
     bindR (get_nonce X ws sender_addr) (\<lambda>(n, ws1).
     let sender_nonce = unwrap_or n 0;
         tx = client_transaction X K secret_key sender_nonce None init_code eth price gas_limit in
     bindR (transaction_execution X run it lv ws1 tx client_header) (\<lambda>(result, lv1, ws2).
     Ret (case result of TxOk _ _ \<Rightarrow> Some (deployed_address X sender_addr sender_nonce) | TxErr _ _ \<Rightarrow> None,
       lv1, ws2))))"

text \<open>\<open>char::is_whitespace\<close> below 256, and \<open>str::trim\<close>.\<close>

definition is_whitespace :: "char \<Rightarrow> bool" where
  "is_whitespace c \<longleftrightarrow> (of_char c :: nat) \<in> {9, 10, 11, 12, 13, 32, 0x85, 0xa0}"

definition trim :: "string \<Rightarrow> string" where
  "trim s = rev (dropWhile is_whitespace (rev (dropWhile is_whitespace s)))"

text \<open>The same with the code in a file: \<open>file\<close> is what reading it gives.\<close>

definition deploy_contract ::
  "('t, 'r) ext \<Rightarrow> 'k key_ext \<Rightarrow> ('t, 'r) runner \<Rightarrow> iteration \<Rightarrow> leviathan \<Rightarrow> ('t, 'r) world_state \<Rightarrow> 'k \<Rightarrow>
   string option \<Rightarrow> u256 \<Rightarrow> u256 \<Rightarrow> u256 \<Rightarrow> (address option \<times> leviathan \<times> ('t, 'r) world_state) res" where
  "deploy_contract X K run it lv ws secret_key contents eth price gas_limit =
     (case contents of
        None \<Rightarrow> Ret (None, lv, ws)
      | Some hex_data \<Rightarrow>
          case k_hex_decode K (trim_0x (trim hex_data)) of
            None \<Rightarrow> Ret (None, lv, ws)
          | Some init_code \<Rightarrow>
              deploy_contract_raw X K run it lv ws secret_key init_code eth price gas_limit)"

section \<open>Signing and recovering\<close>

text \<open>
  What the libraries guarantee: the RLP encoding of an integer depends on its value only, and the key
  recovered from a signature is the key that signed.
\<close>

definition rlp_integers :: "('t, 'r) ext \<Rightarrow> bool" where
  "rlp_integers X \<longleftrightarrow> (\<forall>n. x_encode_u256 X (ucast n) = x_rlp_u64 X n \<and> x_encode_u256_len X (ucast n) = x_rlp_u64_len X n)"

definition recovers :: "('t, 'r) ext \<Rightarrow> 'k key_ext \<Rightarrow> 'k \<Rightarrow> bool" where
  "recovers X K k \<longleftrightarrow> (\<forall>h. case k_sign K k h of (rid, sig) \<Rightarrow>
     rid < 4 \<and> length sig = 64 \<and> x_ecdsa_recover X h sig rid = Some (k_public K k))"

lemma recoversD:
  "recovers X K k \<Longrightarrow> k_sign K k h = (rid, sig) \<Longrightarrow>
   rid < 4 \<and> length sig = 64 \<and> x_ecdsa_recover X h sig rid = Some (k_public K k)"
  unfolding recovers_def by (drule spec [of _ h]) simp

lemma client_transaction_sel [simp]:
  "t_nonce (client_transaction X K k n to data v p l) = unat n"
  "t_price (client_transaction X K k n to data v p l) = p"
  "t_gas_limit (client_transaction X K k n to data v p l) = l"
  "t_to (client_transaction X K k n to data v p l) = (case to of Some a \<Rightarrow> TxCall a | None \<Rightarrow> TxCreate)"
  "t_value (client_transaction X K k n to data v p l) = v"
  "t_data (client_transaction X K k n to data v p l) = data"
  by (simp_all add: client_transaction_def split: prod.split)

lemma client_transaction_signature:
  "(t_w (client_transaction X K k n to data v p l), t_r (client_transaction X K k n to data v p l),
    t_s (client_transaction X K k n to data v p l)) = sign_tx_properly X K (ucast n) p l to v data k"
  by (simp add: client_transaction_def split: prod.split)

text \<open>The signed bytes are the payload the checks hash, without a chain id.\<close>

lemma signed_payload:
  assumes "rlp_integers X" "tx = client_transaction X K k n to data v p l"
    and "k_sign K k (to_be_bytes (x_keccak256 X (signing_payload X tx None))) = (rid, sig)"
  shows "t_w tx = of_nat (rid + 27) \<and> t_r tx = from_be_bytes (take 32 sig) \<and> t_s tx = from_be_bytes (take 32 (drop 32 sig))"
proof -
  have rlp: "x_encode_u256 X (ucast n) = x_rlp_u64 X n" "x_encode_u256_len X (ucast n) = x_rlp_u64_len X n"
    using assms(1) by (simp_all add: rlp_integers_def)
  have "sign_tx_properly X K (ucast n) p l to v data k =
      (of_nat (rid + 27), from_be_bytes (take 32 sig), from_be_bytes (take 32 (drop 32 sig)))"
    using assms(3) by (cases to) (simp_all add: assms(2) sign_tx_properly_def signing_payload_def to_slice_def Let_def rlp)
  with client_transaction_signature [of X K k n to data v p l] show ?thesis by (simp add: assms(2))
qed

lemma recover_client_transaction:
  assumes "rlp_integers X" "recovers X K k" "t_w (client_transaction X K k n to data v p l) \<in> {27, 28}"
  shows "recover_sender X (client_transaction X K k n to data v p l) = bindR (key_address X K k) (\<lambda>a. Ret (Inr a))"
proof -
  define tx where "tx = client_transaction X K k n to data v p l"
  define h where "h = to_be_bytes (x_keccak256 X (signing_payload X tx None))"
  obtain rid sig where sig: "k_sign K k h = (rid, sig)" by (cases "k_sign K k h")
  have ok: "rid < 4" "length sig = 64" "x_ecdsa_recover X h sig rid = Some (k_public K k)"
    using recoversD [OF assms(2) sig] by simp_all
  note t = signed_payload [OF assms(1) tx_def sig [unfolded h_def]]
  have "unat (t_w tx) = rid + 27" using ok(1) t unat_of_nat_small [of "rid + 27"] by (simp only: t) simp
  moreover from this assms(3) have "rid = 0 \<or> rid = 1" by (auto simp flip: tx_def)
  ultimately have "split_v (t_w tx) = Inr (rid, None)" by (auto simp: split_v_def Let_def)
  moreover have "to_be_bytes (t_r tx) @ to_be_bytes (t_s tx) = sig"
    using ok(2) append_take_drop_id [of 32 sig] by (simp add: t to_from_be_bytes)
  ultimately show ?thesis
    using ok(3) by (simp add: recover_sender_def key_address_def Let_def bindR_assoc flip: tx_def h_def)
qed

lemma client_signature:
  assumes "rlp_integers X" "recovers X K k"
  shows "\<exists>rid<4. unat (t_w (client_transaction X K k n to data v p l)) = rid + 27"
proof -
  define tx where "tx = client_transaction X K k n to data v p l"
  obtain rid sig where sig: "k_sign K k (to_be_bytes (x_keccak256 X (signing_payload X tx None))) = (rid, sig)"
    by fastforce
  then have "rid < 4" using recoversD [OF assms(2)] by blast
  moreover from this have "unat (t_w tx) = rid + 27"
    using signed_payload [OF assms(1) tx_def sig] unat_of_nat_small [of "rid + 27"] by (simp only:) simp
  ultimately show ?thesis by (auto simp: tx_def)
qed

text \<open>A recovered sender is the signer: the other recovery ids are refused.\<close>

lemma recovered_client:
  assumes "rlp_integers X" "recovers X K k" "recover_sender X (client_transaction X K k n to data v p l) = Ret (Inr s)"
  shows "key_address X K k = Ret s"
proof -
  let ?w = "t_w (client_transaction X K k n to data v p l)"
  obtain rid where rid: "rid < 4" "unat ?w = rid + 27" using client_signature [OF assms(1,2)] by blast
  have "?w \<in> {27, 28}"
  proof (rule ccontr)
    assume "?w \<notin> {27, 28}"
    then have "unat ?w \<noteq> 27" "unat ?w \<noteq> 28" by (auto simp: word_unat_eq_iff)
    with rid have "split_v ?w = Inl InvalidV" by (simp add: split_v_def Let_def)
    with assms(3) show False by (simp add: recover_sender_def)
  qed
  from recover_client_transaction [OF assms(1,2) this] assms(3) show ?thesis
    by (cases "key_address X K k") auto
qed

section \<open>The address of a deployment\<close>

lemma creation_address:
  assumes "contract_creation X run lv ws ss s org g p e code d None b h = Ret (COk g' out (Some a), st)"
    and "view X ws s = Some acc"
  shows "a = deployed_address X s (v_nonce acc - 1)"
proof -
  from assms(1) obtain bytes ws1 where pre: "address_preimage X ws s code None = Ret (bytes, ws1)"
    and a: "a = from_word (x_keccak256 X bytes)"
    by (auto simp: contract_creation_def Let_def split: if_splits run_result.splits option.splits prod.splits)
  from pre obtain n where n: "get_nonce X ws s = Ret (Some n, ws1)"
    and bytes: "bytes = x_rlp_header X (x_rlp_bytes_len X (address_bytes s) + x_rlp_u64_len X (n - 1)) @
      x_rlp_bytes X (address_bytes s) @ x_rlp_u64 X (n - 1)"
    by (auto simp: address_preimage_def Let_def res_simps split: if_splits)
  from get_nonce_view [OF n] assms(2) have "n = v_nonce acc" by simp
  with a bytes show ?thesis by (simp add: deployed_address_def Let_def)
qed

text \<open>What a transaction without \<open>eth_call\<close> mode that ends well has done.\<close>

lemma successful_execution:
  assumes "transaction_execution X run it lv ws tx h = Ret (TxOk billed logs, lv', ws')"
  obtains s ss ws1 g out created st where
    "start_transaction X (lv\<lparr>lv_return_data := []\<rparr>) tx h ws = Ret (Some (s, t_gas_limit tx, ss), ws1)"
    "transaction_call X run tx h s (sat_sub (t_gas_limit tx) (intrinsic_gas (lv_version lv) tx))
       (lv\<lparr>lv_return_data := []\<rparr>) ws1 ss = Ret (COk g out created, st)"
proof -
  let ?lv = "lv\<lparr>lv_return_data := []\<rparr>"
  from assms obtain st ws1 where start: "start_transaction X ?lv tx h ws = Ret (st, ws1)"
    by (auto simp: transaction_execution_def Let_def)
  with assms obtain s gas0 ss where st: "st = Some (s, gas0, ss)"
    by (cases st) (auto simp: transaction_execution_def Let_def)
  with start have g: "gas0 = t_gas_limit tx" using start_gas by blast
  from assms start st g obtain result lv1 ws2 ss1 where
    call: "transaction_call X run tx h s (sat_sub (t_gas_limit tx) (intrinsic_gas (lv_version lv) tx)) ?lv ws1 ss =
      Ret (result, lv1, ws2, ss1)"
    and rest: "(if lv_eth_call lv1 \<noteq> None then let (r, lv2) = finish_eth_call tx result lv1 ss1 in Ret (r, lv2, ws2)
        else finish_transaction X it tx h s result lv1 ws2 ss1) = Ret (TxOk billed logs, lv', ws')"
    by (auto simp: transaction_execution_def Let_def)
  from rest obtain g out created where "result = COk g out created"
    by (cases result) (auto simp: finish_eth_call_def finish_transaction_def split: if_splits)
  with that start st g call show thesis by blast
qed

section \<open>Properties\<close>

definition deploy_ext :: "(unit, unit) ext" where
  "deploy_ext = signing_ext\<lparr>x_keccak256 := (\<lambda>b. if length b = 64 then 0x200 else 0x300)\<rparr>"

definition sample_keys :: "unit key_ext" where
  "sample_keys = \<lparr>k_sign = (\<lambda>_ _. (0, replicate 64 1)), k_public = (\<lambda>_. replicate 65 4), k_hex_decode = (\<lambda>_. Some [])\<rparr>"

lemma deploy_ext_laws: "rlp_integers deploy_ext" "recovers deploy_ext sample_keys k"
  by (simp_all add: rlp_integers_def recovers_def deploy_ext_def signing_ext_def sample_keys_def)

lemma deploy_ext_keccak [simp]: "x_keccak256 deploy_ext b = (if length b = 64 then 0x200 else 0x300)"
  by (simp add: deploy_ext_def)

lemma sample_key_address: "key_address deploy_ext sample_keys k = Ret 0x200"
  by (simp add: key_address_def sample_keys_def slice_of_def from_word_def)

lemma sample_client_v: "t_w (client_transaction X sample_keys k n to data v p l) = 27"
  by (simp add: client_transaction_def sign_tx_properly_def sample_keys_def split: prod.split)

text \<open>
  C20.  A deployment reports the address where the code went: when it succeeds, its transaction was started
  for the address of the key, and the contract creation it ran returned the same contract address that the
  client computes from the nonce before the transaction.
\<close>

theorem deployment_reports_created_address:
  assumes "deploy_contract_raw X K run it lv ws k code v p l = Ret (Some a, lv', ws')" "lv_eth_call lv = None"
    and "rlp_integers X" "recovers X K k"
  shows "\<exists>s g ss ws1 g' out st. key_address X K k = Ret s \<and>
    contract_creation X run (lv\<lparr>lv_return_data := []\<rparr>) ws1 ss s s g p v code 0 None True client_header =
      Ret (COk g' out (Some a), st)"
proof -
  from assms(1) obtain sender n ws0 billed logs where key: "key_address X K k = Ret sender"
    and n: "get_nonce X ws sender = Ret (n, ws0)"
    and ex: "transaction_execution X run it lv ws0 (client_transaction X K k (unwrap_or n 0) None code v p l)
        client_header = Ret (TxOk billed logs, lv', ws')"
    and a: "a = deployed_address X sender (unwrap_or n 0)"
    by (auto simp: deploy_contract_raw_def Let_def split: tx_result.splits)
  let ?tx = "client_transaction X K k (unwrap_or n 0) None code v p l" and ?lv = "lv\<lparr>lv_return_data := []\<rparr>"
  from ex obtain s ss ws1 g' out created st where
    start: "start_transaction X ?lv ?tx client_header ws0 = Ret (Some (s, l, ss), ws1)"
    and call: "transaction_call X run ?tx client_header s (sat_sub l (intrinsic_gas (lv_version lv) ?tx)) ?lv ws1 ss =
      Ret (COk g' out created, st)" by (rule successful_execution) simp
  have mode: "lv_eth_call ?lv = None" using assms(2) by simp
  from start mode obtain acc :: account_view where s: "s = sender" and nonce: "n = Some (v_nonce acc)"
    and acc: "\<exists>acc'. view X ws1 s = Some acc' \<and> v_nonce acc' = v_nonce acc + 1"
  proof (cases rule: start_checked)
    case (started s' wa wb)
    then have "s' = s" "key_address X K k = Ret s" using recovered_client [OF assms(3,4)] by auto
    with key have "s = sender" by simp
    with get_nonce_view [OF n] getters_reads(5) [OF n] have v: "n = map_option v_nonce (view X ws0 s)"
      by (simp add: reads_view)
    from started(5) \<open>s' = s\<close> inc_nonce_view [of s wa wb X] obtain acc where
      acc: "view X wa s = Some acc" "view X wb s = Some (acc\<lparr>v_nonce := v_nonce acc + 1\<rparr>)" by auto
    with started(6) \<open>s' = s\<close> buy_gas_view [of s l p wb l ws1 X] have
      "\<exists>acc'. view X ws1 s = Some acc' \<and> v_nonce acc' = v_nonce acc + 1" by auto
    moreover have "n = Some (v_nonce acc)" using v acc(1) started(3) by (simp add: reads_view)
    ultimately show thesis using that \<open>s = sender\<close> by blast
  qed simp_all
  from call have c: "contract_creation X run ?lv ws1 ss s s (sat_sub l (intrinsic_gas (lv_version lv) ?tx)) p v code 0
      None True client_header = Ret (COk g' out created, st)" by (simp add: transaction_call_def)
  then obtain a' where "created = Some a'"
    by (auto simp: contract_creation_def Let_def split: if_splits run_result.splits option.splits prod.splits)
  moreover from creation_address [OF c [unfolded this]] acc s have "a' = deployed_address X sender (v_nonce acc)"
    by auto
  ultimately have "created = Some a" using a nonce by simp
  with c key s show ?thesis by blast
qed

lemma deploy_ext_sel [simp]:
  "x_ecdsa_recover deploy_ext = (\<lambda>_ _ _. Some (replicate 65 4))" "x_trie_get deploy_ext = (\<lambda>_ _ _. Some None)"
  "x_trie_root deploy_ext = (\<lambda>_ _. Some (EMPTY_STORAGE_ROOT, (), []))" "x_trie_from deploy_ext = (\<lambda>_ _. Some ())"
  "x_trie_remove deploy_ext = (\<lambda>_ _ _. ())" "x_rlp_header deploy_ext = (\<lambda>_. [])" "x_rlp_u64 deploy_ext = (\<lambda>_. [])"
  "x_rlp_bytes deploy_ext = (\<lambda>b. b)"
  by (simp_all add: deploy_ext_def signing_ext_def)

abbreviation sample_deploy_tx :: transaction where
  "sample_deploy_tx \<equiv> client_transaction deploy_ext sample_keys () 3 None [] 0 0 60000"

lemma sample_deploy_gas: "intrinsic_gas Istanbul sample_deploy_tx = 53000" "max_cost sample_deploy_tx = 0"
  by (simp_all add: intrinsic_gas_def data_gas_def contract_gas_def sat_add_def max_cost_def sat_mul_def version_order)

lemma sample_deploy_start:
  "start_transaction deploy_ext (leviathan_new Istanbul) sample_deploy_tx client_header sample_world =
     Ret (Some (0x200, 60000, first_substate 0x200 client_header), add_account 0x200 (sample_account 4 1000) sample_world)"
proof -
  have r: "recover_sender deploy_ext sample_deploy_tx = Ret (Inr 0x200)"
    using recover_client_transaction [OF deploy_ext_laws] by (simp add: sample_client_v sample_key_address)
  show ?thesis
    by (simp add: start_transaction_def transaction_checks_def r sample_deploy_gas sender_checks_def payment_checks_def
        get_nonce_def get_code_def get_balance_def with_account_def is_create_def client_header_def version_order
        is_dead_def is_empty_def inc_nonce_def buy_gas_def sat_mul_def add_account_def)
qed

lemma client_beneficiary: "h_beneficiary client_header = 0xfefefefefefefefefefefefefefefefefefefefe"
proof -
  have "replicate 20 (0xfe :: byte) = [0xfe, 0xfe, 0xfe, 0xfe, 0xfe, 0xfe, 0xfe, 0xfe, 0xfe, 0xfe,
      0xfe, 0xfe, 0xfe, 0xfe, 0xfe, 0xfe, 0xfe, 0xfe, 0xfe, 0xfe]" by (simp add: list_eq_iff_nth_eq nth_Cons' less_Suc_eq numeral_eq_Suc)
  then show ?thesis by (simp add: client_header_def be_val_def)
qed

lemma sample_deploy_creation:
  "\<exists>lv' ws' ss'. contract_creation deploy_ext (evm_run deploy_ext (Suc 0)) (leviathan_new Istanbul)
     (add_account 0x200 (sample_account 4 1000) sample_world) (first_substate 0x200 client_header) 0x200 0x200 7000 0 0 []
     0 None True client_header = Ret (COk 7000 [] (Some 0x300), lv', ws', ss') \<and>
     lv_version lv' = Istanbul \<and> lv_eth_call lv' = None \<and> ws_cache ws' 0x200 = Some (sample_account 4 1000) \<and>
     ws_cache ws' 0x300 = Some ((account_new deploy_ext)\<lparr>acc_nonce := 1\<rparr>) \<and>
     ws_cache ws' (h_beneficiary client_header) = None \<and> a_touch ss' = [0x200, h_beneficiary client_header, 0x300] \<and>
     a_des ss' = [] \<and> a_reimburse ss' = 0"
proof -
  have c: "ws_cache sample_world 0x300 = None" by (simp add: sample_world_def)
  have [simp]: "length (address_bytes 0x200) = 20" by (simp add: address_bytes_def)
  note h = client_beneficiary
  show ?thesis
    by (simp add: contract_creation_def address_preimage_def get_nonce_def with_account_def from_word_def add_account_def
      is_collision_def get_code_def is_storage_empty_def contain_mpt_def trie_lookup_def c
      init_account_def ensure_account_def is_dead_def is_empty_def is_physically_exist_def
      add_cache_def new_nonce_def inc_nonce_def endow_account_def reset_storage_def set_code_def
      journaled_def action_push_def transfer_eth_def send_eth_def add_balance_def update_cached_def
      account_new_def version_order first_substate_def substate_new_def push_new_def sample_account_def sample_world_def h stop_at_once evm_new_def deposit_code_def usize_mul_def return_gas_def Let_def del: evm_run.simps)
qed

lemma sample_deploy_settle:
  assumes "ws_cache ws 0x200 = Some (sample_account 4 1000)" "ws_cache ws (h_beneficiary client_header) = None"
    and "ws_cache ws 0x300 = Some ((account_new deploy_ext)\<lparr>acc_nonce := 1\<rparr>)"
    and "a_touch ss = [0x200, h_beneficiary client_header, 0x300]" "a_des ss = []"
  shows "\<exists>ws'. settle deploy_ext sample_order Istanbul sample_deploy_tx client_header 0x200 7000 ss ws = Ret (53000, ws')"
  using assms unfolding client_beneficiary
  by (simp add: settle_def credit_def is_dead_def is_empty_def is_physically_exist_def with_account_def client_beneficiary
      trie_lookup_def contain_mpt_def add_balance_def update_cached_def add_account_def sweep_destroyed_def remove_account_def
      commit_cache_def commit_accounts_def account_new_def miner_price_def
      publish_root_def trie_root_def update_eth_trie_def sample_order_def sat_sub_def sat_mul_def version_order Let_def)

lemma sample_deployment:
  "\<exists>lv' ws'. deploy_contract_raw deploy_ext sample_keys (evm_run deploy_ext (Suc 0)) sample_order (leviathan_new Istanbul)
     sample_world () [] 0 0 60000 = Ret (Some 0x300, lv', ws')"
proof -
  obtain lv1 ws1 ss1 where c: "contract_creation deploy_ext (evm_run deploy_ext (Suc 0)) (leviathan_new Istanbul)
     (add_account 0x200 (sample_account 4 1000) sample_world) (first_substate 0x200 client_header) 0x200 0x200 7000 0 0 []
     0 None True client_header = Ret (COk 7000 [] (Some 0x300), lv1, ws1, ss1)"
    and lv: "lv_version lv1 = Istanbul" "lv_eth_call lv1 = None" "a_reimburse ss1 = 0"
    and ws: "ws_cache ws1 0x200 = Some (sample_account 4 1000)" "ws_cache ws1 (h_beneficiary client_header) = None"
      "ws_cache ws1 0x300 = Some ((account_new deploy_ext)\<lparr>acc_nonce := 1\<rparr>)"
      "a_touch ss1 = [0x200, h_beneficiary client_header, 0x300]" "a_des ss1 = []"
    using sample_deploy_creation by auto
  from sample_deploy_settle [OF ws] obtain ws2 where
    s: "settle deploy_ext sample_order Istanbul sample_deploy_tx client_header 0x200 7000 ss1 ws1 = Ret (53000, ws2)" by blast
  have new: "(leviathan_new Istanbul)\<lparr>lv_return_data := []\<rparr> = leviathan_new Istanbul" by (simp add: leviathan_new_def)
  have "refunded_gas Istanbul sample_deploy_tx 7000 ss1 = 7000"
    by (simp add: refunded_gas_def lv(3) sat_add_def sat_sub_def)
  then have "transaction_execution deploy_ext (evm_run deploy_ext (Suc 0)) sample_order (leviathan_new Istanbul) sample_world
      sample_deploy_tx client_header = Ret (TxOk 53000 (a_log ss1), lv1\<lparr>lv_return_data := []\<rparr>, ws2)"
    by (simp add: transaction_execution_def new sample_deploy_start sample_deploy_gas sat_sub_def transaction_call_def c lv
        finish_transaction_def s Let_def del: evm_run.simps)
  moreover have "get_nonce deploy_ext sample_world 0x200 = Ret (Some 3, sample_world)"
    by (simp add: get_nonce_def with_account_def)
  moreover have "deployed_address deploy_ext 0x200 3 = 0x300"
    by (simp add: deployed_address_def address_bytes_def from_word_def)
  ultimately show ?thesis by (simp add: deploy_contract_raw_def sample_key_address Let_def del: evm_run.simps)
qed

theorem deployment_reports_created_address_witness:
  "\<exists>g ss ws1 g' out st. contract_creation deploy_ext (evm_run deploy_ext (Suc 0)) (leviathan_new Istanbul) ws1 ss
     0x200 0x200 g 0 0 [] 0 None True client_header = Ret (COk g' out (Some 0x300), st)"
proof -
  obtain lv' ws' where d: "deploy_contract_raw deploy_ext sample_keys (evm_run deploy_ext (Suc 0)) sample_order
    (leviathan_new Istanbul) sample_world () [] 0 0 60000 = Ret (Some 0x300, lv', ws')" using sample_deployment by blast
  have "(leviathan_new Istanbul)\<lparr>lv_return_data := []\<rparr> = leviathan_new Istanbul" by (simp add: leviathan_new_def)
  with deployment_reports_created_address [OF d _ deploy_ext_laws] show ?thesis
    by (auto simp: sample_key_address)
qed

end
