(* ===== verification/Command_Line.thy ===== *)
theory Command_Line
  imports Zk_Prover Vk_Builder Client
begin

text \<open>
  The command line tools: \<open>src/src/bin/voter_cli.rs\<close>, which prepares the registration of a citizen and a
  vote, \<open>src/src/bin/generate_key.rs\<close> and \<open>src/src/bin/vk_builder.rs\<close>.  External processes, the HTTP
  client, the generators of random numbers and keys, and the text codecs are parameters; what a tool prints
  is the value of its function, progress messages aside.
\<close>

section \<open>The outside world of the voter\<close>

datatype command =
    Register string string
  | Vote string string string string usize

record logs_request =
  lq_method :: string
  lq_address :: string
  lq_from_block :: string
  lq_to_block :: string
  lq_topics :: "string list"
  lq_id :: nat

text \<open>
  \<open>'j\<close> are JSON values, \<open>'k\<close> RSA keys.  \<open>None\<close> is a process that cannot be run, a request or a parse that
  fails.  The two files are what the directory holds after the external programs have run.
\<close>

record ('j, 'k) cli_ext =
  c_json :: "'j json_ext"
  c_generate_commitment :: "string \<Rightarrow> string \<Rightarrow> byte list option"
  c_from_utf8_lossy :: "byte list \<Rightarrow> string"
  c_parse_b256 :: "string \<Rightarrow> b256 option"
  c_rsa_new :: "'k option"
  c_rsa_sign :: "'k \<Rightarrow> byte list \<Rightarrow> byte list option"
  c_rsa_n :: "'k \<Rightarrow> byte list"
  c_rsa_e :: "'k \<Rightarrow> byte list"
  c_hex :: "byte list \<Rightarrow> string"
  c_post :: "string \<Rightarrow> logs_request \<Rightarrow> 'j option option"
  c_as_array :: "'j \<Rightarrow> 'j list option"
  c_generate_input :: "string list \<Rightarrow> bool option"
  c_snarkjs :: "string list \<Rightarrow> bool option"
  c_proof_file :: "string option"
  c_public_file :: "string option"

text \<open>\<open>join\<close>, and the separators of the printed commands: a space, a backslash, a new line, two spaces.\<close>

fun join :: "string \<Rightarrow> string list \<Rightarrow> string" where
  "join sep [] = []"
| "join sep [s] = s"
| "join sep (s # t # ts) = s @ sep @ join sep (t # ts)"

definition continued :: string where
  "continued = [CHR '' '', CHR 0x5C, CHR 0x0A, CHR '' '', CHR '' '']"

definition quoted :: "string \<Rightarrow> string" where
  "quoted s = CHR 0x22 # s @ [CHR 0x22]"

definition hex_0x :: "('j, 'k) cli_ext \<Rightarrow> byte list \<Rightarrow> string" where
  "hex_0x C bs = ''0x'' @ c_hex C bs"

section \<open>Registration\<close>

record registration =
  rg_modulus :: "byte list"
  rg_exponent :: "byte list"
  rg_signature :: "byte list"
  rg_commitment :: b256

text \<open>The commitment of the script, signed by a fresh RSA key; every failure is a panic.\<close>

definition make_registration ::
  "('t, 'r) ext \<Rightarrow> ('j, 'k) cli_ext \<Rightarrow> string \<Rightarrow> string \<Rightarrow> registration res" where
  "make_registration X C sec nullifier =
     bindR (unwrap (c_generate_commitment C sec nullifier)) (\<lambda>stdout.
     let leaf_hex = trim (c_from_utf8_lossy C stdout) in
     bindR (unwrap (c_parse_b256 C leaf_hex)) (\<lambda>commitment.
     bindR (unwrap (c_rsa_new C)) (\<lambda>rsa_private_key.
     let hashed_message = x_sha256 X (to_be_bytes commitment) in
     bindR (unwrap (c_rsa_sign C rsa_private_key hashed_message)) (\<lambda>signature.
     Ret \<lparr>rg_modulus = c_rsa_n C rsa_private_key, rg_exponent = c_rsa_e C rsa_private_key,
          rg_signature = signature, rg_commitment = commitment\<rparr>))))"

definition registration_command :: "('j, 'k) cli_ext \<Rightarrow> registration \<Rightarrow> string" where
  "registration_command C rg =
     join continued
       [''cast send $IDENTITY_ADDR '' @ quoted ''register(bytes,bytes,bytes,bytes32)'',
        hex_0x C (rg_modulus rg), hex_0x C (rg_exponent rg), hex_0x C (rg_signature rg),
        hex_0x C (to_be_bytes (rg_commitment rg)),
        ''--rpc-url $RPC_URL --private-key $PRIVATE_KEY --legacy --gas-limit 3000000 --gas-price 1'' @ [CHR 0x0A]]"

section \<open>Voting\<close>

definition registry_address :: string where
  "registry_address = ''0x450Dbb94A3F3714fC19cd3DD9638086765C4B092''"

definition registered_topic :: string where
  "registered_topic = ''0xf6bfbb4373ae6abbfa8727a3af82792e3c7e91b72f5339a35b488357b402354d''"

definition logs_request :: logs_request where
  "logs_request = \<lparr>lq_method = ''eth_getLogs'', lq_address = registry_address, lq_from_block = ''0x0'',
     lq_to_block = ''latest'', lq_topics = [registered_topic], lq_id = 1\<rparr>"

text \<open>The second topic of every log that has one, in order.\<close>

primrec topics_1 :: "'j json_ext \<Rightarrow> 'j list \<Rightarrow> string list" where
  "topics_1 J [] = []"
| "topics_1 J (log # logs) =
     (case j_str J (j_index J (j_key J log ''topics'') 1) of
        Some topic1 \<Rightarrow> topic1 # topics_1 J logs
      | None \<Rightarrow> topics_1 J logs)"

definition registered_commitments :: "('j, 'k) cli_ext \<Rightarrow> string list res" where
  "registered_commitments C =
     bindR (unwrap (c_post C ''http://127.0.0.1:8545'' logs_request)) (\<lambda>res.
     bindR (unwrap res) (\<lambda>json_res.
     bindR (unwrap (c_as_array C (j_key (c_json C) json_res ''result''))) (\<lambda>logs.
     Ret (topics_1 (c_json C) logs))))"

text \<open>\<open>.status().expect(..)\<close> and the assertion on it.\<close>

definition run_to_success :: "bool option \<Rightarrow> unit res" where
  "run_to_success status = bindR (unwrap status) (\<lambda>ok. if ok then Ret () else Panic)"

definition make_vote ::
  "('j, 'k) cli_ext \<Rightarrow> string \<Rightarrow> string \<Rightarrow> string \<Rightarrow> string \<Rightarrow> usize \<Rightarrow> zk_vote_payload res" where
  "make_vote C sec nullifier choice root index =
     bindR (registered_commitments C) (\<lambda>commitments.
     let all_commitments_str = join '','' commitments; root_hex = trim_0x root in
     bindR (run_to_success (c_generate_input C
       [''generate_input.js'', root_hex, decimal index, sec, nullifier, choice,
        all_commitments_str])) (\<lambda>_.
     bindR (run_to_success (c_snarkjs C
       [''groth16'', ''fullprove'', ''input.json'', ''voting_js/voting.wasm'', ''voting_final.zkey'', ''proof.json'',
        ''public.json''])) (\<lambda>_.
     load_from_snarkjs (c_json C) (c_proof_file C) (c_public_file C))))"

text \<open>The option \<open>----gas-limit\<close> has four dashes in the source.\<close>

definition vote_command :: "('j, 'k) cli_ext \<Rightarrow> zk_vote_payload \<Rightarrow> string" where
  "vote_command C payload =
     join continued
       [''cast send $VOTING_ADDR '' @ quoted ''castVote(bytes,bytes32,bytes32,uint256)'',
        hex_0x C (zp_proof_bytes payload), hex_0x C (to_be_bytes (zp_nullifier_hash payload)),
        hex_0x C (to_be_bytes (zp_commitment payload)), decimal (unat (zp_vote_choice payload)),
        ''--rpc-url $RPC_URL --private-key $PRIVATE_KEY --legacy ----gas-limit 3000000 --gas-price 1'' @ [CHR 0x0A]]"

definition voter_cli :: "('t, 'r) ext \<Rightarrow> ('j, 'k) cli_ext \<Rightarrow> command \<Rightarrow> string res" where
  "voter_cli X C cmd =
     (case cmd of
        Register sec nullifier \<Rightarrow>
          bindR (make_registration X C sec nullifier) (\<lambda>rg. Ret (registration_command C rg))
      | Vote sec nullifier choice root index \<Rightarrow>
          bindR (make_vote C sec nullifier choice root index) (\<lambda>payload. Ret (vote_command C payload)))"

section \<open>The other programs\<close>

text \<open>
  \<open>generate_key.rs\<close>: the printed private key and address, from the random bytes.  \<open>from_slice\<close> of the
  secret key and the checksum format of addresses are parameters.
\<close>

definition generate_key ::
  "('t, 'r) ext \<Rightarrow> 'k key_ext \<Rightarrow> (byte list \<Rightarrow> 'k option) \<Rightarrow> ('k \<Rightarrow> byte list) \<Rightarrow> (byte list \<Rightarrow> string) \<Rightarrow>
   (address \<Rightarrow> string) \<Rightarrow> byte list \<Rightarrow> (string \<times> string) res" where
  "generate_key X K secret_from_slice secret_bytes hex checksum random_bytes =
     bindR (unwrap (secret_from_slice random_bytes)) (\<lambda>secret_key.
     bindR (key_address X K secret_key) (\<lambda>address.
     Ret (''0x'' @ hex (secret_bytes secret_key), checksum address)))"

text \<open>\<open>bin/vk_builder.rs\<close>: the body of \<open>build_vk_contract\<close> as a program.\<close>

definition vk_builder_main ::
  "(byte list \<Rightarrow> 'vk option) \<Rightarrow> ('vk \<Rightarrow> byte list option) \<Rightarrow> byte list option \<Rightarrow> bool \<Rightarrow> byte list res" where
  "vk_builder_main read_zkey serialize_uncompressed zkey_file writable =
     bindR (unwrap zkey_file) (\<lambda>contents.
     bindR (unwrap (read_zkey contents)) (\<lambda>vk.
     bindR (unwrap (serialize_uncompressed vk)) (\<lambda>vk_bytes.
     let l = of_nat (length vk_bytes) :: 16 word;
         l_high = ucast (drop_bit 8 l);
         l_low = ucast (l AND 0xff);
         init_code = [0x61, l_high, l_low, 0x60, 0x0E, 0x60, 0x00, 0x39, 0x61, l_high, l_low, 0x60, 0x00, 0xf3] @ vk_bytes
     in if writable then Ret init_code else Panic)))"

text \<open>The program and the library function are the same, so the deployment law of the builder holds of both.\<close>

lemma vk_builder_main_eq: "vk_builder_main = build_vk_contract"
  by (intro ext) (simp add: vk_builder_main_def build_vk_contract_def vk_init_code_def Let_def)

section \<open>What the RSA precompile sees\<close>

text \<open>
  A signature of an RSA key of 2048 bits is as long as its modulus, 256 bytes, and verifies under the
  public key; SHA-256 has 32 bytes.
\<close>

definition rsa_keys :: "('t, 'r) ext \<Rightarrow> ('j, 'k) cli_ext \<Rightarrow> bool" where
  "rsa_keys X C \<longleftrightarrow> (\<forall>b. length (x_sha256 X b) = 32) \<and>
     (\<forall>k. length (c_rsa_n C k) = 256 \<and> length (c_rsa_e C k) \<le> 256) \<and>
     (\<forall>k m s. c_rsa_sign C k m = Some s \<longrightarrow>
        length s = 256 \<and> x_rsa_verify X (be_val (c_rsa_n C k)) (be_val (c_rsa_e C k)) m s = Some True)"

lemma my_rsa_reads:
  assumes "length s = 256" "length n = 256" "length h = 32" "length e \<le> 256" "168000 \<le> g"
  shows "my_rsa X g (s @ n @ h @ e) =
    (case x_rsa_verify X (be_val n) (be_val e) h s of
       None \<Rightarrow> Ret (XErr 0 None)
     | Some is_valid \<Rightarrow> Ret (XOk (g - 168000) (bool_word is_valid)))"
proof -
  have p: "get_padded_data (s @ n @ h @ e) 0 256 = Ret s" "get_padded_data (s @ n @ h @ e) 256 256 = Ret n"
    "get_padded_data (s @ n @ h @ e) 512 32 = Ret h" "get_padded_data (s @ n @ h @ e) 544 (length e) = Ret e"
    by (subst get_padded_inside; use assms in \<open>simp add: isize_max_def\<close>)+
  have g: "\<not> g < 168000" "length (s @ n @ h @ e) - 544 = length e" using assms by simp_all
  show ?thesis unfolding my_rsa_def take_gas_def if_not_P [OF g(1)] g(2) p by simp
qed

text \<open>The address a generated key is announced with is the sender of what the key signs.\<close>

lemma generated_key_sends:
  assumes "generate_key X K secret_from_slice secret_bytes hex checksum bs = Ret (private_key, shown)"
    and "\<And>sk. secret_from_slice bs = Some sk \<Longrightarrow> recovers X K sk" "rlp_integers X"
  obtains sk addr where "secret_from_slice bs = Some sk" "shown = checksum addr"
    "\<And>n to data v p l. t_w (client_transaction X K sk n to data v p l) \<in> {27, 28} \<Longrightarrow>
       recover_sender X (client_transaction X K sk n to data v p l) = Ret (Inr addr)"
proof -
  from assms(1) obtain sk addr where k: "secret_from_slice bs = Some sk" "key_address X K sk = Ret addr" "shown = checksum addr"
    by (auto simp: generate_key_def res_simps)
  with that [OF k(1,3)] recover_client_transaction [OF assms(3) assms(2) [OF k(1)]] show thesis by simp
qed

section \<open>Properties\<close>

definition citizen_ext :: "(unit, unit) ext" where
  "citizen_ext = sample_ext\<lparr>x_rsa_verify := (\<lambda>_ _ _ s. Some (s = replicate 256 1))\<rparr>"

definition citizen_cli :: "(unit, unit) cli_ext" where
  "citizen_cli = \<lparr>c_json = sample_json, c_generate_commitment = (\<lambda>_ _. Some []), c_from_utf8_lossy = (\<lambda>_. []),
     c_parse_b256 = (\<lambda>_. Some 9), c_rsa_new = Some (), c_rsa_sign = (\<lambda>_ _. Some (replicate 256 1)),
     c_rsa_n = (\<lambda>_. replicate 256 2), c_rsa_e = (\<lambda>_. [1, 0, 1]), c_hex = map (\<lambda>b. char_of (unat b)), c_post = (\<lambda>_ _. None),
     c_as_array = (\<lambda>_. None), c_generate_input = (\<lambda>_. None), c_snarkjs = (\<lambda>_. None), c_proof_file = None,
     c_public_file = None\<rparr>"

text \<open>
  C23.  Registering a citizen.  What \<open>voter_cli register\<close> prints is a call of \<open>register\<close> with the modulus,
  the exponent and the signature of a fresh key and the commitment; put together as the registry contract
  does it (signature, modulus, hash of the commitment, exponent), the RSA precompile of the node confirms the
  signature with the word 1.  With any other signature of the same length the precompile succeeds too, with
  the word 0: the call alone, which is all the contract tests, tells nothing.
\<close>

theorem registration_is_confirmed:
  assumes "voter_cli X C (Register sec nullifier) = Ret out" "rsa_keys X C" "168000 \<le> g"
  shows "\<exists>rg. out = registration_command C rg \<and>
    my_rsa X g (rg_signature rg @ rg_modulus rg @ x_sha256 X (to_be_bytes (rg_commitment rg)) @ rg_exponent rg) =
      Ret (XOk (g - 168000) (bool_word True)) \<and>
    (\<forall>s. length s = 256 \<and> x_rsa_verify X (be_val (rg_modulus rg)) (be_val (rg_exponent rg))
        (x_sha256 X (to_be_bytes (rg_commitment rg))) s = Some False \<longrightarrow>
      my_rsa X g (s @ rg_modulus rg @ x_sha256 X (to_be_bytes (rg_commitment rg)) @ rg_exponent rg) =
        Ret (XOk (g - 168000) (bool_word False)))"
proof -
  from assms(1) obtain rg k where out: "out = registration_command C rg"
    and k: "rg_modulus rg = c_rsa_n C k" "rg_exponent rg = c_rsa_e C k"
    and sig: "c_rsa_sign C k (x_sha256 X (to_be_bytes (rg_commitment rg))) = Some (rg_signature rg)"
    by (auto simp: voter_cli_def make_registration_def res_simps Let_def)
  let ?h = "x_sha256 X (to_be_bytes (rg_commitment rg))"
  from assms(2) sig have len: "length ?h = 32" "length (rg_modulus rg) = 256" "length (rg_exponent rg) \<le> 256"
    "length (rg_signature rg) = 256"
    and ver: "x_rsa_verify X (be_val (rg_modulus rg)) (be_val (rg_exponent rg)) ?h (rg_signature rg) = Some True"
    by (auto simp: rsa_keys_def k)
  note reads = my_rsa_reads [OF _ len(2,1,3) assms(3), where X = X]
  from reads [OF len(4)] ver have "my_rsa X g (rg_signature rg @ rg_modulus rg @ ?h @ rg_exponent rg) =
      Ret (XOk (g - 168000) (bool_word True))" by simp
  moreover have "\<forall>s. length s = 256 \<and> x_rsa_verify X (be_val (rg_modulus rg)) (be_val (rg_exponent rg)) ?h s = Some False \<longrightarrow>
      my_rsa X g (s @ rg_modulus rg @ ?h @ rg_exponent rg) = Ret (XOk (g - 168000) (bool_word False))"
    using reads by simp
  ultimately show ?thesis using out by blast
qed

theorem registration_is_confirmed_witness:
  "\<exists>rg :: registration. my_rsa citizen_ext 200000 (rg_signature rg @ rg_modulus rg @ x_sha256 citizen_ext (to_be_bytes (rg_commitment rg)) @
      rg_exponent rg) = Ret (XOk 32000 (bool_word True))"
proof -
  have a: "voter_cli citizen_ext citizen_cli (Register [] []) = Ret (registration_command citizen_cli
      \<lparr>rg_modulus = replicate 256 2, rg_exponent = [1, 0, 1], rg_signature = replicate 256 1, rg_commitment = 9\<rparr>)"
    by (simp add: voter_cli_def make_registration_def citizen_cli_def Let_def)
  have b: "rsa_keys citizen_ext citizen_cli"
    by (simp add: rsa_keys_def citizen_ext_def citizen_cli_def)
  have c: "168000 \<le> (200000 :: u256)" by simp
  obtain rg :: registration where "my_rsa citizen_ext 200000 (rg_signature rg @ rg_modulus rg @
      x_sha256 citizen_ext (to_be_bytes (rg_commitment rg)) @ rg_exponent rg) =
      Ret (XOk (200000 - 168000) (bool_word True))"
    using registration_is_confirmed [OF a b c] by blast
  then have "my_rsa citizen_ext 200000 (rg_signature rg @ rg_modulus rg @
      x_sha256 citizen_ext (to_be_bytes (rg_commitment rg)) @ rg_exponent rg) =
      Ret (XOk 32000 (bool_word True))" by (simp only:) simp
  then show ?thesis by blast
qed

end
