(* ===== verification/Spec2Isabelle.thy ===== *)
theory Spec2Isabelle
  imports Typing Arithmetic Memory Child_Gas Rollback Locks Reference_State Mempool Command_Line
begin

text \<open>
  Verification of leviathan, an Ethereum execution client in Rust with an ABCI node, a JSON-RPC server
  and clients for a voting application (\<open>src/src\<close>).

  \<^bold>\<open>The program and its theories.\<close>  Every theory models the file it names, one definition per function,
  match arm or loop, with the names of the source.

  \<^item> \<open>Prelude\<close>: the result type of Rust functions (\<open>Ret\<close>, \<open>Panic\<close>, \<open>OutOfFuel\<close>), machine integers with
    their saturation and wrapping, slices, big-endian bytes.  \<open>Structs\<close>: \<open>leviathan/structs.rs\<close>.
  \<^item> State.  \<open>Rocks_DB\<close> (\<open>leviathan/db.rs\<close>): the database handle with its write batch and overlay.
    \<open>World_State\<close> (\<open>leviathan/world_state.rs\<close>, \<open>mpt_method.rs\<close>): account cache, state trie, every getter
    and setter.  \<open>World_View\<close>: what an observer reads of it, and that getters do not change the view.
    \<open>Journal\<close> (\<open>leviathan/roleback.rs\<close>): the actions, their recording and their undoing.
    \<open>Reference_State\<close> (\<open>leviathan/state_method.rs\<close>): the hash map the world state replaced.
  \<^item> Virtual machine (\<open>evm/\<close>).  \<open>Machine\<close> (\<open>evm.rs\<close>), \<open>Gas\<close> (\<open>gas.rs\<close>), \<open>Safe\<close> (\<open>safe.rs\<close>), \<open>Opcodes\<close> and
    \<open>Interpreter\<close> (\<open>execution.rs\<close>, \<open>leviathan/call.rs\<close>, \<open>create.rs\<close>, and the loop \<open>evm_run\<close>), \<open>Precompile\<close>
    (\<open>leviathan/precompile.rs\<close>, \<open>my_precompiled.rs\<close>).  The loop checks an instruction with \<open>is_safe\<close>,
    charges it, dispatches it; call and create opcodes run the loop on a new machine.
  \<^item> Transactions.  \<open>Commit\<close> and \<open>Transaction\<close> (\<open>leviathan/leviathan.rs\<close>, \<open>transaction_check.rs\<close>): checks,
    payment in advance, call or creation, refund, reward, removal of accounts, commit to the tries.
  \<^item> Node (\<open>bin/abci_node\<close>).  \<open>Node\<close> (\<open>my_abci.rs\<close>, \<open>tx_check.rs\<close>, \<open>utils.rs\<close>): CheckTx with its cache of
    pending accounts, InitChain, Commit.  \<open>Block\<close> (\<open>req_execution.rs\<close>): FinalizeBlock.  \<open>Rpc\<close> and \<open>Queries\<close>
    (\<open>my_rpc.rs\<close>): the JSON-RPC queries.  \<open>Locks\<close>: the lock operations of all handlers.
    \<open>Node_Run\<close>: the handlers, queries, crashes and restarts as one transition system.
  \<^item> Clients.  \<open>Client\<close> (\<open>solidity_utils.rs\<close>), \<open>Vk_Builder\<close> (\<open>vk_builder.rs\<close>), \<open>Zk_Prover\<close> (\<open>zk_prover.rs\<close>),
    \<open>Command_Line\<close> (\<open>bin/voter_cli.rs\<close>, \<open>generate_key.rs\<close>, \<open>bin/vk_builder.rs\<close>).

  \<^bold>\<open>What the lemmas show.\<close>

  \<^item> \<open>Effects\<close>, \<open>Typing\<close>: every handler obeys the table of stack effects, \<open>BLOCKHASH\<close> excepted; the jump
    table is the set of \<open>JUMPDEST\<close> instructions.  \<open>Arithmetic\<close>, \<open>Memory\<close>: what the opcodes compute.
  \<^item> \<open>Gas_Step\<close>, \<open>Gas_Bound\<close>, \<open>Runner\<close>, \<open>Termination\<close>, \<open>Fuel\<close>, \<open>Fuel_Mono\<close>, \<open>Frame_Steps\<close>: gas decreases with
    each instruction and across sub-calls, so execution terminates; the fuel does not influence results;
    the loop refines a step relation; reachable machines satisfy the frame invariant.
  \<^item> \<open>Static\<close>, \<open>Reversal\<close>, \<open>Invariant\<close>, \<open>Rollback\<close>: static frames change nothing; undoing the journal
    restores the view; failed calls and creations leave no trace; no ether is created.
  \<^item> \<open>Child_Gas\<close>: a call reserves at most all but one 64th of the remaining gas.
  \<^item> \<open>Transaction_Laws\<close>, \<open>Block_Laws\<close>, \<open>Query_Laws\<close>: checks and payments in closed form; blocks form a chain
    in which every transaction is found; blooms hide no log; simulated calls leave the node alone.
  \<^item> \<open>Mempool\<close>: while fewer than 100 other senders are checked, the capacity of the LRU cache, the
    transactions admitted from a sender are a queue that passes the checks of the execution, and none is
    admitted twice before a commit; after 100 others the same transaction is admitted again.
  \<^item> \<open>Reference_State\<close>: the trie-backed state behaves as the hash map on operations that are comparable
    where they are applied; what sets the two apart is stated there.  \<open>Store\<close>, \<open>Keys\<close>, \<open>Node_Run\<close>: the
    database wrapper refines a store with a map per column family; the keys of the program keep the
    families apart; in every state the node reaches the parent of the next block is stored; a committed
    block survives a restart.
  \<^item> \<open>Client\<close>, \<open>Vk_Builder\<close>, \<open>Zk_Prover\<close>, \<open>Command_Line\<close>: what the clients prepare is what the node and its
    precompiles accept.
  \<^item> Interfaces are locales.  \<open>kv_table\<close> states the laws of a typed table of the database, with one
    interpretation per column family.  \<open>runner\<close>, \<open>static_runner\<close> and \<open>reverting_runner\<close> state what the call
    machinery needs of the function that runs code; a promise is proved for one iteration inside the
    locale, and the fuelled loop is an interpretation by induction on the fuel.  \<open>approximation\<close> relates
    runs with different fuel.

  \<^bold>\<open>Fuel and bounds.\<close>  \<open>evm_run X n\<close> performs at most \<open>n\<close> nested iterations.  Every instruction that continues
  costs at least one gas, so \<open>n\<close> above the gas of the machine is enough (C1); \<open>gas_ok\<close> keeps the gas below
  the point where the saturating cost arithmetic would cap a cost.  All other recursions are structural
  or have a termination proof.

  \<^bold>\<open>Parameters.\<close>  Code outside the repository is an argument: the records \<open>ext\<close> (hashes, RLP, tries, RocksDB,
  curves), \<open>node_ext\<close> (codecs, in-memory tries, blooms, LRU cache), \<open>net_ext\<close>, \<open>key_ext\<close>, \<open>json_ext\<close>,
  \<open>cli_ext\<close> (processes, HTTP, RSA keys) and \<open>iteration\<close> (the order of hash map iteration).  Theorems that rely on their documented behaviour name it as a
  hypothesis.  Plain integer arithmetic panics on overflow as in cargo's dev profile; \<open>U256\<close> operators
  wrap.

  \<^bold>\<open>Not modelled.\<close>  \<open>run_rpc_server\<close> and \<open>main.rs\<close> (starting HTTP servers and threads), logging and
  progress messages, the trait signatures of \<open>my_trait\<close> (their implementations are modelled), the retired
  interpreter \<open>evm/bk/*\<close> that no module includes, and the test parsers.  Of a restart the model has what the
  database holds; that CometBFT then replays the chain, because \<open>Info\<close> reports height 0, is outside it.
\<close>

section \<open>Termination and gas\<close>

text \<open>
  C1.  The interpreter terminates: a machine with gas \<open>g\<close> (below the saturation point of the
  cost arithmetic) never exhausts \<open>n > g\<close> units of fuel, whatever the code, the environment, the
  world state and the external functions.  One unit of fuel is one iteration of the loop of
  \<open>evm_run\<close>, in this frame or in a sub-call.
\<close>

theorem evm_run_terminates:
  assumes "gas_ok (e_gas evm)" "unat (e_gas evm) < n"
  shows "evm_run X n env evm lv ws ss \<noteq> OutOfFuel"
  using evm_run_enough [OF assms] by (rule enoughD) simp

theorem evm_run_terminates_witness:
  "evm_run sample_ext 30 (sample_env [0x5b, 0x60, 0, 0x56]) (sample_machine [0x5b, 0x60, 0, 0x56] 29)
     (leviathan_new Constantinople) sample_world substate_new \<noteq> OutOfFuel"
  by (rule evm_run_terminates) (simp_all add: gas_ok_def)

text \<open>
  C11.  The gas of a machine never grows over a complete run, sub-calls and refunds of unused child
  gas included.
\<close>

theorem evm_run_gas_bound:
  assumes "evm_run X n env evm lv ws ss = Ret (r, evm', lv', ws', ss')" "gas_ok (e_gas evm)"
  shows "unat (e_gas evm') \<le> unat (e_gas evm)"
  using assms by (rule interpreter.run_gas)

theorem evm_run_gas_bound_witness:
  "unat (e_gas ((sample_machine [] 5)\<lparr>e_return_back := [], e_pc := 1\<rparr>)) \<le> unat (5 :: u256)"
  using evm_run_gas_bound [OF sample_stop [of 0 5 "leviathan_new Constantinople" sample_world substate_new]]
  by (simp add: gas_ok_def)

end
